theory Spec2Isabelle
  imports Complex_Main
begin

section \<open>Doubles\<close>

text \<open>
  A C++ \<^verbatim>\<open>double\<close> is modelled as a real number or one of the three special values of
  IEEE arithmetic.  Arithmetic on finite values is exact (no rounding, no overflow, no
  signed zero); the special values follow the IEEE rules, so that a division by zero, the
  logarithm of zero or the square root of a negative number is in the model what it is in
  the program.
\<close>

datatype dbl = Fin real | PInf | NInf | NaN

instantiation dbl :: "{zero,one,plus,minus,uminus,times,inverse}"
begin

definition zero_dbl :: dbl where
  "zero_dbl = Fin 0"

definition one_dbl :: dbl where
  "one_dbl = Fin 1"

fun plus_dbl :: "dbl \<Rightarrow> dbl \<Rightarrow> dbl" where
  "plus_dbl (Fin a) (Fin b) = Fin (a + b)"
| "plus_dbl NaN _ = NaN"
| "plus_dbl _ NaN = NaN"
| "plus_dbl PInf NInf = NaN"
| "plus_dbl NInf PInf = NaN"
| "plus_dbl PInf _ = PInf"
| "plus_dbl _ PInf = PInf"
| "plus_dbl NInf _ = NInf"
| "plus_dbl _ NInf = NInf"

fun uminus_dbl :: "dbl \<Rightarrow> dbl" where
  "uminus_dbl (Fin a) = Fin (- a)"
| "uminus_dbl PInf = NInf"
| "uminus_dbl NInf = PInf"
| "uminus_dbl NaN = NaN"

definition minus_dbl :: "dbl \<Rightarrow> dbl \<Rightarrow> dbl" where
  "minus_dbl x y = x + (- y)"

fun times_dbl :: "dbl \<Rightarrow> dbl \<Rightarrow> dbl" where
  "times_dbl (Fin a) (Fin b) = Fin (a * b)"
| "times_dbl NaN _ = NaN"
| "times_dbl _ NaN = NaN"
| "times_dbl (Fin a) PInf = (if 0 < a then PInf else if a < 0 then NInf else NaN)"
| "times_dbl (Fin a) NInf = (if 0 < a then NInf else if a < 0 then PInf else NaN)"
| "times_dbl PInf (Fin b) = (if 0 < b then PInf else if b < 0 then NInf else NaN)"
| "times_dbl NInf (Fin b) = (if 0 < b then NInf else if b < 0 then PInf else NaN)"
| "times_dbl PInf PInf = PInf"
| "times_dbl PInf NInf = NInf"
| "times_dbl NInf PInf = NInf"
| "times_dbl NInf NInf = PInf"

fun divide_dbl :: "dbl \<Rightarrow> dbl \<Rightarrow> dbl" where
  "divide_dbl (Fin a) (Fin b) =
     (if b \<noteq> 0 then Fin (a / b) else if 0 < a then PInf else if a < 0 then NInf else NaN)"
| "divide_dbl NaN _ = NaN"
| "divide_dbl _ NaN = NaN"
| "divide_dbl (Fin a) PInf = Fin 0"
| "divide_dbl (Fin a) NInf = Fin 0"
| "divide_dbl PInf (Fin b) = (if 0 \<le> b then PInf else NInf)"
| "divide_dbl NInf (Fin b) = (if 0 \<le> b then NInf else PInf)"
| "divide_dbl PInf PInf = NaN"
| "divide_dbl PInf NInf = NaN"
| "divide_dbl NInf PInf = NaN"
| "divide_dbl NInf NInf = NaN"

fun inverse_dbl :: "dbl \<Rightarrow> dbl" where
  "inverse_dbl (Fin b) = (if b \<noteq> 0 then Fin (1 / b) else PInf)"
| "inverse_dbl NaN = NaN"
| "inverse_dbl PInf = Fin 0"
| "inverse_dbl NInf = Fin 0"

instance ..

end

instance dbl :: comm_monoid_add
proof
  fix a b c :: dbl
  show "a + b + c = a + (b + c)" by (cases a; cases b; cases c; simp)
  show "a + b = b + a" by (cases a; cases b; simp)
  show "0 + a = a" by (cases a; simp add: zero_dbl_def)
qed

text \<open>The comparison \<^verbatim>\<open><\<close> of two doubles: false as soon as one of them is NaN.\<close>

fun dlt :: "dbl \<Rightarrow> dbl \<Rightarrow> bool" where
  "dlt (Fin a) (Fin b) = (a < b)"
| "dlt NaN _ = False"
| "dlt _ NaN = False"
| "dlt _ NInf = False"
| "dlt PInf _ = False"
| "dlt NInf _ = True"
| "dlt (Fin a) PInf = True"

fun dabs :: "dbl \<Rightarrow> dbl" where
  "dabs (Fin a) = Fin \<bar>a\<bar>"
| "dabs PInf = PInf"
| "dabs NInf = PInf"
| "dabs NaN = NaN"

fun dsqrt :: "dbl \<Rightarrow> dbl" where
  "dsqrt (Fin a) = (if 0 \<le> a then Fin (sqrt a) else NaN)"
| "dsqrt PInf = PInf"
| "dsqrt NInf = NaN"
| "dsqrt NaN = NaN"

fun dexp :: "dbl \<Rightarrow> dbl" where
  "dexp (Fin a) = Fin (exp a)"
| "dexp PInf = PInf"
| "dexp NInf = Fin 0"
| "dexp NaN = NaN"

fun dlog :: "dbl \<Rightarrow> dbl" where
  "dlog (Fin a) = (if 0 < a then Fin (ln a) else if a = 0 then NInf else NaN)"
| "dlog PInf = PInf"
| "dlog NInf = NaN"
| "dlog NaN = NaN"

text \<open>
  The complementary error function of the C library, on doubles.  Its values on the reals
  are a parameter (\<open>erfc_r\<close>); at the infinities it is 0 and 2.
\<close>

fun derfc :: "(real \<Rightarrow> real) \<Rightarrow> dbl \<Rightarrow> dbl" where
  "derfc erfc_r (Fin a) = Fin (erfc_r a)"
| "derfc erfc_r PInf = Fin 0"
| "derfc erfc_r NInf = Fin 2"
| "derfc erfc_r NaN = NaN"

definition dbl_of_nat :: "nat \<Rightarrow> dbl" where
  "dbl_of_nat n = Fin (real n)"

definition LOG_2PI :: dbl where
  "LOG_2PI = dlog (Fin 2 * Fin pi)"

definition M_SQRT1_2 :: dbl where
  "M_SQRT1_2 = Fin (1 / sqrt 2)"

section \<open>Armadillo matrices and cubes\<close>

text \<open>
  An \<^verbatim>\<open>arma::Mat\<close> is its two dimensions and its entries; a column vector is a matrix
  with one column, a row vector a matrix with one row.  Every operation builds its result
  with \<open>mk_mat\<close>, which holds 0 outside the dimensions, so that two results are equal
  when their dimensions and their entries inside the dimensions are.  Armadillo checks that
  the operands of an operation conform and raises \<^verbatim>\<open>std::logic_error\<close> when they do not;
  the operations below are total, and the theorems about them state the shapes they need.
\<close>

datatype 'a mat = Mat (n_rows: nat) (n_cols: nat) (ent: "nat \<Rightarrow> nat \<Rightarrow> 'a")

definition mk_mat :: "nat \<Rightarrow> nat \<Rightarrow> (nat \<Rightarrow> nat \<Rightarrow> 'a) \<Rightarrow> 'a::zero mat" where
  "mk_mat r c f = Mat r c (\<lambda>i j. if i < r \<and> j < c then f i j else 0)"

definition empty_mat :: "'a::zero mat" where
  "empty_mat = mk_mat 0 0 (\<lambda>i j. 0)"

definition n_elem :: "'a mat \<Rightarrow> nat" where
  "n_elem M = n_rows M * n_cols M"

definition is_empty :: "'a mat \<Rightarrow> bool" where
  "is_empty M = (n_elem M = 0)"

definition zeros :: "nat \<Rightarrow> nat \<Rightarrow> 'a::zero mat" where
  "zeros r c = mk_mat r c (\<lambda>i j. 0)"

definition ones :: "nat \<Rightarrow> nat \<Rightarrow> 'a::{zero,one} mat" where
  "ones r c = mk_mat r c (\<lambda>i j. 1)"

definition fill :: "nat \<Rightarrow> nat \<Rightarrow> 'a \<Rightarrow> 'a::zero mat" where
  "fill r c x = mk_mat r c (\<lambda>i j. x)"

definition col :: "'a::zero mat \<Rightarrow> nat \<Rightarrow> 'a mat" where
  "col M j = mk_mat (n_rows M) 1 (\<lambda>i k. ent M i j)"

definition row :: "'a::zero mat \<Rightarrow> nat \<Rightarrow> 'a mat" where
  "row M i = mk_mat 1 (n_cols M) (\<lambda>k j. ent M i j)"

definition set_col :: "'a::zero mat \<Rightarrow> nat \<Rightarrow> 'a mat \<Rightarrow> 'a mat" where
  "set_col M j v = mk_mat (n_rows M) (n_cols M) (\<lambda>i k. if k = j then ent v i 0 else ent M i k)"

definition set_row :: "'a::zero mat \<Rightarrow> nat \<Rightarrow> 'a mat \<Rightarrow> 'a mat" where
  "set_row M i v = mk_mat (n_rows M) (n_cols M) (\<lambda>k j. if k = i then ent v 0 j else ent M k j)"

definition set_at :: "'a::zero mat \<Rightarrow> nat \<Rightarrow> nat \<Rightarrow> 'a \<Rightarrow> 'a mat" where
  "set_at M i j x =
     mk_mat (n_rows M) (n_cols M) (\<lambda>k l. if k = i \<and> l = j then x else ent M k l)"

definition t_mat :: "'a::zero mat \<Rightarrow> 'a mat" where
  "t_mat M = mk_mat (n_cols M) (n_rows M) (\<lambda>i j. ent M j i)"

definition map_ent :: "('a \<Rightarrow> 'b) \<Rightarrow> 'a mat \<Rightarrow> 'b::zero mat" where
  "map_ent f M = mk_mat (n_rows M) (n_cols M) (\<lambda>i j. f (ent M i j))"

definition mat_add :: "'a::{zero,plus} mat \<Rightarrow> 'a mat \<Rightarrow> 'a mat" where
  "mat_add A B = mk_mat (n_rows A) (n_cols A) (\<lambda>i j. ent A i j + ent B i j)"

definition mat_sub :: "'a::{zero,minus} mat \<Rightarrow> 'a mat \<Rightarrow> 'a mat" where
  "mat_sub A B = mk_mat (n_rows A) (n_cols A) (\<lambda>i j. ent A i j - ent B i j)"

definition schur :: "'a::{zero,times} mat \<Rightarrow> 'a mat \<Rightarrow> 'a mat" where
  "schur A B = mk_mat (n_rows A) (n_cols A) (\<lambda>i j. ent A i j * ent B i j)"

definition mat_div :: "'a::{zero,inverse} mat \<Rightarrow> 'a mat \<Rightarrow> 'a mat" where
  "mat_div A B = mk_mat (n_rows A) (n_cols A) (\<lambda>i j. ent A i j / ent B i j)"

definition scal :: "'a \<Rightarrow> 'a::{zero,times} mat \<Rightarrow> 'a mat" where
  "scal x M = mk_mat (n_rows M) (n_cols M) (\<lambda>i j. x * ent M i j)"

definition mat_mul :: "'a::{comm_monoid_add,times} mat \<Rightarrow> 'a mat \<Rightarrow> 'a mat" where
  "mat_mul A B = mk_mat (n_rows A) (n_cols B) (\<lambda>i j. \<Sum>k<n_cols A. ent A i k * ent B k j)"

text \<open>\<^verbatim>\<open>M.each_col() % v\<close> and \<^verbatim>\<open>M.each_row() % w\<close>, for a column vector v and a row vector w.\<close>

definition each_col_schur :: "'a::{zero,times} mat \<Rightarrow> 'a mat \<Rightarrow> 'a mat" where
  "each_col_schur M v = mk_mat (n_rows M) (n_cols M) (\<lambda>i j. ent M i j * ent v i 0)"

definition each_row_schur :: "'a::{zero,times} mat \<Rightarrow> 'a mat \<Rightarrow> 'a mat" where
  "each_row_schur M w = mk_mat (n_rows M) (n_cols M) (\<lambda>i j. ent M i j * ent w 0 j)"

definition each_col_add :: "'a::{zero,plus} mat \<Rightarrow> 'a mat \<Rightarrow> 'a mat" where
  "each_col_add M v = mk_mat (n_rows M) (n_cols M) (\<lambda>i j. ent M i j + ent v i 0)"

definition diagvec :: "'a::zero mat \<Rightarrow> 'a mat" where
  "diagvec M = mk_mat (min (n_rows M) (n_cols M)) 1 (\<lambda>i k. ent M i i)"

definition add_diag :: "'a::{zero,plus} mat \<Rightarrow> 'a \<Rightarrow> 'a mat" where
  "add_diag M x = mk_mat (n_rows M) (n_cols M) (\<lambda>i j. if i = j then ent M i j + x else ent M i j)"

definition trimatu :: "'a::zero mat \<Rightarrow> 'a mat" where
  "trimatu M = mk_mat (n_rows M) (n_cols M) (\<lambda>i j. if i \<le> j then ent M i j else 0)"

definition accu :: "'a::comm_monoid_add mat \<Rightarrow> 'a" where
  "accu M = (\<Sum>i<n_rows M. \<Sum>j<n_cols M. ent M i j)"

definition trace :: "'a::comm_monoid_add mat \<Rightarrow> 'a" where
  "trace M = (\<Sum>i<min (n_rows M) (n_cols M). ent M i i)"

datatype 'a cube =
  Cube (c_rows: nat) (c_cols: nat) (n_slices: nat) (cent: "nat \<Rightarrow> nat \<Rightarrow> nat \<Rightarrow> 'a")

definition mk_cube :: "nat \<Rightarrow> nat \<Rightarrow> nat \<Rightarrow> (nat \<Rightarrow> nat \<Rightarrow> nat \<Rightarrow> 'a) \<Rightarrow> 'a::zero cube" where
  "mk_cube r c n f = Cube r c n (\<lambda>i j k. if i < r \<and> j < c \<and> k < n then f i j k else 0)"

definition empty_cube :: "'a::zero cube" where
  "empty_cube = mk_cube 0 0 0 (\<lambda>i j k. 0)"

definition cube_is_empty :: "'a cube \<Rightarrow> bool" where
  "cube_is_empty C = (c_rows C * c_cols C * n_slices C = 0)"

definition cube_zeros :: "nat \<Rightarrow> nat \<Rightarrow> nat \<Rightarrow> 'a::zero cube" where
  "cube_zeros r c n = mk_cube r c n (\<lambda>i j k. 0)"

definition slice :: "'a::zero cube \<Rightarrow> nat \<Rightarrow> 'a mat" where
  "slice C k = mk_mat (c_rows C) (c_cols C) (\<lambda>i j. cent C i j k)"

definition set_slice :: "'a::zero cube \<Rightarrow> nat \<Rightarrow> 'a mat \<Rightarrow> 'a cube" where
  "set_slice C k M =
     mk_cube (c_rows C) (c_cols C) (n_slices C) (\<lambda>i j l. if l = k then ent M i j else cent C i j l)"

section \<open>The library routines the header calls\<close>

text \<open>
  The factorisations and inverses of Armadillo and the error function of the C library are
  not part of the repository: they are parameters of the model.  \<open>None\<close> is the
  \<^verbatim>\<open>std::runtime_error\<close> Armadillo throws when a factorisation or an inversion fails.
\<close>

record arma =
  chol :: "dbl mat \<Rightarrow> dbl mat option"
  inv_mat :: "dbl mat \<Rightarrow> dbl mat option"
  inv_sympd :: "dbl mat \<Rightarrow> dbl mat option"
  erfc :: "real \<Rightarrow> real"

section \<open>Densities\<close>

text \<open>
  The expression \<^verbatim>\<open>arma::trans(arma::inv(arma::trimatu(arma::chol(sigma))))\<close> of the two
  \<^verbatim>\<open>try\<close> blocks: \<open>None\<close> when \<^verbatim>\<open>chol\<close> or \<^verbatim>\<open>inv\<close> throws.
\<close>

definition try_rooti :: "arma \<Rightarrow> dbl mat \<Rightarrow> dbl mat option" where
  "try_rooti lib sigma =
     (case chol lib sigma of
        None \<Rightarrow> None
      | Some R \<Rightarrow> (case inv_mat lib (trimatu R) of
                     None \<Rightarrow> None
                   | Some Ri \<Rightarrow> Some (t_mat Ri)))"

definition point_mass_eps :: dbl where
  "point_mass_eps = Fin (1 / 1000000)"

definition dmvnorm_mat :: "arma \<Rightarrow> dbl mat \<Rightarrow> dbl mat \<Rightarrow> dbl mat \<Rightarrow> bool \<Rightarrow> bool \<Rightarrow> dbl mat" where
  "dmvnorm_mat lib x mean sigma logd inversed =
     (let xdim = dbl_of_nat (n_rows x);
          out = zeros (n_cols x) 1
      in case (if inversed then Some sigma else try_rooti lib sigma) of
           None \<Rightarrow>
             (let out = (if logd then fill (n_cols x) 1 (- PInf) else fill (n_cols x) 1 (Fin 0))
              in fold (\<lambda>i out.
                         if dlt (accu (map_ent dabs (mat_sub (col x i) mean))) point_mass_eps
                         then set_at out i 0 PInf else out)
                   [0..<n_cols x] out)
         | Some rooti \<Rightarrow>
             (let rootisum = accu (map_ent dlog (diagvec rooti));
                  constants = - (xdim / Fin 2) * LOG_2PI;
                  out = fold (\<lambda>i out.
                                let z = mat_mul rooti (mat_sub (col x i) mean)
                                in set_at out i 0
                                     (constants - Fin (1 / 2) * accu (schur z z) + rootisum))
                          [0..<n_cols x] out
              in if logd = False then map_ent dexp out else out))"

definition dmvnorm :: "arma \<Rightarrow> dbl mat \<Rightarrow> dbl mat \<Rightarrow> dbl mat \<Rightarrow> bool \<Rightarrow> bool \<Rightarrow> dbl" where
  "dmvnorm lib x mean sigma logd inversed =
     (case (if inversed then Some sigma else try_rooti lib sigma) of
        None \<Rightarrow>
          (let diff = accu (map_ent dabs (mat_sub x mean))
           in if logd then (if dlt diff point_mass_eps then PInf else - PInf)
              else (if dlt diff point_mass_eps then PInf else Fin 0))
      | Some rooti \<Rightarrow>
          (let rootisum = accu (map_ent dlog (diagvec rooti));
               constants = - (dbl_of_nat (n_elem x) / Fin 2) * LOG_2PI;
               z = mat_mul rooti (mat_sub x mean);
               out = constants - Fin (1 / 2) * accu (schur z z) + rootisum
           in if logd = False then dexp out else out))"


definition pow2 :: "dbl mat \<Rightarrow> dbl mat" where
  "pow2 M = map_ent (\<lambda>x. x * x) M"

text \<open>
  \<^verbatim>\<open>pnorm\<close> is a template; the header instantiates it with vectors and with matrices, which
  are both matrices here.  All its operations are elementwise.
\<close>

definition pnorm :: "arma \<Rightarrow> dbl mat \<Rightarrow> dbl mat \<Rightarrow> dbl mat \<Rightarrow> bool \<Rightarrow> bool \<Rightarrow> dbl mat" where
  "pnorm lib x m s logd lower_tail =
     (let res = scal (Fin (1 / 2))
                  (map_ent (derfc (erfc lib))
                     (map_ent (\<lambda>y. y * M_SQRT1_2) (mat_div (mat_sub x m) s)))
      in if \<not> lower_tail \<and> \<not> logd then map_ent (\<lambda>y. Fin 1 - y) res
         else if lower_tail \<and> \<not> logd then res
         else if \<not> lower_tail \<and> logd then map_ent dlog (map_ent (\<lambda>y. Fin 1 - y) res)
         else map_ent dlog res)"

section \<open>Covariance operations\<close>

definition get_cov :: "dbl mat \<Rightarrow> dbl mat \<Rightarrow> dbl mat \<Rightarrow> dbl mat" where
  "get_cov s V L =
     (if is_empty L then each_row_schur (each_col_schur V s) (t_mat s)
      else (let svs = each_row_schur (each_col_schur V s) (t_mat s)
            in mat_mul (mat_mul L svs) (t_mat L)))"

text \<open>The overload of \<^verbatim>\<open>get_cov\<close> with two arguments.\<close>

definition get_cov2 :: "dbl mat \<Rightarrow> dbl mat \<Rightarrow> dbl mat" where
  "get_cov2 s V = each_row_schur (each_col_schur V s) (t_mat s)"

definition get_posterior_cov :: "arma \<Rightarrow> dbl mat \<Rightarrow> dbl mat \<Rightarrow> dbl mat option" where
  "get_posterior_cov lib Vinv U =
     (let S = mat_mul Vinv U;
          S = add_diag S (Fin 1)
      in case inv_mat lib S of
           None \<Rightarrow> None
         | Some Si \<Rightarrow> Some (mat_mul U Si))"

definition get_posterior_mean :: "dbl mat \<Rightarrow> dbl mat \<Rightarrow> dbl mat \<Rightarrow> dbl mat" where
  "get_posterior_mean bhat Vinv U1 = mat_mul (mat_mul U1 Vinv) bhat"

definition get_posterior_mean_mat :: "dbl mat \<Rightarrow> dbl mat \<Rightarrow> dbl mat \<Rightarrow> dbl mat" where
  "get_posterior_mean_mat bhat Vinv U1 = mat_mul (mat_mul U1 Vinv) bhat"

section \<open>Likelihood matrices\<close>

text \<open>
  Besides a failed factorisation, two things can stop a function of the header on inputs
  whose shapes conform: column 0 or slice 0 of an object that has none (Armadillo's bounds
  check throws), and an integer division by zero.  Both are \<open>None\<close>.
\<close>

definition col0 :: "'a::zero mat \<Rightarrow> 'a mat option" where
  "col0 M = (if n_cols M = 0 then None else Some (col M 0))"

definition calc_lik ::
  "arma \<Rightarrow> dbl mat \<Rightarrow> dbl mat \<Rightarrow> dbl mat \<Rightarrow> dbl mat \<Rightarrow> dbl cube \<Rightarrow> bool \<Rightarrow> bool \<Rightarrow> dbl mat option" where
  "calc_lik lib b_mat s_mat v_mat l_mat U_cube logd common_cov =
     (let lik = zeros (n_cols b_mat) (n_slices U_cube);
          mean = zeros (n_rows b_mat) 1
      in if common_cov then
           (case col0 s_mat of
              None \<Rightarrow> None
            | Some s0 \<Rightarrow>
                (let sigma = get_cov s0 v_mat l_mat
                 in Some (fold (\<lambda>p lik.
                                  set_col lik p
                                    (dmvnorm_mat lib b_mat mean (mat_add sigma (slice U_cube p)) logd False))
                            [0..<n_cols lik] lik)))
         else
           Some (fold (\<lambda>j lik.
                         let sigma = get_cov (col s_mat j) v_mat l_mat
                         in fold (\<lambda>p lik.
                                    set_at lik j p
                                      (dmvnorm lib (col b_mat j) mean (mat_add sigma (slice U_cube p)) logd False))
                              [0..<n_cols lik] lik)
                   [0..<n_rows lik] lik))"

text \<open>
  The overload of \<^verbatim>\<open>calc_lik\<close> that takes the whitening matrices.  The counter \<open>k\<close> of the
  general branch is \<open>j * P + p\<close>.
\<close>

definition calc_lik_rooti :: "arma \<Rightarrow> dbl mat \<Rightarrow> dbl cube \<Rightarrow> bool \<Rightarrow> bool \<Rightarrow> dbl mat option" where
  "calc_lik_rooti lib b_mat rooti_cube logd common_cov =
     (if \<not> common_cov \<and> n_cols b_mat = 0 then None
      else
        (let P = (if common_cov then n_slices rooti_cube
                  else n_slices rooti_cube div n_cols b_mat);
             lik = zeros (n_cols b_mat) P;
             mean = zeros (n_rows b_mat) 1
         in if common_cov then
              Some (fold (\<lambda>p lik.
                            set_col lik p (dmvnorm_mat lib b_mat mean (slice rooti_cube p) logd True))
                      [0..<n_cols lik] lik)
            else
              Some (fold (\<lambda>j lik.
                            fold (\<lambda>p lik.
                                    set_at lik j p
                                      (dmvnorm lib (col b_mat j) mean
                                         (slice rooti_cube (j * n_cols lik + p)) logd True))
                              [0..<n_cols lik] lik)
                      [0..<n_rows lik] lik)))"

section \<open>Standard errors\<close>

record SE =
  s :: "dbl mat"
  s_orig :: "dbl mat"
  s_alpha :: "dbl mat"
  is_orig_empty :: bool

text \<open>
  The default constructor leaves \<^verbatim>\<open>is_orig_empty\<close> unset; every engine calls
  \<^verbatim>\<open>set_original\<close> before it reads it.
\<close>

definition SE_new :: SE where
  "SE_new = \<lparr>s = empty_mat, s_orig = empty_mat, s_alpha = empty_mat, is_orig_empty = True\<rparr>"

definition SE_set :: "SE \<Rightarrow> dbl mat \<Rightarrow> dbl mat \<Rightarrow> SE" where
  "SE_set se sbhat sbhat_alpha =
     se\<lparr>s := sbhat,
        s_alpha := (if is_empty sbhat_alpha then ones (n_rows sbhat) (n_cols sbhat)
                    else sbhat_alpha)\<rparr>"

text \<open>\<^verbatim>\<open>set(int J, int R)\<close>, with the parameter names of the source.\<close>

definition SE_set_ones :: "SE \<Rightarrow> nat \<Rightarrow> nat \<Rightarrow> SE" where
  "SE_set_ones se J R = se\<lparr>s := ones J R, s_alpha := ones J R\<rparr>"

definition SE_set_original :: "SE \<Rightarrow> dbl mat \<Rightarrow> SE" where
  "SE_set_original se val = se\<lparr>s_orig := val, is_orig_empty := is_empty val\<rparr>"

definition SE_get_original :: "SE \<Rightarrow> dbl mat" where
  "SE_get_original se = (if is_orig_empty se then s se else s_orig se)"

definition SE_get :: "SE \<Rightarrow> dbl mat" where
  "SE_get se = s_alpha se"

section \<open>Loops that can throw\<close>

fun fold_opt :: "('a \<Rightarrow> 's \<Rightarrow> 's option) \<Rightarrow> 'a list \<Rightarrow> 's \<Rightarrow> 's option" where
  "fold_opt f [] st = Some st"
| "fold_opt f (x # xs) st = (case f x st of None \<Rightarrow> None | Some st' \<Rightarrow> fold_opt f xs st')"

text \<open>The matrices a posterior engine fills per mixture component before it averages them.\<close>

record locals =
  mu1_mat :: "dbl mat"
  diag_mu2_mat :: "dbl mat"
  zero_mat :: "dbl mat"
  neg_mat :: "dbl mat"

text \<open>
  The loop over the conditions \<open>r\<close> at the end of a component of the general engines:
  where \<open>sigma\<close> is 0 the component is a point mass.
\<close>

definition mark_degenerate :: "dbl mat \<Rightarrow> nat \<Rightarrow> locals \<Rightarrow> locals" where
  "mark_degenerate sigma p loc =
     fold (\<lambda>r loc.
             if ent sigma r 0 = 0
             then loc\<lparr>zero_mat := set_at (zero_mat loc) r p (Fin 1),
                      neg_mat := set_at (neg_mat loc) r p (Fin 0)\<rparr>
             else loc)
       [0..<n_elem sigma] loc"

text \<open>The same loop in the engines for a common covariance: whole rows are written.\<close>

definition mark_degenerate_rows :: "dbl mat \<Rightarrow> dbl mat \<Rightarrow> dbl mat \<Rightarrow> locals \<Rightarrow> locals" where
  "mark_degenerate_rows Svec ones_row zeros_row loc =
     fold (\<lambda>r loc.
             if ent Svec r 0 = 0
             then loc\<lparr>zero_mat := set_row (zero_mat loc) r ones_row,
                      neg_mat := set_row (neg_mat loc) r zeros_row\<rparr>
             else loc)
       [0..<n_elem Svec] loc"


section \<open>The objects of the three posterior engines\<close>

text \<open>
  The classes \<^verbatim>\<open>PosteriorASH\<close>, \<^verbatim>\<open>MVSERMix\<close> and \<^verbatim>\<open>PosteriorMASH\<close> share the names of
  most of their members; a name without a qualifier is a member of \<^verbatim>\<open>PosteriorMASH\<close>.
\<close>

record PosteriorASH =
  b_vec :: "dbl mat"
  s_vec :: "dbl mat"
  s_alpha_vec :: "dbl mat"
  v :: dbl
  U_vec :: "dbl mat"
  post_mean :: "dbl mat"
  post_var :: "dbl mat"
  neg_prob :: "dbl mat"
  zero_prob :: "dbl mat"

record MVSERMix =
  b_mat :: "dbl mat"
  s_obj :: SE
  v_mat :: "dbl mat"
  U_cube :: "dbl cube"
  Vinv_cube :: "dbl cube"
  U0_cube :: "dbl cube"
  Uinv_cube :: "dbl cube"
  post_mean :: "dbl mat"
  post_var :: "dbl mat"
  neg_prob :: "dbl mat"
  zero_prob :: "dbl mat"
  post_cov :: "dbl cube"
  prior_scalar :: "dbl mat"

section \<open>The multivariate posterior engine\<close>

record PosteriorMASH =
  b_mat :: "dbl mat"
  s_obj :: SE
  v_mat :: "dbl mat"
  l_mat :: "dbl mat"
  a_mat :: "dbl mat"
  U_cube :: "dbl cube"
  Vinv_cube :: "dbl cube"
  U0_cube :: "dbl cube"
  post_mean :: "dbl mat"
  post_var :: "dbl mat"
  neg_prob :: "dbl mat"
  zero_prob :: "dbl mat"
  post_cov :: "dbl cube"

definition PosteriorMASH_new ::
  "dbl mat \<Rightarrow> dbl mat \<Rightarrow> dbl mat \<Rightarrow> dbl mat \<Rightarrow> dbl mat \<Rightarrow> dbl mat \<Rightarrow> dbl mat \<Rightarrow> dbl cube
     \<Rightarrow> PosteriorMASH" where
  "PosteriorMASH_new b s_mat s_alpha_mat s_orig_mat vm lm am Uc =
     (let J = n_cols b;
          R = n_rows b;
          se = (if is_empty s_mat then SE_set_ones SE_new R J
                else SE_set SE_new s_mat s_alpha_mat);
          se = SE_set_original se s_orig_mat;
          R = (if \<not> is_empty am then n_rows am else R)
      in \<lparr>b_mat = b, s_obj = se, v_mat = vm, l_mat = lm, a_mat = am, U_cube = Uc,
          Vinv_cube = empty_cube, U0_cube = empty_cube,
          post_mean = zeros R J, post_var = zeros R J,
          neg_prob = zeros R J, zero_prob = zeros R J,
          post_cov = cube_zeros R R J\<rparr>)"

definition mash_set_vinv :: "PosteriorMASH \<Rightarrow> dbl cube \<Rightarrow> PosteriorMASH" where
  "mash_set_vinv obj val = obj\<lparr>Vinv_cube := val\<rparr>"

definition mash_set_U0 :: "PosteriorMASH \<Rightarrow> dbl cube \<Rightarrow> PosteriorMASH" where
  "mash_set_U0 obj val = obj\<lparr>U0_cube := val\<rparr>"

text \<open>
  The body of the loop over the components \<open>p\<close> of \<^verbatim>\<open>compute_posterior\<close>, for the effect
  \<open>j\<close>.  It works on the four local matrices and on the object, whose \<^verbatim>\<open>post_cov\<close>
  it may add to.
\<close>

definition mash_component ::
  "arma \<Rightarrow> dbl mat \<Rightarrow> int \<Rightarrow> nat \<Rightarrow> dbl mat \<Rightarrow> dbl mat \<Rightarrow> nat
     \<Rightarrow> locals \<times> PosteriorMASH \<Rightarrow> (locals \<times> PosteriorMASH) option" where
  "mash_component lib posterior_weights report_type j Vinv_j mean p st =
     (case st of (loc, obj) \<Rightarrow>
        (case (if cube_is_empty (U0_cube obj)
               then get_posterior_cov lib Vinv_j (slice (U_cube obj) p)
               else Some (slice (U0_cube obj) (j * n_slices (U_cube obj) + p))) of
           None \<Rightarrow> None
         | Some U0 \<Rightarrow>
             (let sa = col (SE_get (s_obj obj)) j;
                  mu1 = (if is_empty (a_mat obj)
                         then schur (get_posterior_mean (col (b_mat obj) j) Vinv_j U0) sa
                         else mat_mul (a_mat obj)
                                (schur (get_posterior_mean (col (b_mat obj) j) Vinv_j U0) sa));
                  U1 = (if is_empty (a_mat obj)
                        then each_row_schur (each_col_schur U0 sa) (t_mat sa)
                        else mat_mul (a_mat obj)
                               (mat_mul (each_row_schur (each_col_schur U0 sa) (t_mat sa))
                                  (t_mat (a_mat obj))));
                  loc = loc\<lparr>mu1_mat := set_col (mu1_mat loc) p mu1\<rparr>;
                  obj = (if report_type = 2 \<or> report_type = 4
                         then obj\<lparr>post_cov :=
                                set_slice (post_cov obj) j
                                  (mat_add (slice (post_cov obj) j)
                                     (scal (ent posterior_weights p j)
                                        (mat_add U1
                                           (mat_mul (col (mu1_mat loc) p)
                                              (t_mat (col (mu1_mat loc) p))))))\<rparr>
                         else obj);
                  sigma = map_ent dsqrt (diagvec U1);
                  loc = loc\<lparr>diag_mu2_mat :=
                          set_col (diag_mu2_mat loc) p
                            (mat_add (pow2 (col (mu1_mat loc) p)) (diagvec U1))\<rparr>;
                  loc = loc\<lparr>neg_mat :=
                          set_col (neg_mat loc) p
                            (pnorm lib (col (mu1_mat loc) p) mean sigma False True)\<rparr>;
                  loc = mark_degenerate sigma p loc
              in Some (loc, obj))))"

text \<open>The body of the loop over the effects \<open>j\<close> of \<^verbatim>\<open>compute_posterior\<close>.\<close>

definition mash_effect ::
  "arma \<Rightarrow> dbl mat \<Rightarrow> int \<Rightarrow> dbl mat \<Rightarrow> nat \<Rightarrow> PosteriorMASH \<Rightarrow> PosteriorMASH option" where
  "mash_effect lib posterior_weights report_type mean j obj =
     (case (if cube_is_empty (Vinv_cube obj)
            then inv_sympd lib
                   (get_cov (col (SE_get_original (s_obj obj)) j) (v_mat obj) (l_mat obj))
            else Some (slice (Vinv_cube obj) j)) of
        None \<Rightarrow> None
      | Some Vinv_j \<Rightarrow>
          (let R = n_rows (post_mean obj);
               P = n_slices (U_cube obj);
               loc = \<lparr>mu1_mat = zeros R P, diag_mu2_mat = zeros R P,
                      zero_mat = zeros R P, neg_mat = zeros R P\<rparr>
           in case fold_opt (mash_component lib posterior_weights report_type j Vinv_j mean)
                     [0..<P] (loc, obj) of
                None \<Rightarrow> None
              | Some (loc, obj) \<Rightarrow>
                  (let obj = obj\<lparr>post_mean :=
                               set_col (post_mean obj) j
                                 (mat_mul (mu1_mat loc) (col posterior_weights j))\<rparr>;
                       obj = obj\<lparr>post_var :=
                               set_col (post_var obj) j
                                 (mat_mul (diag_mu2_mat loc) (col posterior_weights j))\<rparr>;
                       obj = obj\<lparr>neg_prob :=
                               set_col (neg_prob obj) j
                                 (mat_mul (neg_mat loc) (col posterior_weights j))\<rparr>;
                       obj = obj\<lparr>zero_prob :=
                               set_col (zero_prob obj) j
                                 (mat_mul (zero_mat loc) (col posterior_weights j))\<rparr>;
                       obj = (if report_type = 4
                              then obj\<lparr>post_cov :=
                                     set_slice (post_cov obj) j
                                       (mat_sub (slice (post_cov obj) j)
                                          (mat_mul (col (post_mean obj) j)
                                             (t_mat (col (post_mean obj) j))))\<rparr>
                              else obj)
                   in Some obj)))"

text \<open>
  \<^verbatim>\<open>PosteriorMASH::compute_posterior\<close>.  The C++ function returns 0 whenever it returns;
  the model returns the object as the call leaves it.
\<close>

definition compute_posterior ::
  "arma \<Rightarrow> PosteriorMASH \<Rightarrow> dbl mat \<Rightarrow> int \<Rightarrow> PosteriorMASH option" where
  "compute_posterior lib obj posterior_weights report_type =
     (let mean = zeros (n_rows (post_mean obj)) 1
      in case fold_opt (mash_effect lib posterior_weights report_type mean)
                [0..<n_cols (post_mean obj)] obj of
           None \<Rightarrow> None
         | Some obj \<Rightarrow>
             Some (obj\<lparr>post_var := mat_sub (post_var obj) (pow2 (post_mean obj))\<rparr>))"

text \<open>
  The body of the loop over the components \<open>p\<close> of \<^verbatim>\<open>compute_posterior_comcov\<close>.  It
  returns the local matrices of the component (as they are when they have been averaged
  into the outputs) with the matrix \<open>sigma\<close>, which lives across components, and the
  object.
\<close>

definition mash_comcov_component ::
  "arma \<Rightarrow> dbl mat \<Rightarrow> int \<Rightarrow> dbl mat \<Rightarrow> dbl mat \<Rightarrow> dbl mat \<Rightarrow> dbl mat \<Rightarrow> nat
     \<Rightarrow> dbl mat \<times> PosteriorMASH \<Rightarrow> (locals \<times> dbl mat \<times> PosteriorMASH) option" where
  "mash_comcov_component lib posterior_weights report_type Vinv mean ones_row zeros_row p st =
     (case st of (sigma, obj) \<Rightarrow>
        (case (if cube_is_empty (U0_cube obj)
               then get_posterior_cov lib Vinv (slice (U_cube obj) p)
               else Some (slice (U0_cube obj) p)) of
           None \<Rightarrow> None
         | Some U0 \<Rightarrow>
             (case col0 (SE_get (s_obj obj)) of
                None \<Rightarrow> None
              | Some sa \<Rightarrow>
                  (let mu1 = (if is_empty (a_mat obj)
                              then schur (get_posterior_mean_mat (b_mat obj) Vinv U0)
                                     (SE_get (s_obj obj))
                              else mat_mul (a_mat obj)
                                     (schur (get_posterior_mean_mat (b_mat obj) Vinv U0)
                                        (SE_get (s_obj obj))));
                       U1 = (if is_empty (a_mat obj)
                             then each_row_schur (each_col_schur U0 sa) (t_mat sa)
                             else mat_mul (a_mat obj)
                                    (mat_mul (each_row_schur (each_col_schur U0 sa) (t_mat sa))
                                       (t_mat (a_mat obj))));
                       Svec = map_ent dsqrt (diagvec U1);
                       (sigma, obj) =
                          fold (\<lambda>j (sigma, obj).
                                  (set_col sigma j Svec,
                                   if report_type = 2 \<or> report_type = 4
                                   then obj\<lparr>post_cov :=
                                          set_slice (post_cov obj) j
                                            (mat_add (slice (post_cov obj) j)
                                               (scal (ent posterior_weights p j)
                                                  (mat_add U1
                                                     (mat_mul (col mu1 j) (t_mat (col mu1 j))))))\<rparr>
                                   else obj))
                            [0..<n_cols sigma] (sigma, obj);
                       diag_mu2 = each_col_add (pow2 mu1) (diagvec U1);
                       neg = pnorm lib mu1 mean sigma False True;
                       loc = mark_degenerate_rows Svec ones_row zeros_row
                               \<lparr>mu1_mat = mu1, diag_mu2_mat = diag_mu2,
                                zero_mat = zeros (n_rows (post_mean obj)) (n_cols (post_mean obj)),
                                neg_mat = neg\<rparr>;
                       obj = obj\<lparr>post_mean :=
                               mat_add (post_mean obj)
                                 (each_row_schur (mu1_mat loc) (row posterior_weights p))\<rparr>;
                       obj = obj\<lparr>post_var :=
                               mat_add (post_var obj)
                                 (each_row_schur (diag_mu2_mat loc) (row posterior_weights p))\<rparr>;
                       obj = obj\<lparr>neg_prob :=
                               mat_add (neg_prob obj)
                                 (each_row_schur (neg_mat loc) (row posterior_weights p))\<rparr>;
                       obj = obj\<lparr>zero_prob :=
                               mat_add (zero_prob obj)
                                 (each_row_schur (zero_mat loc) (row posterior_weights p))\<rparr>
                   in Some (loc, sigma, obj)))))"

definition compute_posterior_comcov ::
  "arma \<Rightarrow> PosteriorMASH \<Rightarrow> dbl mat \<Rightarrow> int \<Rightarrow> PosteriorMASH option" where
  "compute_posterior_comcov lib obj posterior_weights report_type =
     (let mean = zeros (n_rows (post_mean obj)) (n_cols (post_mean obj))
      in case (if cube_is_empty (Vinv_cube obj)
               then (case col0 (SE_get_original (s_obj obj)) of
                       None \<Rightarrow> None
                     | Some s0 \<Rightarrow> inv_sympd lib (get_cov s0 (v_mat obj) (l_mat obj)))
               else Some (slice (Vinv_cube obj) 0)) of
           None \<Rightarrow> None
         | Some Vinv \<Rightarrow>
             (let ones_row = ones 1 (n_cols (post_mean obj));
                  zeros_row = zeros 1 (n_cols (post_mean obj));
                  sigma = zeros (n_rows (post_mean obj)) (n_cols (post_mean obj))
              in case fold_opt
                        (\<lambda>p st. map_option snd
                                  (mash_comcov_component lib posterior_weights report_type
                                     Vinv mean ones_row zeros_row p st))
                        [0..<n_slices (U_cube obj)] (sigma, obj) of
                   None \<Rightarrow> None
                 | Some (sigma, obj) \<Rightarrow>
                     (let obj = obj\<lparr>post_var := mat_sub (post_var obj) (pow2 (post_mean obj))\<rparr>;
                          obj = (if report_type = 4
                                 then fold (\<lambda>j obj.
                                              obj\<lparr>post_cov :=
                                                    set_slice (post_cov obj) j
                                                      (mat_sub (slice (post_cov obj) j)
                                                         (mat_mul (col (post_mean obj) j)
                                                            (t_mat (col (post_mean obj) j))))\<rparr>)
                                        [0..<n_cols sigma] obj
                                 else obj)
                      in Some obj)))"

definition PosteriorMean :: "PosteriorMASH \<Rightarrow> dbl mat" where
  "PosteriorMean obj = t_mat (post_mean obj)"

definition PosteriorSD :: "PosteriorMASH \<Rightarrow> dbl mat" where
  "PosteriorSD obj = t_mat (map_ent dsqrt (post_var obj))"

definition PosteriorCov :: "PosteriorMASH \<Rightarrow> dbl cube" where
  "PosteriorCov obj = post_cov obj"

definition NegativeProb :: "PosteriorMASH \<Rightarrow> dbl mat" where
  "NegativeProb obj = t_mat (neg_prob obj)"

definition ZeroProb :: "PosteriorMASH \<Rightarrow> dbl mat" where
  "ZeroProb obj = t_mat (zero_prob obj)"


section \<open>The univariate posterior engine\<close>

text \<open>
  \<^verbatim>\<open>set_size\<close> does not initialise: what the four outputs hold before
  \<^verbatim>\<open>compute_posterior\<close> is whatever the memory held, the parameter \<open>garbage\<close>.
\<close>

definition PosteriorASH_new ::
  "dbl mat \<Rightarrow> dbl mat \<Rightarrow> dbl mat \<Rightarrow> dbl \<Rightarrow> dbl mat \<Rightarrow> (nat \<Rightarrow> dbl) \<Rightarrow> PosteriorASH" where
  "PosteriorASH_new b sv sa v0 U garbage =
     (let J = n_elem b
      in \<lparr>b_vec = b, s_vec = sv,
          s_alpha_vec = (if is_empty sa then ones J 1 else sa),
          v = v0, U_vec = U,
          post_mean = mk_mat J 1 (\<lambda>i k. garbage i), post_var = mk_mat J 1 (\<lambda>i k. garbage i),
          neg_prob = mk_mat J 1 (\<lambda>i k. garbage i), zero_prob = mk_mat J 1 (\<lambda>i k. garbage i)\<rparr>)"

text \<open>Element \<open>k\<close> of a matrix read as a vector (column by column), and \<^verbatim>\<open>arma::dot\<close>.\<close>

definition vec_elem :: "'a mat \<Rightarrow> nat \<Rightarrow> 'a" where
  "vec_elem M k = ent M (k mod n_rows M) (k div n_rows M)"

definition dot :: "'a::{comm_monoid_add,times} mat \<Rightarrow> 'a mat \<Rightarrow> 'a" where
  "dot A B = (\<Sum>k<n_elem A. vec_elem A k * vec_elem B k)"

text \<open>
  The body of the loop over the components \<open>p\<close> of \<^verbatim>\<open>PosteriorASH::compute_posterior\<close>.
  It returns the local vector \<open>U1\<close> (the rescaled posterior variances of the component)
  with the local matrices; the matrix \<^verbatim>\<open>mu2_mat\<close> of the source is the field
  \<open>diag_mu2_mat\<close>.
\<close>

definition ash_component ::
  "arma \<Rightarrow> PosteriorASH \<Rightarrow> dbl mat \<Rightarrow> dbl mat \<Rightarrow> nat \<Rightarrow> nat \<Rightarrow> locals \<Rightarrow> dbl mat \<times> locals" where
  "ash_component lib obj vinv mean J p loc =
     (let U1 = map_ent (\<lambda>x. ent (U_vec obj) p 0 / x)
                 (map_ent (\<lambda>x. x + Fin 1) (map_ent (\<lambda>x. x * ent (U_vec obj) p 0) vinv));
          loc = loc\<lparr>mu1_mat :=
                  set_col (mu1_mat loc) p
                    (schur (schur (schur U1 vinv) (b_vec obj)) (s_alpha_vec obj))\<rparr>;
          U1 = schur U1 (schur (s_alpha_vec obj) (s_alpha_vec obj));
          loc = loc\<lparr>diag_mu2_mat :=
                  set_col (diag_mu2_mat loc) p (mat_add (pow2 (col (mu1_mat loc) p)) U1)\<rparr>;
          sigma = map_ent dsqrt U1;
          loc = loc\<lparr>neg_mat :=
                  set_col (neg_mat loc) p (pnorm lib (col (mu1_mat loc) p) mean sigma False True)\<rparr>;
          loc = fold (\<lambda>j loc.
                        if ent U1 j 0 = 0
                        then loc\<lparr>zero_mat := set_at (zero_mat loc) j p (Fin 1),
                                 neg_mat := set_at (neg_mat loc) j p (Fin 0)\<rparr>
                        else loc)
                  [0..<J] loc
      in (U1, loc))"

text \<open>The local matrices of \<^verbatim>\<open>PosteriorASH::compute_posterior\<close> when its first loop ends.\<close>

definition ash_components :: "arma \<Rightarrow> PosteriorASH \<Rightarrow> locals" where
  "ash_components lib obj =
     (let vinv = map_ent (\<lambda>x. Fin 1 / x)
                   (map_ent (\<lambda>x. x * v obj) (schur (s_vec obj) (s_vec obj)));
          J = n_elem (b_vec obj);
          P = n_elem (U_vec obj);
          mean = zeros J 1;
          loc = \<lparr>mu1_mat = zeros J P, diag_mu2_mat = zeros J P,
                 zero_mat = zeros J P, neg_mat = zeros J P\<rparr>
      in fold (\<lambda>p loc. snd (ash_component lib obj vinv mean J p loc)) [0..<P] loc)"

definition ash_compute_posterior :: "arma \<Rightarrow> PosteriorASH \<Rightarrow> dbl mat \<Rightarrow> PosteriorASH" where
  "ash_compute_posterior lib obj posterior_weights =
     (let J = n_elem (b_vec obj);
          loc = ash_components lib obj;
          obj = fold (\<lambda>j obj.
                        obj\<lparr>PosteriorASH.post_mean :=
                               set_at (PosteriorASH.post_mean obj) j 0
                                 (dot (row (mu1_mat loc) j) (col posterior_weights j)),
                            PosteriorASH.post_var :=
                               set_at (PosteriorASH.post_var obj) j 0
                                 (dot (row (diag_mu2_mat loc) j) (col posterior_weights j)),
                            PosteriorASH.neg_prob :=
                               set_at (PosteriorASH.neg_prob obj) j 0
                                 (dot (row (neg_mat loc) j) (col posterior_weights j)),
                            PosteriorASH.zero_prob :=
                               set_at (PosteriorASH.zero_prob obj) j 0
                                 (dot (row (zero_mat loc) j) (col posterior_weights j))\<rparr>)
                  [0..<J] obj
      in obj\<lparr>PosteriorASH.post_var :=
               mat_sub (PosteriorASH.post_var obj) (pow2 (PosteriorASH.post_mean obj))\<rparr>)"


section \<open>The engine for single-effect regression\<close>

text \<open>
  \<^verbatim>\<open>prior_scalar.set_size\<close> does not initialise: before a call stores into it the vector
  holds whatever the memory held, the parameter \<open>garbage\<close>.
\<close>

definition MVSERMix_new ::
  "dbl mat \<Rightarrow> dbl mat \<Rightarrow> dbl mat \<Rightarrow> dbl mat \<Rightarrow> dbl mat \<Rightarrow> dbl cube \<Rightarrow> (nat \<Rightarrow> dbl) \<Rightarrow> MVSERMix" where
  "MVSERMix_new b s_mat s_alpha_mat s_orig_mat vm Uc garbage =
     (let J = n_cols b;
          R = n_rows b;
          se = (if is_empty s_mat then SE_set_ones SE_new R J
                else SE_set SE_new s_mat s_alpha_mat);
          se = SE_set_original se s_orig_mat
      in \<lparr>MVSERMix.b_mat = b, s_obj = se, v_mat = vm, U_cube = Uc,
          Vinv_cube = empty_cube, U0_cube = empty_cube, Uinv_cube = empty_cube,
          post_mean = zeros R J, post_var = zeros R J,
          neg_prob = zeros R J, zero_prob = zeros R J,
          post_cov = cube_zeros R R J,
          prior_scalar = mk_mat (n_slices Uc) 1 (\<lambda>i k. garbage i)\<rparr>)"

definition mvser_set_Vinv :: "MVSERMix \<Rightarrow> dbl cube \<Rightarrow> MVSERMix" where
  "mvser_set_Vinv obj val = obj\<lparr>MVSERMix.Vinv_cube := val\<rparr>"

definition mvser_set_U0 :: "MVSERMix \<Rightarrow> dbl cube \<Rightarrow> MVSERMix" where
  "mvser_set_U0 obj val = obj\<lparr>MVSERMix.U0_cube := val\<rparr>"

definition mvser_set_Uinv :: "MVSERMix \<Rightarrow> dbl cube \<Rightarrow> MVSERMix" where
  "mvser_set_Uinv obj val = obj\<lparr>Uinv_cube := val\<rparr>"

text \<open>
  The body of the loop over the components \<open>p\<close> of \<^verbatim>\<open>MVSERMix::compute_posterior\<close>, for
  the effect \<open>j\<close>: on the local matrices, the local cube \<^verbatim>\<open>mu2_cube\<close> and the object.
\<close>

definition mvser_component ::
  "arma \<Rightarrow> dbl mat \<Rightarrow> dbl mat \<Rightarrow> nat \<Rightarrow> dbl mat \<Rightarrow> dbl mat \<Rightarrow> nat
     \<Rightarrow> locals \<times> dbl cube \<times> MVSERMix \<Rightarrow> (locals \<times> dbl cube \<times> MVSERMix) option" where
  "mvser_component lib posterior_weights posterior_variable_weights j Vinv_j mean p st =
     (case st of (loc, mu2_cube, obj) \<Rightarrow>
        (case (if cube_is_empty (MVSERMix.U0_cube obj)
               then get_posterior_cov lib Vinv_j (slice (MVSERMix.U_cube obj) p)
               else Some (slice (MVSERMix.U0_cube obj) (j * n_slices (MVSERMix.U_cube obj) + p))) of
           None \<Rightarrow> None
         | Some U0 \<Rightarrow>
             (let sa = col (SE_get (MVSERMix.s_obj obj)) j;
                  loc = loc\<lparr>mu1_mat :=
                          set_col (mu1_mat loc) p
                            (schur (get_posterior_mean (col (MVSERMix.b_mat obj) j) Vinv_j U0) sa)\<rparr>;
                  U1 = each_row_schur (each_col_schur U0 sa) (t_mat sa);
                  mu2_mat = mat_add U1
                              (mat_mul (col (mu1_mat loc) p) (t_mat (col (mu1_mat loc) p)));
                  obj = obj\<lparr>MVSERMix.post_cov :=
                          set_slice (MVSERMix.post_cov obj) j
                            (mat_add (slice (MVSERMix.post_cov obj) j)
                               (scal (ent posterior_weights p j) mu2_mat))\<rparr>;
                  mu2_cube = (if \<not> cube_is_empty (Uinv_cube obj)
                              then set_slice mu2_cube p
                                     (mat_add (slice mu2_cube p)
                                        (scal (ent posterior_variable_weights p j) mu2_mat))
                              else mu2_cube);
                  sigma = map_ent dsqrt (diagvec U1);
                  loc = loc\<lparr>diag_mu2_mat :=
                          set_col (diag_mu2_mat loc) p
                            (mat_add (pow2 (col (mu1_mat loc) p)) (diagvec U1))\<rparr>;
                  loc = loc\<lparr>neg_mat :=
                          set_col (neg_mat loc) p
                            (pnorm lib (col (mu1_mat loc) p) mean sigma False True)\<rparr>;
                  loc = mark_degenerate sigma p loc
              in Some (loc, mu2_cube, obj))))"

definition mvser_effect ::
  "arma \<Rightarrow> dbl mat \<Rightarrow> dbl mat \<Rightarrow> dbl mat \<Rightarrow> nat
     \<Rightarrow> dbl cube \<times> MVSERMix \<Rightarrow> (dbl cube \<times> MVSERMix) option" where
  "mvser_effect lib posterior_weights posterior_variable_weights mean j st =
     (case st of (mu2_cube, obj) \<Rightarrow>
        (case (if cube_is_empty (MVSERMix.Vinv_cube obj)
               then inv_sympd lib
                      (get_cov2 (col (SE_get_original (MVSERMix.s_obj obj)) j) (MVSERMix.v_mat obj))
               else Some (slice (MVSERMix.Vinv_cube obj) j)) of
           None \<Rightarrow> None
         | Some Vinv_j \<Rightarrow>
             (let R = n_rows (MVSERMix.post_mean obj);
                  P = n_slices (MVSERMix.U_cube obj);
                  loc = \<lparr>mu1_mat = zeros R P, diag_mu2_mat = zeros R P,
                         zero_mat = zeros R P, neg_mat = zeros R P\<rparr>
              in case fold_opt
                        (mvser_component lib posterior_weights posterior_variable_weights
                           j Vinv_j mean)
                        [0..<P] (loc, mu2_cube, obj) of
                   None \<Rightarrow> None
                 | Some (loc, mu2_cube, obj) \<Rightarrow>
                     (let obj = obj\<lparr>MVSERMix.post_mean :=
                                  set_col (MVSERMix.post_mean obj) j
                                    (mat_mul (mu1_mat loc) (col posterior_weights j))\<rparr>;
                          obj = obj\<lparr>MVSERMix.post_var :=
                                  set_col (MVSERMix.post_var obj) j
                                    (mat_mul (diag_mu2_mat loc) (col posterior_weights j))\<rparr>;
                          obj = obj\<lparr>MVSERMix.neg_prob :=
                                  set_col (MVSERMix.neg_prob obj) j
                                    (mat_mul (neg_mat loc) (col posterior_weights j))\<rparr>;
                          obj = obj\<lparr>MVSERMix.zero_prob :=
                                  set_col (MVSERMix.zero_prob obj) j
                                    (mat_mul (zero_mat loc) (col posterior_weights j))\<rparr>;
                          obj = obj\<lparr>MVSERMix.post_cov :=
                                  set_slice (MVSERMix.post_cov obj) j
                                    (mat_sub (slice (MVSERMix.post_cov obj) j)
                                       (mat_mul (col (MVSERMix.post_mean obj) j)
                                          (t_mat (col (MVSERMix.post_mean obj) j))))\<rparr>
                      in Some (mu2_cube, obj)))))"

text \<open>
  The last loop of both functions of \<^verbatim>\<open>MVSERMix\<close>: the update of the prior scalars from
  \<^verbatim>\<open>mu2_cube\<close>.
\<close>

definition update_prior_scalar :: "dbl cube \<Rightarrow> MVSERMix \<Rightarrow> MVSERMix" where
  "update_prior_scalar mu2_cube obj =
     fold (\<lambda>p obj.
             obj\<lparr>prior_scalar :=
                   set_at (prior_scalar obj) p 0
                     (trace (mat_mul (slice (Uinv_cube obj) p) (slice mu2_cube p))
                        / dbl_of_nat (n_rows (MVSERMix.post_mean obj)))\<rparr>)
       [0..<n_slices (MVSERMix.U_cube obj)] obj"

text \<open>
  \<^verbatim>\<open>MVSERMix::compute_posterior\<close>.  The cube \<^verbatim>\<open>mu2_cube\<close> is read only where
  \<^verbatim>\<open>Uinv_cube\<close> is not empty, after it has been set to zero.
\<close>

definition mvser_compute_posterior ::
  "arma \<Rightarrow> MVSERMix \<Rightarrow> dbl mat \<Rightarrow> dbl mat \<Rightarrow> MVSERMix option" where
  "mvser_compute_posterior lib obj posterior_weights posterior_variable_weights =
     (let mean = zeros (n_rows (MVSERMix.post_mean obj)) 1;
          mu2_cube = cube_zeros (n_rows (MVSERMix.post_mean obj)) (n_rows (MVSERMix.post_mean obj))
                       (n_slices (MVSERMix.U_cube obj))
      in case fold_opt (mvser_effect lib posterior_weights posterior_variable_weights mean)
                [0..<n_cols (MVSERMix.post_mean obj)] (mu2_cube, obj) of
           None \<Rightarrow> None
         | Some (mu2_cube, obj) \<Rightarrow>
             (let obj = obj\<lparr>MVSERMix.post_var :=
                          mat_sub (MVSERMix.post_var obj) (pow2 (MVSERMix.post_mean obj))\<rparr>;
                  obj = (if \<not> cube_is_empty (Uinv_cube obj)
                         then update_prior_scalar mu2_cube obj else obj)
              in Some obj))"

text \<open>The body of the loop over the components of \<^verbatim>\<open>MVSERMix::compute_posterior_comcov\<close>.\<close>

definition mvser_comcov_component ::
  "arma \<Rightarrow> dbl mat \<Rightarrow> dbl mat \<Rightarrow> dbl mat \<Rightarrow> dbl mat \<Rightarrow> dbl mat \<Rightarrow> dbl mat \<Rightarrow> nat
     \<Rightarrow> dbl mat \<times> dbl cube \<times> MVSERMix \<Rightarrow> (locals \<times> dbl mat \<times> dbl cube \<times> MVSERMix) option" where
  "mvser_comcov_component lib posterior_weights posterior_variable_weights Vinv mean
       ones_row zeros_row p st =
     (case st of (sigma, mu2_cube, obj) \<Rightarrow>
        (case (if cube_is_empty (MVSERMix.U0_cube obj)
               then get_posterior_cov lib Vinv (slice (MVSERMix.U_cube obj) p)
               else Some (slice (MVSERMix.U0_cube obj) p)) of
           None \<Rightarrow> None
         | Some U0 \<Rightarrow>
             (case col0 (SE_get (MVSERMix.s_obj obj)) of
                None \<Rightarrow> None
              | Some sa \<Rightarrow>
                  (let mu1 = schur (get_posterior_mean_mat (MVSERMix.b_mat obj) Vinv U0)
                               (SE_get (MVSERMix.s_obj obj));
                       U1 = each_row_schur (each_col_schur U0 sa) (t_mat sa);
                       Svec = map_ent dsqrt (diagvec U1);
                       (sigma, mu2_cube, obj) =
                          fold (\<lambda>j (sigma, mu2_cube, obj).
                                  (let sigma = set_col sigma j Svec;
                                       mu2_mat = mat_add U1
                                                   (mat_mul (col mu1 j) (t_mat (col mu1 j)));
                                       obj = obj\<lparr>MVSERMix.post_cov :=
                                               set_slice (MVSERMix.post_cov obj) j
                                                 (mat_add (slice (MVSERMix.post_cov obj) j)
                                                    (scal (ent posterior_weights p j) mu2_mat))\<rparr>;
                                       mu2_cube =
                                         (if \<not> cube_is_empty (Uinv_cube obj)
                                          then set_slice mu2_cube p
                                                 (mat_add (slice mu2_cube p)
                                                    (scal (ent posterior_variable_weights p j)
                                                       mu2_mat))
                                          else mu2_cube)
                                   in (sigma, mu2_cube, obj)))
                            [0..<n_cols sigma] (sigma, mu2_cube, obj);
                       diag_mu2 = each_col_add (pow2 mu1) (diagvec U1);
                       neg = pnorm lib mu1 mean sigma False True;
                       loc = mark_degenerate_rows Svec ones_row zeros_row
                               \<lparr>mu1_mat = mu1, diag_mu2_mat = diag_mu2,
                                zero_mat = zeros (n_rows (MVSERMix.post_mean obj))
                                             (n_cols (MVSERMix.post_mean obj)),
                                neg_mat = neg\<rparr>;
                       obj = obj\<lparr>MVSERMix.post_mean :=
                               mat_add (MVSERMix.post_mean obj)
                                 (each_row_schur (mu1_mat loc) (row posterior_weights p))\<rparr>;
                       obj = obj\<lparr>MVSERMix.post_var :=
                               mat_add (MVSERMix.post_var obj)
                                 (each_row_schur (diag_mu2_mat loc) (row posterior_weights p))\<rparr>;
                       obj = obj\<lparr>MVSERMix.neg_prob :=
                               mat_add (MVSERMix.neg_prob obj)
                                 (each_row_schur (neg_mat loc) (row posterior_weights p))\<rparr>;
                       obj = obj\<lparr>MVSERMix.zero_prob :=
                               mat_add (MVSERMix.zero_prob obj)
                                 (each_row_schur (zero_mat loc) (row posterior_weights p))\<rparr>
                   in Some (loc, sigma, mu2_cube, obj)))))"

definition mvser_compute_posterior_comcov ::
  "arma \<Rightarrow> MVSERMix \<Rightarrow> dbl mat \<Rightarrow> dbl mat \<Rightarrow> MVSERMix option" where
  "mvser_compute_posterior_comcov lib obj posterior_weights posterior_variable_weights =
     (let R = n_rows (MVSERMix.post_mean obj);
          J = n_cols (MVSERMix.post_mean obj);
          mean = zeros R J;
          mu2_cube = cube_zeros R R (n_slices (MVSERMix.U_cube obj))
      in case (if cube_is_empty (MVSERMix.Vinv_cube obj)
               then (case col0 (SE_get_original (MVSERMix.s_obj obj)) of
                       None \<Rightarrow> None
                     | Some s0 \<Rightarrow> inv_sympd lib (get_cov2 s0 (MVSERMix.v_mat obj)))
               else Some (slice (MVSERMix.Vinv_cube obj) 0)) of
           None \<Rightarrow> None
         | Some Vinv \<Rightarrow>
             (let ones_row = ones 1 J;
                  zeros_row = zeros 1 J;
                  sigma = zeros R J
              in case fold_opt
                        (\<lambda>p st. map_option snd
                                  (mvser_comcov_component lib posterior_weights
                                     posterior_variable_weights Vinv mean ones_row zeros_row p st))
                        [0..<n_slices (MVSERMix.U_cube obj)] (sigma, mu2_cube, obj) of
                   None \<Rightarrow> None
                 | Some (sigma, mu2_cube, obj) \<Rightarrow>
                     (let obj = obj\<lparr>MVSERMix.post_var :=
                                  mat_sub (MVSERMix.post_var obj) (pow2 (MVSERMix.post_mean obj))\<rparr>;
                          obj = fold (\<lambda>j obj.
                                        obj\<lparr>MVSERMix.post_cov :=
                                              set_slice (MVSERMix.post_cov obj) j
                                                (mat_sub (slice (MVSERMix.post_cov obj) j)
                                                   (mat_mul (col (MVSERMix.post_mean obj) j)
                                                      (t_mat (col (MVSERMix.post_mean obj) j))))\<rparr>)
                                  [0..<n_cols sigma] obj;
                          obj = (if \<not> cube_is_empty (Uinv_cube obj)
                                 then update_prior_scalar mu2_cube obj else obj)
                      in Some obj)))"

definition PriorScalar :: "MVSERMix \<Rightarrow> dbl mat" where
  "PriorScalar obj = prior_scalar obj"


section \<open>A library for the examples\<close>

text \<open>
  The examples need factorisations and inverses they can compute: the routines below
  factorise and invert the diagonal matrices with finite entries and fail on every other
  matrix.  \<open>erfc_ex\<close> stands for the error function: like it, it falls from 2 to 0 and
  is 1 at 0.
\<close>

fun dpos :: "dbl \<Rightarrow> bool" where
  "dpos (Fin a) = (0 < a)"
| "dpos PInf = False"
| "dpos NInf = False"
| "dpos NaN = False"

fun dnonzero :: "dbl \<Rightarrow> bool" where
  "dnonzero (Fin a) = (a \<noteq> 0)"
| "dnonzero PInf = False"
| "dnonzero NInf = False"
| "dnonzero NaN = False"

definition diag_with :: "(dbl \<Rightarrow> bool) \<Rightarrow> dbl mat \<Rightarrow> bool" where
  "diag_with ok M =
     (n_rows M = n_cols M
      \<and> (\<forall>i<n_rows M. \<forall>j<n_cols M. if i = j then ok (ent M i j) else ent M i j = Fin 0))"

definition diag_chol :: "dbl mat \<Rightarrow> dbl mat option" where
  "diag_chol M = (if diag_with dpos M then Some (map_ent dsqrt M) else None)"

definition diag_inv :: "dbl mat \<Rightarrow> dbl mat option" where
  "diag_inv M =
     (if diag_with dnonzero M
      then Some (mk_mat (n_rows M) (n_cols M) (\<lambda>i j. if i = j then Fin 1 / ent M i j else Fin 0))
      else None)"

definition diag_inv_sympd :: "dbl mat \<Rightarrow> dbl mat option" where
  "diag_inv_sympd M =
     (if diag_with dpos M
      then Some (mk_mat (n_rows M) (n_cols M) (\<lambda>i j. if i = j then Fin 1 / ent M i j else Fin 0))
      else None)"

definition erfc_ex :: "real \<Rightarrow> real" where
  "erfc_ex x = 1 - x / (1 + \<bar>x\<bar>)"

definition diag_lib :: arma where
  "diag_lib = \<lparr>chol = diag_chol, inv_mat = diag_inv, inv_sympd = diag_inv_sympd, erfc = erfc_ex\<rparr>"

text \<open>A matrix and a cube given by the lists of their rows.\<close>

definition of_rows :: "nat \<Rightarrow> nat \<Rightarrow> real list list \<Rightarrow> dbl mat" where
  "of_rows r c xs = mk_mat r c (\<lambda>i j. Fin (xs ! i ! j))"

definition of_slices :: "nat \<Rightarrow> nat \<Rightarrow> nat \<Rightarrow> real list list list \<Rightarrow> dbl cube" where
  "of_slices r c n xs = mk_cube r c n (\<lambda>i j k. Fin (xs ! k ! i ! j))"

section \<open>Auxiliary notions of the statements\<close>

text \<open>A matrix that holds 0 outside its dimensions, as every result of an operation does.\<close>

definition wf_mat :: "'a::zero mat \<Rightarrow> bool" where
  "wf_mat M = (\<forall>i j. \<not> (i < n_rows M \<and> j < n_cols M) \<longrightarrow> ent M i j = 0)"

text \<open>
  The density of the specification for a supplied whitening matrix: the log-density is
  \<open>-0.5 * R * log(2 * pi) - 0.5 * ||rooti * (x - mean)||^2 + sum(log(diag(rooti)))\<close>,
  for a vector \<open>x\<close> of \<open>R\<close> elements.
\<close>

definition spec_mvnormal_whitened :: "dbl mat \<Rightarrow> dbl mat \<Rightarrow> dbl mat \<Rightarrow> bool \<Rightarrow> dbl" where
  "spec_mvnormal_whitened x mean rooti logSpace =
     (let z = mat_mul rooti (mat_sub x mean);
          l = Fin (- (1 / 2)) * dbl_of_nat (n_elem x) * LOG_2PI
              - Fin (1 / 2) * accu (schur z z)
              + accu (map_ent dlog (diagvec rooti))
      in if logSpace then l else dexp l)"

text \<open>The loop that marks the degenerate conditions, as a function of its own.\<close>

definition mark_loop :: "(nat \<Rightarrow> bool) \<Rightarrow> nat \<Rightarrow> nat \<Rightarrow> locals \<Rightarrow> locals" where
  "mark_loop c p n loc =
     fold (\<lambda>r loc.
             if c r
             then loc\<lparr>zero_mat := set_at (zero_mat loc) r p (Fin 1),
                      neg_mat := set_at (neg_mat loc) r p (Fin 0)\<rparr>
             else loc)
       [0..<n] loc"

text \<open>
  The update of the univariate engine in the words of the specification: the precision
  \<open>vinv_j = 1 / (s_j^2 * v)\<close>, the posterior variance \<open>U1_p = U_p / (vinv_j * U_p + 1)\<close>,
  the posterior mean \<open>mu1 = U1_p * vinv_j * b_j * alpha_j\<close> and the rescaled variance
  \<open>U1_p * alpha_j^2\<close>.
\<close>

definition spec_ash_vinv :: "PosteriorASH \<Rightarrow> nat \<Rightarrow> dbl" where
  "spec_ash_vinv obj j = Fin 1 / (ent (s_vec obj) j 0 * ent (s_vec obj) j 0 * v obj)"

definition spec_ash_U1 :: "PosteriorASH \<Rightarrow> nat \<Rightarrow> nat \<Rightarrow> dbl" where
  "spec_ash_U1 obj j p =
     ent (U_vec obj) p 0 / (spec_ash_vinv obj j * ent (U_vec obj) p 0 + Fin 1)"

definition spec_ash_mu1 :: "PosteriorASH \<Rightarrow> nat \<Rightarrow> nat \<Rightarrow> dbl" where
  "spec_ash_mu1 obj j p =
     spec_ash_U1 obj j p * spec_ash_vinv obj j * ent (b_vec obj) j 0 * ent (s_alpha_vec obj) j 0"

definition spec_ash_var :: "PosteriorASH \<Rightarrow> nat \<Rightarrow> nat \<Rightarrow> dbl" where
  "spec_ash_var obj j p =
     spec_ash_U1 obj j p * (ent (s_alpha_vec obj) j 0 * ent (s_alpha_vec obj) j 0)"

text \<open>The shapes the univariate engine expects: vectors of one length, as columns.\<close>

definition ash_shapes :: "PosteriorASH \<Rightarrow> bool" where
  "ash_shapes obj =
     (n_cols (b_vec obj) = 1
      \<and> n_rows (s_vec obj) = n_rows (b_vec obj) \<and> n_cols (s_vec obj) = 1
      \<and> n_rows (s_alpha_vec obj) = n_rows (b_vec obj) \<and> n_cols (s_alpha_vec obj) = 1
      \<and> n_cols (U_vec obj) = 1)"

text \<open>The local vector \<^verbatim>\<open>vinv\<close> of \<^verbatim>\<open>PosteriorASH::compute_posterior\<close>.\<close>

definition ash_vinv_vec :: "PosteriorASH \<Rightarrow> dbl mat" where
  "ash_vinv_vec obj =
     map_ent (\<lambda>x. Fin 1 / x) (map_ent (\<lambda>x. x * v obj) (schur (s_vec obj) (s_vec obj)))"

text \<open>
  An entry of the local matrix \<^verbatim>\<open>neg_mat\<close> when a component has been processed: 0 where
  the variance is 0, and else the value of \<^verbatim>\<open>pnorm\<close> for the mean 0.
\<close>

definition neg_entry :: "arma \<Rightarrow> dbl \<Rightarrow> dbl \<Rightarrow> dbl" where
  "neg_entry lib m var =
     (if var = 0 then Fin 0
      else Fin (1 / 2) * derfc (erfc lib) (m / dsqrt var * M_SQRT1_2))"

text \<open>The first \<open>n\<close> rounds of the loop over the components of the univariate engine.\<close>

definition ash_loop :: "arma \<Rightarrow> PosteriorASH \<Rightarrow> nat \<Rightarrow> locals \<Rightarrow> locals" where
  "ash_loop lib obj n loc =
     fold (\<lambda>p loc. snd (ash_component lib obj (ash_vinv_vec obj) (zeros (n_rows (b_vec obj)) 1)
                           (n_rows (b_vec obj)) p loc))
       [0..<n] loc"

text \<open>An object of the univariate engine: two effects, two components, one of variance 0.\<close>

definition ash_ex :: PosteriorASH where
  "ash_ex = PosteriorASH_new (of_rows 2 1 [[1], [2]]) (of_rows 2 1 [[1], [2]])
              (of_rows 2 1 [[1], [3]]) (Fin 1) (of_rows 2 1 [[0], [2]]) (\<lambda>i. NaN)"

text \<open>
  What a component of a general engine does to the local matrices, given the posterior mean
  \<open>mu1\<close> and the posterior covariance \<open>U1\<close> of the component.
\<close>

definition component_locals :: "arma \<Rightarrow> dbl mat \<Rightarrow> nat \<Rightarrow> dbl mat \<Rightarrow> dbl mat \<Rightarrow> locals \<Rightarrow> locals" where
  "component_locals lib mean p mu1 U1 loc =
     (let loc = loc\<lparr>mu1_mat := set_col (mu1_mat loc) p mu1\<rparr>;
          sigma = map_ent dsqrt (diagvec U1);
          loc = loc\<lparr>diag_mu2_mat :=
                  set_col (diag_mu2_mat loc) p
                    (mat_add (pow2 (col (mu1_mat loc) p)) (diagvec U1))\<rparr>;
          loc = loc\<lparr>neg_mat :=
                  set_col (neg_mat loc) p
                    (pnorm lib (col (mu1_mat loc) p) mean sigma False True)\<rparr>
      in mark_degenerate sigma p loc)"

definition locals_dims :: "nat \<Rightarrow> nat \<Rightarrow> locals \<Rightarrow> bool" where
  "locals_dims R P loc =
     (n_rows (mu1_mat loc) = R \<and> n_cols (mu1_mat loc) = P
      \<and> n_rows (diag_mu2_mat loc) = R \<and> n_cols (diag_mu2_mat loc) = P
      \<and> n_rows (zero_mat loc) = R \<and> n_cols (zero_mat loc) = P
      \<and> n_rows (neg_mat loc) = R \<and> n_cols (neg_mat loc) = P)"

text \<open>
  The quantities of \<^verbatim>\<open>PosteriorMASH::compute_posterior\<close> for the effect \<open>j\<close> and the component
  \<open>p\<close>, as the source computes them: the inverse covariance of the effect, the posterior
  covariance before rescaling, and the posterior mean and covariance of the component.
\<close>

definition mash_Vinv :: "arma \<Rightarrow> PosteriorMASH \<Rightarrow> nat \<Rightarrow> dbl mat option" where
  "mash_Vinv lib obj j =
     (if cube_is_empty (Vinv_cube obj)
      then inv_sympd lib (get_cov (col (SE_get_original (s_obj obj)) j) (v_mat obj) (l_mat obj))
      else Some (slice (Vinv_cube obj) j))"

definition mash_U0 :: "arma \<Rightarrow> PosteriorMASH \<Rightarrow> dbl mat \<Rightarrow> nat \<Rightarrow> nat \<Rightarrow> dbl mat option" where
  "mash_U0 lib obj Vinv_j j p =
     (if cube_is_empty (U0_cube obj)
      then get_posterior_cov lib Vinv_j (slice (U_cube obj) p)
      else Some (slice (U0_cube obj) (j * n_slices (U_cube obj) + p)))"

definition mash_mu1 :: "PosteriorMASH \<Rightarrow> dbl mat \<Rightarrow> dbl mat \<Rightarrow> nat \<Rightarrow> dbl mat" where
  "mash_mu1 obj Vinv_j U0 j =
     (let sa = col (SE_get (s_obj obj)) j
      in if is_empty (a_mat obj)
         then schur (get_posterior_mean (col (b_mat obj) j) Vinv_j U0) sa
         else mat_mul (a_mat obj)
                (schur (get_posterior_mean (col (b_mat obj) j) Vinv_j U0) sa))"

definition mash_U1 :: "PosteriorMASH \<Rightarrow> dbl mat \<Rightarrow> nat \<Rightarrow> dbl mat" where
  "mash_U1 obj U0 j =
     (let sa = col (SE_get (s_obj obj)) j
      in if is_empty (a_mat obj)
         then each_row_schur (each_col_schur U0 sa) (t_mat sa)
         else mat_mul (a_mat obj)
                (mat_mul (each_row_schur (each_col_schur U0 sa) (t_mat sa))
                   (t_mat (a_mat obj))))"

text \<open>
  The term a component adds to a slice of \<^verbatim>\<open>post_cov\<close>: the weighted second moment; the mean
  is read back from the column of \<^verbatim>\<open>mu1_mat\<close> it was stored in, which has \<open>R\<close> rows.
\<close>

definition second_moment_term :: "nat \<Rightarrow> dbl \<Rightarrow> dbl mat \<Rightarrow> dbl mat \<Rightarrow> dbl mat" where
  "second_moment_term R wt mu1 U1 =
     (let m = mk_mat R 1 (\<lambda>i k. ent mu1 i 0)
      in scal wt (mat_add U1 (mat_mul m (t_mat m))))"

fun or_empty :: "dbl mat option \<Rightarrow> dbl mat" where
  "or_empty None = empty_mat"
| "or_empty (Some M) = M"

definition mash_mu1_at :: "arma \<Rightarrow> PosteriorMASH \<Rightarrow> dbl mat \<Rightarrow> nat \<Rightarrow> nat \<Rightarrow> dbl mat" where
  "mash_mu1_at lib obj Vinv_j j p = mash_mu1 obj Vinv_j (or_empty (mash_U0 lib obj Vinv_j j p)) j"

definition mash_U1_at :: "arma \<Rightarrow> PosteriorMASH \<Rightarrow> dbl mat \<Rightarrow> nat \<Rightarrow> nat \<Rightarrow> dbl mat" where
  "mash_U1_at lib obj Vinv_j j p = mash_U1 obj (or_empty (mash_U0 lib obj Vinv_j j p)) j"

text \<open>
  What the first \<open>n\<close> components of an effect add to a slice of \<^verbatim>\<open>post_cov\<close>, for the
  report types 2 and 4.
\<close>

definition mash_cov_acc ::
  "arma \<Rightarrow> PosteriorMASH \<Rightarrow> dbl mat \<Rightarrow> dbl mat \<Rightarrow> nat \<Rightarrow> nat \<Rightarrow> dbl mat \<Rightarrow> dbl mat" where
  "mash_cov_acc lib obj w Vinv_j j n C =
     fold (\<lambda>p C. mat_add C
                    (second_moment_term (n_rows (post_mean obj)) (ent w p j)
                       (mash_mu1_at lib obj Vinv_j j p) (mash_U1_at lib obj Vinv_j j p)))
       [0..<n] C"

definition mash_inputs ::
  "PosteriorMASH \<Rightarrow> dbl mat \<times> SE \<times> dbl mat \<times> dbl mat \<times> dbl mat \<times> dbl cube \<times> dbl cube \<times> dbl cube" where
  "mash_inputs obj =
     (b_mat obj, s_obj obj, v_mat obj, l_mat obj, a_mat obj, U_cube obj, Vinv_cube obj, U0_cube obj)"

text \<open>
  The entries of the local matrices \<^verbatim>\<open>zero_mat\<close> and \<^verbatim>\<open>neg_mat\<close> for a component with the
  posterior mean \<open>mu1\<close> and covariance \<open>U1\<close>, at the condition \<open>r\<close>.
\<close>

definition comp_zero :: "dbl mat \<Rightarrow> nat \<Rightarrow> dbl" where
  "comp_zero U1 r = (if r < min (n_rows U1) (n_cols U1) \<and> ent U1 r r = 0 then Fin 1 else Fin 0)"

definition comp_neg :: "arma \<Rightarrow> dbl mat \<Rightarrow> dbl mat \<Rightarrow> nat \<Rightarrow> dbl" where
  "comp_neg lib mu1 U1 r =
     (if r < min (n_rows U1) (n_cols U1) \<and> ent U1 r r = 0 then Fin 0
      else Fin (1 / 2) * derfc (erfc lib)
             (ent mu1 r 0 / ent (map_ent dsqrt (diagvec U1)) r 0 * M_SQRT1_2))"

definition out_dims :: "nat \<Rightarrow> nat \<Rightarrow> PosteriorMASH \<Rightarrow> bool" where
  "out_dims R J obj =
     (n_rows (post_mean obj) = R \<and> n_cols (post_mean obj) = J
      \<and> n_rows (post_var obj) = R \<and> n_cols (post_var obj) = J
      \<and> n_rows (neg_prob obj) = R \<and> n_cols (neg_prob obj) = J
      \<and> n_rows (zero_prob obj) = R \<and> n_cols (zero_prob obj) = J)"

definition mash_Vinv_at :: "arma \<Rightarrow> PosteriorMASH \<Rightarrow> nat \<Rightarrow> dbl mat" where
  "mash_Vinv_at lib obj j = or_empty (mash_Vinv lib obj j)"

text \<open>
  The posterior mean and covariance of the component \<open>p\<close> for the effect \<open>j\<close>, and the four
  statistics of the condition \<open>r\<close> the engine averages over the components.
\<close>

definition mash_mu1_jp :: "arma \<Rightarrow> PosteriorMASH \<Rightarrow> nat \<Rightarrow> nat \<Rightarrow> dbl mat" where
  "mash_mu1_jp lib obj j p = mash_mu1_at lib obj (mash_Vinv_at lib obj j) j p"

definition mash_U1_jp :: "arma \<Rightarrow> PosteriorMASH \<Rightarrow> nat \<Rightarrow> nat \<Rightarrow> dbl mat" where
  "mash_U1_jp lib obj j p = mash_U1_at lib obj (mash_Vinv_at lib obj j) j p"

definition mash_mean :: "arma \<Rightarrow> PosteriorMASH \<Rightarrow> nat \<Rightarrow> nat \<Rightarrow> nat \<Rightarrow> dbl" where
  "mash_mean lib obj j p r = ent (mash_mu1_jp lib obj j p) r 0"

definition mash_mu2 :: "arma \<Rightarrow> PosteriorMASH \<Rightarrow> nat \<Rightarrow> nat \<Rightarrow> nat \<Rightarrow> dbl" where
  "mash_mu2 lib obj j p r =
     mash_mean lib obj j p r * mash_mean lib obj j p r + ent (diagvec (mash_U1_jp lib obj j p)) r 0"

definition mash_zero :: "arma \<Rightarrow> PosteriorMASH \<Rightarrow> nat \<Rightarrow> nat \<Rightarrow> nat \<Rightarrow> dbl" where
  "mash_zero lib obj j p r = comp_zero (mash_U1_jp lib obj j p) r"

definition mash_neg :: "arma \<Rightarrow> PosteriorMASH \<Rightarrow> nat \<Rightarrow> nat \<Rightarrow> nat \<Rightarrow> dbl" where
  "mash_neg lib obj j p r = comp_neg lib (mash_mu1_jp lib obj j p) (mash_U1_jp lib obj j p) r"

text \<open>The mean of a statistic over the components, with the weights of the effect \<open>j\<close>.\<close>

definition wmean :: "dbl mat \<Rightarrow> nat \<Rightarrow> nat \<Rightarrow> (nat \<Rightarrow> dbl) \<Rightarrow> dbl" where
  "wmean w P j f = (\<Sum>p<P. f p * ent w p j)"

text \<open>
  Column \<open>j\<close> of the posterior mean, and slice \<open>j\<close> of \<^verbatim>\<open>post_cov\<close>, when
  \<^verbatim>\<open>compute_posterior\<close> has returned.
\<close>

definition mash_mean_col :: "arma \<Rightarrow> PosteriorMASH \<Rightarrow> dbl mat \<Rightarrow> nat \<Rightarrow> dbl mat" where
  "mash_mean_col lib obj w j =
     mk_mat (n_rows (post_mean obj)) 1
       (\<lambda>r k. wmean w (n_slices (U_cube obj)) j (\<lambda>p. mash_mean lib obj j p r))"

definition mash_cov_slice :: "arma \<Rightarrow> PosteriorMASH \<Rightarrow> dbl mat \<Rightarrow> int \<Rightarrow> nat \<Rightarrow> dbl mat" where
  "mash_cov_slice lib obj w rt j =
     (let acc = mash_cov_acc lib obj w (mash_Vinv_at lib obj j) j (n_slices (U_cube obj))
                  (slice (post_cov obj) j);
          m = mash_mean_col lib obj w j
      in if rt = 4 then mat_sub acc (mat_mul m (t_mat m))
         else if rt = 2 then acc
         else slice (post_cov obj) j)"

text \<open>
  The loop over the effects inside a component of \<^verbatim>\<open>compute_posterior_comcov\<close>: it copies
  \<open>Svec\<close> into the columns of \<open>sigma\<close> and, for the report types 2 and 4, adds the second
  moment of the component to the slices of \<^verbatim>\<open>post_cov\<close>.
\<close>

definition comcov_effects ::
  "dbl mat \<Rightarrow> int \<Rightarrow> nat \<Rightarrow> dbl mat \<Rightarrow> dbl mat \<Rightarrow> dbl mat \<Rightarrow> nat
     \<Rightarrow> dbl mat \<times> PosteriorMASH \<Rightarrow> dbl mat \<times> PosteriorMASH" where
  "comcov_effects posterior_weights report_type p mu1 U1 Svec n st =
     fold (\<lambda>j (sigma, obj).
             (set_col sigma j Svec,
              if report_type = 2 \<or> report_type = 4
              then obj\<lparr>post_cov :=
                     set_slice (post_cov obj) j
                       (mat_add (slice (post_cov obj) j)
                          (scal (ent posterior_weights p j)
                             (mat_add U1 (mat_mul (col mu1 j) (t_mat (col mu1 j))))))\<rparr>
              else obj))
       [0..<n] st"

text \<open>
  The quantities of \<^verbatim>\<open>PosteriorMASH::compute_posterior_comcov\<close>, as the source computes them:
  the inverse covariance shared by the effects, the posterior covariance of the component
  \<open>p\<close> before rescaling, the matrix of the posterior means and the posterior covariance of
  the component.
\<close>

definition comcov_Vinv :: "arma \<Rightarrow> PosteriorMASH \<Rightarrow> dbl mat option" where
  "comcov_Vinv lib obj =
     (if cube_is_empty (Vinv_cube obj)
      then (case col0 (SE_get_original (s_obj obj)) of
              None \<Rightarrow> None
            | Some s0 \<Rightarrow> inv_sympd lib (get_cov s0 (v_mat obj) (l_mat obj)))
      else Some (slice (Vinv_cube obj) 0))"

definition comcov_U0 :: "arma \<Rightarrow> PosteriorMASH \<Rightarrow> dbl mat \<Rightarrow> nat \<Rightarrow> dbl mat option" where
  "comcov_U0 lib obj Vinv p =
     (if cube_is_empty (U0_cube obj)
      then get_posterior_cov lib Vinv (slice (U_cube obj) p)
      else Some (slice (U0_cube obj) p))"

definition comcov_mu1 :: "PosteriorMASH \<Rightarrow> dbl mat \<Rightarrow> dbl mat \<Rightarrow> dbl mat" where
  "comcov_mu1 obj Vinv U0 =
     (if is_empty (a_mat obj)
      then schur (get_posterior_mean_mat (b_mat obj) Vinv U0) (SE_get (s_obj obj))
      else mat_mul (a_mat obj)
             (schur (get_posterior_mean_mat (b_mat obj) Vinv U0) (SE_get (s_obj obj))))"

definition comcov_U1 :: "PosteriorMASH \<Rightarrow> dbl mat \<Rightarrow> dbl mat" where
  "comcov_U1 obj U0 =
     (let sa = col (SE_get (s_obj obj)) 0
      in if is_empty (a_mat obj)
         then each_row_schur (each_col_schur U0 sa) (t_mat sa)
         else mat_mul (a_mat obj)
                (mat_mul (each_row_schur (each_col_schur U0 sa) (t_mat sa))
                   (t_mat (a_mat obj))))"

definition comcov_mu1_at :: "arma \<Rightarrow> PosteriorMASH \<Rightarrow> dbl mat \<Rightarrow> nat \<Rightarrow> dbl mat" where
  "comcov_mu1_at lib obj Vinv p = comcov_mu1 obj Vinv (or_empty (comcov_U0 lib obj Vinv p))"

definition comcov_U1_at :: "arma \<Rightarrow> PosteriorMASH \<Rightarrow> dbl mat \<Rightarrow> nat \<Rightarrow> dbl mat" where
  "comcov_U1_at lib obj Vinv p = comcov_U1 obj (or_empty (comcov_U0 lib obj Vinv p))"

text \<open>
  What the first \<open>n\<close> components add to the slice \<open>j\<close> of \<^verbatim>\<open>post_cov\<close> in
  \<^verbatim>\<open>compute_posterior_comcov\<close>, for the report types 2 and 4.
\<close>

definition comcov_cov_acc ::
  "arma \<Rightarrow> PosteriorMASH \<Rightarrow> dbl mat \<Rightarrow> dbl mat \<Rightarrow> nat \<Rightarrow> nat \<Rightarrow> dbl mat \<Rightarrow> dbl mat" where
  "comcov_cov_acc lib obj w Vinv j n C =
     fold (\<lambda>p C. mat_add C
                    (scal (ent w p j)
                       (mat_add (comcov_U1_at lib obj Vinv p)
                          (mat_mul (col (comcov_mu1_at lib obj Vinv p) j)
                             (t_mat (col (comcov_mu1_at lib obj Vinv p) j))))))
       [0..<n] C"

text \<open>The local matrices of a component of \<^verbatim>\<open>compute_posterior_comcov\<close>.\<close>

definition comcov_locals ::
  "arma \<Rightarrow> dbl mat \<Rightarrow> dbl mat \<Rightarrow> dbl mat \<Rightarrow> dbl mat \<Rightarrow> dbl mat \<Rightarrow> dbl mat \<Rightarrow> nat \<Rightarrow> nat \<Rightarrow> locals" where
  "comcov_locals lib mean ones_row zeros_row mu1 U1 sigma R J =
     mark_degenerate_rows (map_ent dsqrt (diagvec U1)) ones_row zeros_row
       \<lparr>mu1_mat = mu1, diag_mu2_mat = each_col_add (pow2 mu1) (diagvec U1),
        zero_mat = zeros R J,
        neg_mat = pnorm lib mu1 mean sigma False True\<rparr>"

text \<open>The loop over the components of \<^verbatim>\<open>compute_posterior_comcov\<close>.\<close>

definition comcov_loop ::
  "arma \<Rightarrow> dbl mat \<Rightarrow> int \<Rightarrow> dbl mat \<Rightarrow> dbl mat \<Rightarrow> dbl mat \<Rightarrow> dbl mat \<Rightarrow> nat
     \<Rightarrow> dbl mat \<times> PosteriorMASH \<Rightarrow> (dbl mat \<times> PosteriorMASH) option" where
  "comcov_loop lib posterior_weights report_type Vinv mean ones_row zeros_row n st =
     fold_opt (\<lambda>p st. map_option snd
                        (mash_comcov_component lib posterior_weights report_type
                           Vinv mean ones_row zeros_row p st))
       [0..<n] st"

text \<open>
  The last loop of \<^verbatim>\<open>compute_posterior_comcov\<close> for the report type 4: it subtracts the outer
  product of the posterior mean from the slices of \<^verbatim>\<open>post_cov\<close>.
\<close>

definition comcov_center :: "nat \<Rightarrow> PosteriorMASH \<Rightarrow> PosteriorMASH" where
  "comcov_center n obj =
     fold (\<lambda>j obj.
             obj\<lparr>post_cov :=
                   set_slice (post_cov obj) j
                     (mat_sub (slice (post_cov obj) j)
                        (mat_mul (col (post_mean obj) j) (t_mat (col (post_mean obj) j))))\<rparr>)
       [0..<n] obj"

text \<open>
  Slice \<open>j\<close> of \<^verbatim>\<open>post_cov\<close> when \<^verbatim>\<open>compute_posterior_comcov\<close> has returned, given the column
  \<open>m\<close> of the posterior mean it has computed.
\<close>

definition comcov_cov_slice ::
  "arma \<Rightarrow> PosteriorMASH \<Rightarrow> dbl mat \<Rightarrow> int \<Rightarrow> nat \<Rightarrow> dbl mat \<Rightarrow> dbl mat" where
  "comcov_cov_slice lib obj w rt j m =
     (let acc = comcov_cov_acc lib obj w (or_empty (comcov_Vinv lib obj)) j
                  (n_slices (U_cube obj)) (slice (post_cov obj) j)
      in if rt = 4 then mat_sub acc (mat_mul m (t_mat m))
         else if rt = 2 then acc
         else slice (post_cov obj) j)"

text \<open>The matrix with one row and one column that holds \<open>x\<close>.\<close>

definition m11 :: "real \<Rightarrow> dbl mat" where
  "m11 x = of_rows 1 1 [[x]]"

text \<open>The cube with one row, one column and two slices that hold \<open>x\<close> and \<open>y\<close>.\<close>

definition c112 :: "real \<Rightarrow> real \<Rightarrow> dbl cube" where
  "c112 x y = of_slices 1 1 2 [[[x]], [[y]]]"

text \<open>
  An object of the multivariate engine with one condition, one effect and two mixture
  components, the second of them with the prior variance 0, and weights for it.
\<close>

definition mash_ex :: PosteriorMASH where
  "mash_ex = PosteriorMASH_new (m11 1) (m11 1) empty_mat empty_mat (m11 1) empty_mat empty_mat
               (c112 1 0)"

definition mash_ex_w :: "dbl mat" where
  "mash_ex_w = of_rows 2 1 [[1 / 2], [1 / 2]]"

text \<open>
  The outputs of the univariate engine as the constructor sizes them: vectors with an entry
  per effect.
\<close>

definition ash_outputs_sized :: "PosteriorASH \<Rightarrow> bool" where
  "ash_outputs_sized obj =
     (n_rows (PosteriorASH.post_mean obj) = n_rows (b_vec obj)
      \<and> n_cols (PosteriorASH.post_mean obj) = 1
      \<and> n_rows (PosteriorASH.post_var obj) = n_rows (b_vec obj)
      \<and> n_cols (PosteriorASH.post_var obj) = 1
      \<and> n_rows (PosteriorASH.neg_prob obj) = n_rows (b_vec obj)
      \<and> n_cols (PosteriorASH.neg_prob obj) = 1
      \<and> n_rows (PosteriorASH.zero_prob obj) = n_rows (b_vec obj)
      \<and> n_cols (PosteriorASH.zero_prob obj) = 1)"

text \<open>
  The second loop of \<^verbatim>\<open>PosteriorASH::compute_posterior\<close>, over the first \<open>n\<close> effects, for
  the local matrices \<open>loc\<close>.
\<close>

definition ash_effects :: "locals \<Rightarrow> dbl mat \<Rightarrow> nat \<Rightarrow> PosteriorASH \<Rightarrow> PosteriorASH" where
  "ash_effects loc posterior_weights n obj =
     fold (\<lambda>j obj.
             obj\<lparr>PosteriorASH.post_mean :=
                    set_at (PosteriorASH.post_mean obj) j 0
                      (dot (row (mu1_mat loc) j) (col posterior_weights j)),
                 PosteriorASH.post_var :=
                    set_at (PosteriorASH.post_var obj) j 0
                      (dot (row (diag_mu2_mat loc) j) (col posterior_weights j)),
                 PosteriorASH.neg_prob :=
                    set_at (PosteriorASH.neg_prob obj) j 0
                      (dot (row (neg_mat loc) j) (col posterior_weights j)),
                 PosteriorASH.zero_prob :=
                    set_at (PosteriorASH.zero_prob obj) j 0
                      (dot (row (zero_mat loc) j) (col posterior_weights j))\<rparr>)
       [0..<n] obj"

text \<open>
  What \<^verbatim>\<open>PosteriorASH::compute_posterior\<close> stores for the effect \<open>j\<close>, in the words of the
  specification: the means over the components, with the weights of the effect, of the
  closed-form posterior mean, of the second moment, of the probability of a negative effect
  and of the probability of a zero effect; the posterior variance is the mean second moment
  minus the square of the posterior mean.
\<close>

definition spec_ash_post_mean :: "PosteriorASH \<Rightarrow> dbl mat \<Rightarrow> nat \<Rightarrow> dbl" where
  "spec_ash_post_mean obj w j = (\<Sum>p<n_rows (U_vec obj). spec_ash_mu1 obj j p * ent w p j)"

definition spec_ash_post_var :: "PosteriorASH \<Rightarrow> dbl mat \<Rightarrow> nat \<Rightarrow> dbl" where
  "spec_ash_post_var obj w j =
     (\<Sum>p<n_rows (U_vec obj).
         (spec_ash_mu1 obj j p * spec_ash_mu1 obj j p + spec_ash_var obj j p) * ent w p j)
     - spec_ash_post_mean obj w j * spec_ash_post_mean obj w j"

definition spec_ash_neg_prob :: "arma \<Rightarrow> PosteriorASH \<Rightarrow> dbl mat \<Rightarrow> nat \<Rightarrow> dbl" where
  "spec_ash_neg_prob lib obj w j =
     (\<Sum>p<n_rows (U_vec obj).
         neg_entry lib (spec_ash_mu1 obj j p) (spec_ash_var obj j p) * ent w p j)"

definition spec_ash_zero_prob :: "PosteriorASH \<Rightarrow> dbl mat \<Rightarrow> nat \<Rightarrow> dbl" where
  "spec_ash_zero_prob obj w j =
     (\<Sum>p<n_rows (U_vec obj).
         (if spec_ash_var obj j p = 0 then Fin 1 else Fin 0) * ent w p j)"

text \<open>Weights for the object \<open>ash_ex\<close>: the two components weigh the same for each effect.\<close>

definition ash_ex_w :: "dbl mat" where
  "ash_ex_w = of_rows 2 2 [[1 / 2, 1 / 2], [1 / 2, 1 / 2]]"

text \<open>The sizes of the five outputs of the multivariate engine.\<close>

definition mash_sized :: "nat \<Rightarrow> nat \<Rightarrow> PosteriorMASH \<Rightarrow> bool" where
  "mash_sized Q J obj =
     (out_dims Q J obj \<and> c_rows (post_cov obj) = Q \<and> c_cols (post_cov obj) = Q
      \<and> n_slices (post_cov obj) = J)"

text \<open>The matrix with one row and two columns that holds \<open>x\<close> and \<open>y\<close>.\<close>

definition r12 :: "real \<Rightarrow> real \<Rightarrow> dbl mat" where
  "r12 x y = of_rows 1 2 [[x, y]]"

text \<open>
  An object of the multivariate engine with one condition, two effects and two mixture
  components, and weights for it.
\<close>

definition mash_ex2 :: PosteriorMASH where
  "mash_ex2 = PosteriorMASH_new (r12 1 1) (r12 1 1) empty_mat empty_mat (m11 1) empty_mat
                empty_mat (c112 1 0)"

definition mash_ex2_w :: "dbl mat" where
  "mash_ex2_w = of_rows 2 2 [[1 / 2, 1 / 2], [1 / 2, 1 / 2]]"

text \<open>Finite doubles, their real value, and matrices all of whose entries are finite.\<close>

fun is_fin :: "dbl \<Rightarrow> bool" where
  "is_fin (Fin a) = True"
| "is_fin PInf = False"
| "is_fin NInf = False"
| "is_fin NaN = False"

fun rval :: "dbl \<Rightarrow> real" where
  "rval (Fin a) = a"
| "rval PInf = 0"
| "rval NInf = 0"
| "rval NaN = 0"

definition fin_mat :: "dbl mat \<Rightarrow> bool" where
  "fin_mat M = (\<forall>i<n_rows M. \<forall>j<n_cols M. is_fin (ent M i j))"

text \<open>The identity matrix, and a two-sided inverse of a square matrix with \<open>R\<close> rows.\<close>

definition eye :: "nat \<Rightarrow> dbl mat" where
  "eye R = mk_mat R R (\<lambda>i j. if i = j then Fin 1 else Fin 0)"

definition is_inverse :: "nat \<Rightarrow> dbl mat \<Rightarrow> dbl mat \<Rightarrow> bool" where
  "is_inverse R S W =
     (wf_mat W \<and> n_rows W = R \<and> n_cols W = R \<and> fin_mat W
      \<and> mat_mul W S = eye R \<and> mat_mul S W = eye R)"

text \<open>The diagonal matrix with two rows that holds \<open>x\<close> and \<open>y\<close>.\<close>

definition d22 :: "real \<Rightarrow> real \<Rightarrow> dbl mat" where
  "d22 x y = of_rows 2 2 [[x, 0], [0, y]]"

text \<open>
  The four statistics of a component of \<^verbatim>\<open>compute_posterior_comcov\<close> for the condition \<open>r\<close>
  and the effect \<open>j\<close>.
\<close>

definition comcov_mean :: "arma \<Rightarrow> PosteriorMASH \<Rightarrow> dbl mat \<Rightarrow> nat \<Rightarrow> nat \<Rightarrow> nat \<Rightarrow> dbl" where
  "comcov_mean lib obj Vinv j p r = ent (comcov_mu1_at lib obj Vinv p) r j"

definition comcov_mu2 :: "arma \<Rightarrow> PosteriorMASH \<Rightarrow> dbl mat \<Rightarrow> nat \<Rightarrow> nat \<Rightarrow> nat \<Rightarrow> dbl" where
  "comcov_mu2 lib obj Vinv j p r =
     comcov_mean lib obj Vinv j p r * comcov_mean lib obj Vinv j p r
     + ent (diagvec (comcov_U1_at lib obj Vinv p)) r 0"

definition comcov_zero :: "arma \<Rightarrow> PosteriorMASH \<Rightarrow> dbl mat \<Rightarrow> nat \<Rightarrow> nat \<Rightarrow> dbl" where
  "comcov_zero lib obj Vinv p r = comp_zero (comcov_U1_at lib obj Vinv p) r"

definition comcov_neg :: "arma \<Rightarrow> PosteriorMASH \<Rightarrow> dbl mat \<Rightarrow> nat \<Rightarrow> nat \<Rightarrow> nat \<Rightarrow> dbl" where
  "comcov_neg lib obj Vinv j p r =
     comp_neg lib (col (comcov_mu1_at lib obj Vinv p) j) (comcov_U1_at lib obj Vinv p) r"

text \<open>The shape of the matrix of the posterior means of the components.\<close>

definition comcov_shapes :: "arma \<Rightarrow> PosteriorMASH \<Rightarrow> dbl mat \<Rightarrow> nat \<Rightarrow> nat \<Rightarrow> nat \<Rightarrow> bool" where
  "comcov_shapes lib obj Vinv R J n =
     (\<forall>p<n. n_rows (comcov_mu1_at lib obj Vinv p) = R
            \<and> n_cols (comcov_mu1_at lib obj Vinv p) = J)"

text \<open>
  An object of the engine for single-effect regression read as an object of the multivariate
  engine without the matrices \<open>L\<close> and \<open>A\<close>.  On these fields the two functions of
  \<^verbatim>\<open>MVSERMix\<close> do what the two functions of \<^verbatim>\<open>PosteriorMASH\<close> do for the report type 4.
\<close>

definition to_mash :: "MVSERMix \<Rightarrow> PosteriorMASH" where
  "to_mash obj =
     \<lparr>b_mat = MVSERMix.b_mat obj, s_obj = MVSERMix.s_obj obj, v_mat = MVSERMix.v_mat obj,
      l_mat = empty_mat, a_mat = empty_mat, U_cube = MVSERMix.U_cube obj,
      Vinv_cube = MVSERMix.Vinv_cube obj, U0_cube = MVSERMix.U0_cube obj,
      post_mean = MVSERMix.post_mean obj, post_var = MVSERMix.post_var obj,
      neg_prob = MVSERMix.neg_prob obj, zero_prob = MVSERMix.zero_prob obj,
      post_cov = MVSERMix.post_cov obj\<rparr>"

text \<open>
  The loop over the effects inside a component of \<^verbatim>\<open>MVSERMix::compute_posterior_comcov\<close>.
\<close>

definition mvser_comcov_effects ::
  "dbl mat \<Rightarrow> dbl mat \<Rightarrow> nat \<Rightarrow> dbl mat \<Rightarrow> dbl mat \<Rightarrow> dbl mat \<Rightarrow> nat
     \<Rightarrow> dbl mat \<times> dbl cube \<times> MVSERMix \<Rightarrow> dbl mat \<times> dbl cube \<times> MVSERMix" where
  "mvser_comcov_effects posterior_weights posterior_variable_weights p mu1 U1 Svec n st =
     fold (\<lambda>j (sigma, mu2_cube, obj).
             (let sigma = set_col sigma j Svec;
                  mu2_mat = mat_add U1 (mat_mul (col mu1 j) (t_mat (col mu1 j)));
                  obj = obj\<lparr>MVSERMix.post_cov :=
                          set_slice (MVSERMix.post_cov obj) j
                            (mat_add (slice (MVSERMix.post_cov obj) j)
                               (scal (ent posterior_weights p j) mu2_mat))\<rparr>;
                  mu2_cube =
                    (if \<not> cube_is_empty (Uinv_cube obj)
                     then set_slice mu2_cube p
                            (mat_add (slice mu2_cube p)
                               (scal (ent posterior_variable_weights p j) mu2_mat))
                     else mu2_cube)
              in (sigma, mu2_cube, obj)))
       [0..<n] st"

text \<open>
  What the first \<open>n\<close> effects add to the slice \<open>p\<close> of the local cube \<^verbatim>\<open>mu2_cube\<close> of
  \<^verbatim>\<open>MVSERMix::compute_posterior\<close>: the second moments \<open>U1 + mu1 * mu1'\<close> of the component
  \<open>p\<close> for the effects, weighted by \<^verbatim>\<open>posterior_variable_weights\<close>.
\<close>

definition mvser_mu2_acc ::
  "arma \<Rightarrow> MVSERMix \<Rightarrow> dbl mat \<Rightarrow> nat \<Rightarrow> nat \<Rightarrow> dbl mat \<Rightarrow> dbl mat" where
  "mvser_mu2_acc lib obj vw p n C =
     fold (\<lambda>j C. mat_add C
                    (second_moment_term (n_rows (MVSERMix.post_mean obj)) (ent vw p j)
                       (mash_mu1_jp lib (to_mash obj) j p) (mash_U1_jp lib (to_mash obj) j p)))
       [0..<n] C"

text \<open>The fields of the single-effect engine the multivariate engine does not have.\<close>

definition mvser_extra :: "MVSERMix \<Rightarrow> dbl cube \<times> dbl mat" where
  "mvser_extra obj = (Uinv_cube obj, prior_scalar obj)"

text \<open>The last loop of both functions of \<^verbatim>\<open>MVSERMix\<close>, over the first \<open>n\<close> components.\<close>

definition prior_scalar_loop :: "dbl cube \<Rightarrow> nat \<Rightarrow> MVSERMix \<Rightarrow> MVSERMix" where
  "prior_scalar_loop mu2_cube n obj =
     fold (\<lambda>p obj.
             obj\<lparr>prior_scalar :=
                   set_at (prior_scalar obj) p 0
                     (trace (mat_mul (slice (Uinv_cube obj) p) (slice mu2_cube p))
                        / dbl_of_nat (n_rows (MVSERMix.post_mean obj)))\<rparr>)
       [0..<n] obj"

text \<open>
  What the component \<open>p\<close> of \<^verbatim>\<open>MVSERMix::compute_posterior_comcov\<close> adds to the slice \<open>p\<close> of
  the local cube \<^verbatim>\<open>mu2_cube\<close> over the first \<open>n\<close> effects.
\<close>

definition mvser_comcov_mu2_acc ::
  "arma \<Rightarrow> MVSERMix \<Rightarrow> dbl mat \<Rightarrow> dbl mat \<Rightarrow> nat \<Rightarrow> nat \<Rightarrow> dbl mat \<Rightarrow> dbl mat" where
  "mvser_comcov_mu2_acc lib obj vw Vinv p n C =
     fold (\<lambda>j C. mat_add C
                    (scal (ent vw p j)
                       (mat_add (comcov_U1_at lib (to_mash obj) Vinv p)
                          (mat_mul (col (comcov_mu1_at lib (to_mash obj) Vinv p) j)
                             (t_mat (col (comcov_mu1_at lib (to_mash obj) Vinv p) j))))))
       [0..<n] C"

text \<open>The loop over the components of \<^verbatim>\<open>MVSERMix::compute_posterior_comcov\<close>.\<close>

definition mvser_comcov_loop ::
  "arma \<Rightarrow> dbl mat \<Rightarrow> dbl mat \<Rightarrow> dbl mat \<Rightarrow> dbl mat \<Rightarrow> dbl mat \<Rightarrow> dbl mat \<Rightarrow> nat
     \<Rightarrow> dbl mat \<times> dbl cube \<times> MVSERMix \<Rightarrow> (dbl mat \<times> dbl cube \<times> MVSERMix) option" where
  "mvser_comcov_loop lib posterior_weights posterior_variable_weights Vinv mean ones_row
       zeros_row n st =
     fold_opt (\<lambda>p st. map_option snd
                        (mvser_comcov_component lib posterior_weights posterior_variable_weights
                           Vinv mean ones_row zeros_row p st))
       [0..<n] st"

text \<open>
  The sizes of the outputs of the single-effect engine, as its constructor makes them: \<open>R\<close>
  conditions, \<open>J\<close> effects, \<open>P\<close> mixture components.
\<close>

definition mvser_sized :: "nat \<Rightarrow> nat \<Rightarrow> nat \<Rightarrow> MVSERMix \<Rightarrow> bool" where
  "mvser_sized R J P obj =
     (out_dims R J (to_mash obj) \<and> n_slices (MVSERMix.post_cov obj) = J
      \<and> n_slices (MVSERMix.U_cube obj) = P
      \<and> n_rows (prior_scalar obj) = P \<and> n_cols (prior_scalar obj) = 1)"

text \<open>
  Objects of the single-effect engine with one condition, one effect and two mixture
  components, the second of them with the prior variance 0: without and with inverses of the
  prior covariances.
\<close>

definition mvser_ex0 :: MVSERMix where
  "mvser_ex0 = MVSERMix_new (m11 1) (m11 1) empty_mat empty_mat (m11 1) (c112 1 0) (\<lambda>i. NaN)"

definition mvser_ex :: MVSERMix where
  "mvser_ex = mvser_set_Uinv mvser_ex0 (c112 1 2)"

section \<open>Basic facts about matrices\<close>

lemma n_rows_mk_mat [simp]: "n_rows (mk_mat r c f) = r"
  by (simp add: mk_mat_def)

lemma n_cols_mk_mat [simp]: "n_cols (mk_mat r c f) = c"
  by (simp add: mk_mat_def)

lemma ent_mk_mat [simp]: "ent (mk_mat r c f) i j = (if i < r \<and> j < c then f i j else 0)"
  by (simp add: mk_mat_def)

lemma mat_eqI:
  assumes "n_rows A = n_rows B" and "n_cols A = n_cols B"
    and "\<And>i j. ent A i j = ent B i j"
  shows "A = B"
proof -
  have "ent A = ent B" using assms(3) by (intro ext)
  with assms(1,2) show ?thesis by (simp add: mat.expand)
qed

lemma mk_mat_cong:
  assumes "\<And>i j. i < r \<Longrightarrow> j < c \<Longrightarrow> f i j = g i j"
  shows "mk_mat r c f = mk_mat r c g"
  by (rule mat_eqI) (simp_all add: assms)

lemmas mat_defs =
  zeros_def ones_def fill_def col_def row_def set_col_def set_row_def set_at_def t_mat_def
  map_ent_def mat_add_def mat_sub_def schur_def mat_div_def scal_def mat_mul_def
  each_col_schur_def each_row_schur_def each_col_add_def diagvec_def add_diag_def
  trimatu_def pow2_def

lemma dims_simps [simp]:
  "n_rows (zeros r c) = r" "n_cols (zeros r c) = c"
  "n_rows (ones r c) = r" "n_cols (ones r c) = c"
  "n_rows (fill r c x) = r" "n_cols (fill r c x) = c"
  "n_rows (col M j) = n_rows M" "n_cols (col M j) = 1"
  "n_rows (row M i) = 1" "n_cols (row M i) = n_cols M"
  "n_rows (set_col M j w) = n_rows M" "n_cols (set_col M j w) = n_cols M"
  "n_rows (set_row M i w) = n_rows M" "n_cols (set_row M i w) = n_cols M"
  "n_rows (set_at M i j x) = n_rows M" "n_cols (set_at M i j x) = n_cols M"
  "n_rows (t_mat M) = n_cols M" "n_cols (t_mat M) = n_rows M"
  "n_rows (map_ent f M') = n_rows M'" "n_cols (map_ent f M') = n_cols M'"
  by (simp_all add: mat_defs)

lemma dims_simps2 [simp]:
  "n_rows (mat_add A B) = n_rows A" "n_cols (mat_add A B) = n_cols A"
  "n_rows (mat_sub C D) = n_rows C" "n_cols (mat_sub C D) = n_cols C"
  "n_rows (schur E F) = n_rows E" "n_cols (schur E F) = n_cols E"
  "n_rows (mat_div G H) = n_rows G" "n_cols (mat_div G H) = n_cols G"
  "n_rows (scal y K) = n_rows K" "n_cols (scal y K) = n_cols K"
  "n_rows (mat_mul L N) = n_rows L" "n_cols (mat_mul L N) = n_cols N"
  "n_rows (each_col_schur E F) = n_rows E" "n_cols (each_col_schur E F) = n_cols E"
  "n_rows (each_row_schur E F) = n_rows E" "n_cols (each_row_schur E F) = n_cols E"
  "n_rows (each_col_add A B) = n_rows A" "n_cols (each_col_add A B) = n_cols A"
  "n_rows (diagvec A) = min (n_rows A) (n_cols A)" "n_cols (diagvec A) = 1"
  "n_rows (add_diag A z) = n_rows A" "n_cols (add_diag A z) = n_cols A"
  "n_rows (trimatu A) = n_rows A" "n_cols (trimatu A) = n_cols A"
  "n_rows (pow2 Q) = n_rows Q" "n_cols (pow2 Q) = n_cols Q"
  by (simp_all add: mat_defs)

lemma Fin_0_plus [simp]: "Fin 0 + x = x" "x + Fin 0 = x"
  by (cases x; simp)+

lemma fold_upt_Suc: "fold f [0..<Suc n] x = f n (fold f [0..<n] x)"
  by simp

section \<open>The point mass of a singular covariance\<close>

lemma point_mass_loop_dims:
  "n_rows (fold (\<lambda>i out. if c i then set_at out i 0 (f i) else out) [0..<n] out0) = n_rows out0
   \<and> n_cols (fold (\<lambda>i out. if c i then set_at out i 0 (f i) else out) [0..<n] out0) = n_cols out0"
  by (induction n) simp_all

lemma point_mass_loop_ent:
  assumes "k < n_rows out0" and "0 < n_cols out0"
  shows "ent (fold (\<lambda>i out. if c i then set_at out i 0 (f i) else out) [0..<n] out0) k 0
         = (if k < n \<and> c k then f k else ent out0 k 0)"
proof (induction n)
  case 0
  show ?case by simp
next
  case (Suc n)
  show ?case
    using Suc assms point_mass_loop_dims [of c f n out0]
    by (auto simp: set_at_def)
qed

lemma try_rooti_chol_fails: "chol lib sigma = None \<Longrightarrow> try_rooti lib sigma = None"
  by (simp add: try_rooti_def)

text \<open>
  C1.  When the Cholesky factorisation of the covariance fails, \<^verbatim>\<open>dmvnorm\<close> and
  \<^verbatim>\<open>dmvnorm_mat\<close> (called with \<^verbatim>\<open>inversed = false\<close>) treat the distribution as a point mass
  at the mean: a column whose L1 distance to the mean is below \<open>1e-6\<close> gets \<open>+\<infinity>\<close>, as a
  density and as a log-density, and every other column gets 0 as a density and \<open>-\<infinity>\<close> as a
  log-density.
\<close>

theorem dmvnorm_point_mass:
  assumes "chol lib sigma = None"
  shows "dmvnorm lib x mean sigma logd False
           = (if dlt (accu (map_ent dabs (mat_sub x mean))) (Fin (1 / 1000000)) then PInf
              else if logd then NInf else Fin 0)
         \<and> n_rows (dmvnorm_mat lib X mean sigma logd False) = n_cols X
         \<and> n_cols (dmvnorm_mat lib X mean sigma logd False) = 1
         \<and> (\<forall>i<n_cols X.
               ent (dmvnorm_mat lib X mean sigma logd False) i 0
                 = (if dlt (accu (map_ent dabs (mat_sub (col X i) mean))) (Fin (1 / 1000000))
                    then PInf
                    else if logd then NInf else Fin 0))"
proof -
  have r: "try_rooti lib sigma = None"
    using assms by (rule try_rooti_chol_fails)
  have a: "dmvnorm lib x mean sigma logd False
           = (if dlt (accu (map_ent dabs (mat_sub x mean))) (Fin (1 / 1000000)) then PInf
              else if logd then NInf else Fin 0)"
    by (simp add: dmvnorm_def r point_mass_eps_def)
  have b: "n_rows (dmvnorm_mat lib X mean sigma logd False) = n_cols X
           \<and> n_cols (dmvnorm_mat lib X mean sigma logd False) = 1"
    by (simp add: dmvnorm_mat_def r point_mass_loop_dims)
  have c: "ent (dmvnorm_mat lib X mean sigma logd False) i 0
             = (if dlt (accu (map_ent dabs (mat_sub (col X i) mean))) (Fin (1 / 1000000))
                then PInf
                else if logd then NInf else Fin 0)" if "i < n_cols X" for i
    using that by (simp add: dmvnorm_mat_def r point_mass_loop_ent point_mass_eps_def fill_def)
  from a b c show ?thesis by blast
qed

theorem dmvnorm_point_mass_witness:
  "chol diag_lib (zeros 1 1) = None
   \<and> dmvnorm diag_lib (zeros 1 1) (zeros 1 1) (zeros 1 1) False False = PInf
   \<and> dmvnorm diag_lib (of_rows 1 1 [[1]]) (zeros 1 1) (zeros 1 1) True False = NInf
   \<and> ent (dmvnorm_mat diag_lib (of_rows 1 2 [[0, 1]]) (zeros 1 1) (zeros 1 1) False False) 0 0 = PInf
   \<and> ent (dmvnorm_mat diag_lib (of_rows 1 2 [[0, 1]]) (zeros 1 1) (zeros 1 1) False False) 1 0 = Fin 0"
proof -
  define X where "X = of_rows 1 2 [[0, 1]]"
  have h: "chol diag_lib (zeros 1 1) = None"
    by (simp add: diag_lib_def diag_chol_def diag_with_def zeros_def zero_dbl_def)
  have a0: "accu (map_ent dabs (mat_sub (zeros 1 1) (zeros 1 1))) = Fin 0"
    by (simp add: accu_def mat_defs zero_dbl_def minus_dbl_def)
  have a1: "accu (map_ent dabs (mat_sub (of_rows 1 1 [[1]]) (zeros 1 1))) = Fin 1"
    by (simp add: accu_def mat_defs of_rows_def zero_dbl_def minus_dbl_def)
  have c0: "accu (map_ent dabs (mat_sub (col X 0) (zeros 1 1))) = Fin 0"
    by (simp add: X_def accu_def mat_defs of_rows_def zero_dbl_def minus_dbl_def)
  have c1: "accu (map_ent dabs (mat_sub (col X 1) (zeros 1 1))) = Fin 1"
    by (simp add: X_def accu_def mat_defs of_rows_def zero_dbl_def minus_dbl_def)
  have n: "0 < n_cols X" "1 < n_cols X"
    by (simp_all add: X_def of_rows_def)
  note t1 = dmvnorm_point_mass [OF h, of "zeros 1 1" "zeros 1 1" False X]
  note t2 = dmvnorm_point_mass [OF h, of "of_rows 1 1 [[1]]" "zeros 1 1" True X]
  have e1: "dmvnorm diag_lib (zeros 1 1) (zeros 1 1) (zeros 1 1) False False = PInf"
    using t1 by (simp only: a0) simp
  have e2: "dmvnorm diag_lib (of_rows 1 1 [[1]]) (zeros 1 1) (zeros 1 1) True False = NInf"
    using t2 by (simp only: a1) simp
  from t1 have q: "\<forall>i<n_cols X. ent (dmvnorm_mat diag_lib X (zeros 1 1) (zeros 1 1) False False) i 0
                 = (if dlt (accu (map_ent dabs (mat_sub (col X i) (zeros 1 1)))) (Fin (1 / 1000000))
                    then PInf else if False then NInf else Fin 0)"
    by blast
  have e3: "ent (dmvnorm_mat diag_lib X (zeros 1 1) (zeros 1 1) False False) 0 0 = PInf"
    using q [rule_format, OF n(1)] by (simp only: c0) simp
  have e4: "ent (dmvnorm_mat diag_lib X (zeros 1 1) (zeros 1 1) False False) 1 0 = Fin 0"
    using q [rule_format, OF n(2)] by (simp only: c1) simp
  from h e1 e2 e3 e4 show ?thesis
    unfolding X_def by blast
qed


section \<open>The likelihood matrix\<close>

lemma LOG_2PI_fin: "LOG_2PI = Fin (ln (2 * pi))"
  by (simp add: LOG_2PI_def)

lemma half_dim_const:
  "- (dbl_of_nat n / Fin 2) * LOG_2PI = Fin (- (1 / 2)) * dbl_of_nat n * LOG_2PI"
  by (simp add: LOG_2PI_fin dbl_of_nat_def)

lemma dmvnorm_inversed:
  "dmvnorm lib x mean W logd True = spec_mvnormal_whitened x mean W logd"
  by (simp add: dmvnorm_def spec_mvnormal_whitened_def Let_def half_dim_const)

lemma fill_loop_ent:
  assumes "k < n_rows out0" and "0 < n_cols out0"
  shows "ent (fold (\<lambda>i out. set_at out i 0 (f i)) [0..<n] out0) k 0
         = (if k < n then f k else ent out0 k 0)"
  using point_mass_loop_ent [OF assms, of "\<lambda>i. True" f n] by simp

lemma fill_loop_dims:
  "n_rows (fold (\<lambda>i out. set_at out i 0 (f i)) [0..<n] out0) = n_rows out0
   \<and> n_cols (fold (\<lambda>i out. set_at out i 0 (f i)) [0..<n] out0) = n_cols out0"
  using point_mass_loop_dims [of "\<lambda>i. True" f n out0] by simp

lemma dmvnorm_mat_inversed:
  assumes "i < n_cols X"
  shows "ent (dmvnorm_mat lib X mean W logd True) i 0 = spec_mvnormal_whitened (col X i) mean W logd"
  using assms
  by (simp add: dmvnorm_mat_def spec_mvnormal_whitened_def Let_def half_dim_const
      fill_loop_ent fill_loop_dims map_ent_def n_elem_def)

lemma wf_mk_mat [simp]: "wf_mat (mk_mat r c f)"
  by (simp add: wf_mat_def)

lemma wf_ops [simp]:
  "wf_mat (zeros r c)" "wf_mat (set_col M j w)" "wf_mat (set_at M i j x)"
  "wf_mat (set_row M i w)" "wf_mat (col M j)" "wf_mat (t_mat M)"
  by (simp_all add: mat_defs)

lemma wf_mat_eqI:
  assumes "wf_mat A" and "wf_mat B" and "n_rows A = n_rows B" and "n_cols A = n_cols B"
    and "\<And>i j. i < n_rows A \<Longrightarrow> j < n_cols A \<Longrightarrow> ent A i j = ent B i j"
  shows "A = B"
proof (rule mat_eqI)
  fix i j
  show "ent A i j = ent B i j"
  proof (cases "i < n_rows A \<and> j < n_cols A")
    case True
    then show ?thesis using assms(5) by simp
  next
    case False
    then show ?thesis using assms(1-4) by (simp add: wf_mat_def)
  qed
qed (use assms in simp_all)

lemma set_col_loop:
  "n_rows (fold (\<lambda>p M. set_col M p (D p)) [0..<n] M) = n_rows M
   \<and> n_cols (fold (\<lambda>p M. set_col M p (D p)) [0..<n] M) = n_cols M
   \<and> (wf_mat M \<longrightarrow> wf_mat (fold (\<lambda>p M. set_col M p (D p)) [0..<n] M))
   \<and> (\<forall>i k. i < n_rows M \<longrightarrow> k < n_cols M \<longrightarrow>
         ent (fold (\<lambda>p M. set_col M p (D p)) [0..<n] M) i k
           = (if k < n then ent (D k) i 0 else ent M i k))"
  by (induction n) (auto simp: set_col_def)

lemma set_at_loop:
  "n_rows (fold (\<lambda>p M. set_at M j p (d (n_cols M) p)) [0..<n] M) = n_rows M
   \<and> n_cols (fold (\<lambda>p M. set_at M j p (d (n_cols M) p)) [0..<n] M) = n_cols M
   \<and> (wf_mat M \<longrightarrow> wf_mat (fold (\<lambda>p M. set_at M j p (d (n_cols M) p)) [0..<n] M))
   \<and> (\<forall>i k. i < n_rows M \<longrightarrow> k < n_cols M \<longrightarrow>
         ent (fold (\<lambda>p M. set_at M j p (d (n_cols M) p)) [0..<n] M) i k
           = (if i = j \<and> k < n then d (n_cols M) k else ent M i k))"
  by (induction n) (auto simp: set_at_def)

lemma set_at_nested_loop:
  "n_rows (fold (\<lambda>j M. fold (\<lambda>p M. set_at M j p (d (n_cols M) j p)) [0..<n_cols M] M) [0..<m] M)
     = n_rows M
   \<and> n_cols (fold (\<lambda>j M. fold (\<lambda>p M. set_at M j p (d (n_cols M) j p)) [0..<n_cols M] M) [0..<m] M)
     = n_cols M
   \<and> (wf_mat M \<longrightarrow>
        wf_mat (fold (\<lambda>j M. fold (\<lambda>p M. set_at M j p (d (n_cols M) j p)) [0..<n_cols M] M) [0..<m] M))
   \<and> (\<forall>i k. i < n_rows M \<longrightarrow> k < n_cols M \<longrightarrow>
         ent (fold (\<lambda>j M. fold (\<lambda>p M. set_at M j p (d (n_cols M) j p)) [0..<n_cols M] M) [0..<m] M) i k
           = (if i < m then d (n_cols M) i k else ent M i k))"
proof (induction m)
  case 0
  show ?case by simp
next
  case (Suc m)
  let ?N = "fold (\<lambda>j M. fold (\<lambda>p M. set_at M j p (d (n_cols M) j p)) [0..<n_cols M] M) [0..<m] M"
  show ?case
    using Suc set_at_loop [of m "\<lambda>c. d c m" "n_cols ?N" ?N]
    by (auto simp: less_Suc_eq)
qed

lemma dmvnorm_mat_col:
  assumes "i < n_cols X"
  shows "ent (dmvnorm_mat lib X mean S logd inversed) i 0
         = dmvnorm lib (col X i) mean S logd inversed"
proof (cases "if inversed then Some S else try_rooti lib S")
  case None
  then show ?thesis
    using assms
    by (simp add: dmvnorm_mat_def dmvnorm_def Let_def point_mass_loop_ent fill_def)
next
  case (Some W)
  then show ?thesis
    using assms
    by (simp add: dmvnorm_mat_def dmvnorm_def Let_def fill_loop_ent fill_loop_dims
        map_ent_def n_elem_def)
qed

lemma dmvnorm_mat_dims:
  "n_rows (dmvnorm_mat lib X mean S logd inversed) = n_cols X
   \<and> n_cols (dmvnorm_mat lib X mean S logd inversed) = 1"
  by (cases "if inversed then Some S else try_rooti lib S")
     (simp_all add: dmvnorm_mat_def Let_def point_mass_loop_dims fill_loop_dims)

lemma calc_lik_common:
  assumes "0 < n_cols sm"
  shows "calc_lik lib bm sm vm lm Uc logd True
         = Some (mk_mat (n_cols bm) (n_slices Uc)
                   (\<lambda>j p. dmvnorm lib (col bm j) (zeros (n_rows bm) 1)
                             (mat_add (get_cov (col sm 0) vm lm) (slice Uc p)) logd False))"
proof -
  let ?D = "\<lambda>p. dmvnorm_mat lib bm (zeros (n_rows bm) 1)
                  (mat_add (get_cov (col sm 0) vm lm) (slice Uc p)) logd False"
  let ?L = "fold (\<lambda>p lik. set_col lik p (?D p)) [0..<n_slices Uc]
              (zeros (n_cols bm) (n_slices Uc))"
  have "?L = mk_mat (n_cols bm) (n_slices Uc)
                   (\<lambda>j p. dmvnorm lib (col bm j) (zeros (n_rows bm) 1)
                             (mat_add (get_cov (col sm 0) vm lm) (slice Uc p)) logd False)"
    using set_col_loop [of ?D "n_slices Uc" "zeros (n_cols bm) (n_slices Uc)"]
    by (intro wf_mat_eqI) (simp_all add: dmvnorm_mat_col zeros_def)
  then show ?thesis
    using assms by (simp add: calc_lik_def col0_def Let_def)
qed

lemma calc_lik_general:
  "calc_lik lib bm sm vm lm Uc logd False
         = Some (mk_mat (n_cols bm) (n_slices Uc)
                   (\<lambda>j p. dmvnorm lib (col bm j) (zeros (n_rows bm) 1)
                             (mat_add (get_cov (col sm j) vm lm) (slice Uc p)) logd False))"
proof -
  let ?d = "\<lambda>j p. dmvnorm lib (col bm j) (zeros (n_rows bm) 1)
                             (mat_add (get_cov (col sm j) vm lm) (slice Uc p)) logd False"
  let ?L = "fold (\<lambda>j lik. fold (\<lambda>p lik. set_at lik j p (?d j p)) [0..<n_cols lik] lik)
              [0..<n_cols bm] (zeros (n_cols bm) (n_slices Uc))"
  have "?L = mk_mat (n_cols bm) (n_slices Uc) ?d"
    using set_at_nested_loop [of "\<lambda>c. ?d" "n_cols bm" "zeros (n_cols bm) (n_slices Uc)"]
    by (intro wf_mat_eqI) (simp_all add: zeros_def)
  then show ?thesis
    by (simp add: calc_lik_def Let_def)
qed

text \<open>
  C7 (as amended).  When the standard errors have one column per effect, at least one
  effect, and all their columns are equal, \<^verbatim>\<open>calc_lik\<close> with \<^verbatim>\<open>common_cov = true\<close> returns
  the same matrix as with \<^verbatim>\<open>common_cov = false\<close>, and it does return.
\<close>

theorem calc_lik_paths_agree:
  assumes "n_cols sm = n_cols bm" and "0 < n_cols bm"
    and "\<forall>j<n_cols sm. col sm j = col sm 0"
  shows "calc_lik lib bm sm vm lm Uc logd True
         = calc_lik lib bm sm vm lm Uc logd False
         \<and> calc_lik lib bm sm vm lm Uc logd True \<noteq> None"
proof -
  have pos: "0 < n_cols sm" using assms by simp
  have "mk_mat (n_cols bm) (n_slices Uc)
                   (\<lambda>j p. dmvnorm lib (col bm j) (zeros (n_rows bm) 1)
                             (mat_add (get_cov (col sm 0) vm lm) (slice Uc p)) logd False)
        = mk_mat (n_cols bm) (n_slices Uc)
                   (\<lambda>j p. dmvnorm lib (col bm j) (zeros (n_rows bm) 1)
                             (mat_add (get_cov (col sm j) vm lm) (slice Uc p)) logd False)"
  proof (rule mk_mat_cong)
    fix i j
    assume "i < n_cols bm"
    then have "i < n_cols sm" using assms(1) by simp
    then have "col sm i = col sm 0" using assms(3) by blast
    then show "dmvnorm lib (col bm i) (zeros (n_rows bm) 1)
                 (mat_add (get_cov (col sm 0) vm lm) (slice Uc j)) logd False
               = dmvnorm lib (col bm i) (zeros (n_rows bm) 1)
                 (mat_add (get_cov (col sm i) vm lm) (slice Uc j)) logd False"
      by simp
  qed
  then show ?thesis
    by (simp only: calc_lik_common [OF pos] calc_lik_general) simp
qed

theorem calc_lik_paths_agree_witness:
  "n_cols (of_rows 1 2 [[1, 1]]) = n_cols (of_rows 1 2 [[0, 1]])
   \<and> 0 < n_cols (of_rows 1 2 [[0, 1]])
   \<and> col (of_rows 1 2 [[1, 1]]) 1 = col (of_rows 1 2 [[1, 1]]) 0
   \<and> calc_lik diag_lib (of_rows 1 2 [[0, 1]]) (of_rows 1 2 [[1, 1]]) (of_rows 1 1 [[1]]) empty_mat
        (of_slices 1 1 1 [[[1]]]) True True
      = calc_lik diag_lib (of_rows 1 2 [[0, 1]]) (of_rows 1 2 [[1, 1]]) (of_rows 1 1 [[1]]) empty_mat
        (of_slices 1 1 1 [[[1]]]) True False
   \<and> calc_lik diag_lib (of_rows 1 2 [[0, 1]]) (of_rows 1 2 [[1, 1]]) (of_rows 1 1 [[1]]) empty_mat
        (of_slices 1 1 1 [[[1]]]) True True \<noteq> None"
proof -
  define S where "S = of_rows 1 2 [[1, 1]]"
  define B where "B = of_rows 1 2 [[0, 1]]"
  have c1: "col S 1 = col S 0"
    unfolding col_def S_def of_rows_def by (rule mat_eqI) simp_all
  have c: "col S j = col S 0" if "j < 2" for j
  proof (cases "j = 0")
    case True
    then show ?thesis by simp
  next
    case False
    with that have "j = 1" by simp
    then show ?thesis using c1 by simp
  qed
  have h1: "n_cols S = n_cols B"
    by (simp add: S_def B_def of_rows_def)
  have h2: "0 < n_cols B"
    by (simp add: B_def of_rows_def)
  have n: "n_cols S = 2"
    by (simp add: S_def of_rows_def)
  have h3: "\<forall>j<n_cols S. col S j = col S 0"
    unfolding n using c by blast
  note t = calc_lik_paths_agree [OF h1 h2 h3, of diag_lib "of_rows 1 1 [[1]]" empty_mat
      "of_slices 1 1 1 [[[1]]]" True]
  from t h1 h2 c1 show ?thesis
    unfolding S_def B_def by blast
qed

text \<open>
  Without an effect the two paths differ: the path for a common covariance reads column 0
  of the standard errors, which does not exist, and the general path returns an empty
  matrix.
\<close>

theorem calc_lik_no_effect_counterexample:
  "n_cols (zeros 1 0 :: dbl mat) = 0
   \<and> calc_lik diag_lib (zeros 1 0) (zeros 1 0) (of_rows 1 1 [[1]]) empty_mat
        (of_slices 1 1 1 [[[1]]]) False True = None
   \<and> calc_lik diag_lib (zeros 1 0) (zeros 1 0) (of_rows 1 1 [[1]]) empty_mat
        (of_slices 1 1 1 [[[1]]]) False False = Some (zeros 0 1)"
  by (simp add: calc_lik_def col0_def of_slices_def mk_cube_def)

section \<open>Precomputed whitening matrices\<close>

lemma calc_lik_rooti_common:
  "calc_lik_rooti lib bm rc logd True
     = Some (mk_mat (n_cols bm) (n_slices rc)
               (\<lambda>j p. dmvnorm lib (col bm j) (zeros (n_rows bm) 1) (slice rc p) logd True))"
proof -
  let ?D = "\<lambda>p. dmvnorm_mat lib bm (zeros (n_rows bm) 1) (slice rc p) logd True"
  have "fold (\<lambda>p lik. set_col lik p (?D p)) [0..<n_slices rc] (zeros (n_cols bm) (n_slices rc))
        = mk_mat (n_cols bm) (n_slices rc)
               (\<lambda>j p. dmvnorm lib (col bm j) (zeros (n_rows bm) 1) (slice rc p) logd True)"
    using set_col_loop [of ?D "n_slices rc" "zeros (n_cols bm) (n_slices rc)"]
    by (intro wf_mat_eqI) (simp_all add: dmvnorm_mat_col zeros_def)
  then show ?thesis
    by (simp add: calc_lik_rooti_def Let_def)
qed

lemma calc_lik_rooti_general:
  assumes "0 < n_cols bm"
  shows "calc_lik_rooti lib bm rc logd False
     = Some (mk_mat (n_cols bm) (n_slices rc div n_cols bm)
               (\<lambda>j p. dmvnorm lib (col bm j) (zeros (n_rows bm) 1)
                         (slice rc (j * (n_slices rc div n_cols bm) + p)) logd True))"
proof -
  let ?P = "n_slices rc div n_cols bm"
  let ?d = "\<lambda>P j p. dmvnorm lib (col bm j) (zeros (n_rows bm) 1) (slice rc (j * P + p)) logd True"
  have "fold (\<lambda>j lik. fold (\<lambda>p lik. set_at lik j p (?d (n_cols lik) j p)) [0..<n_cols lik] lik)
          [0..<n_cols bm] (zeros (n_cols bm) ?P)
        = mk_mat (n_cols bm) ?P (?d ?P)"
    using set_at_nested_loop [of ?d "n_cols bm" "zeros (n_cols bm) ?P"]
    by (intro wf_mat_eqI) (simp_all add: zeros_def)
  then show ?thesis
    using assms by (simp add: calc_lik_rooti_def Let_def)
qed

lemma whitened_at_mean_not_inf:
  "dmvnorm lib (zeros 1 1) (zeros 1 1) (fill 1 1 w) logd True \<noteq> PInf"
proof -
  have z: "mat_mul (fill 1 1 w) (mat_sub (zeros 1 1) (zeros 1 1)) = fill 1 1 (w * Fin 0)"
    by (rule mat_eqI) (simp_all add: mat_defs zero_dbl_def minus_dbl_def)
  have d: "accu (map_ent dlog (diagvec (fill 1 1 w))) = dlog w"
    by (simp add: accu_def mat_defs)
  have q: "accu (schur (fill 1 1 (w * Fin 0)) (fill 1 1 (w * Fin 0))) = (w * Fin 0) * (w * Fin 0)"
    by (simp add: accu_def mat_defs)
  have n: "n_elem (zeros 1 1 :: dbl mat) = 1"
    by (simp add: n_elem_def)
  show ?thesis
    unfolding dmvnorm_inversed spec_mvnormal_whitened_def Let_def z d q n
    by (cases w) (simp_all add: LOG_2PI_fin dbl_of_nat_def minus_dbl_def)
qed

lemma raw_at_mean_inf:
  assumes "chol lib (zeros 1 1) = None"
  shows "dmvnorm lib (zeros 1 1) (zeros 1 1) (zeros 1 1) logd False = PInf"
proof -
  have a0: "accu (map_ent dabs (mat_sub (zeros 1 1) (zeros 1 1))) = Fin 0"
    by (simp add: accu_def mat_defs zero_dbl_def minus_dbl_def)
  show ?thesis
    using try_rooti_chol_fails [OF assms]
    by (simp add: dmvnorm_def a0 point_mass_eps_def Let_def del: One_nat_def)
qed

text \<open>
  C10.  With \<^verbatim>\<open>inversed = true\<close> the functions \<^verbatim>\<open>dmvnorm\<close> and \<^verbatim>\<open>dmvnorm_mat\<close>, and with them
  the overload of \<^verbatim>\<open>calc_lik\<close> for whitening matrices, never take the point-mass branch:
  whatever the factorisation routines do, the result is the density computed from the
  supplied matrix.  For the singular 1 x 1 covariance 0 the two paths differ at the mean:
  the path for raw covariances returns \<open>+\<infinity>\<close>, the path for whitening matrices does not,
  whatever matrix is supplied.
\<close>

theorem whitened_path_no_point_mass:
  "dmvnorm lib x mean W logd True = spec_mvnormal_whitened x mean W logd
   \<and> (\<forall>i<n_cols X. ent (dmvnorm_mat lib X mean W logd True) i 0
                      = spec_mvnormal_whitened (col X i) mean W logd)
   \<and> calc_lik_rooti lib bm rc logd True
       = Some (mk_mat (n_cols bm) (n_slices rc)
                 (\<lambda>j p. spec_mvnormal_whitened (col bm j) (zeros (n_rows bm) 1) (slice rc p) logd))
   \<and> (0 < n_cols bm \<longrightarrow>
        calc_lik_rooti lib bm rc logd False
          = Some (mk_mat (n_cols bm) (n_slices rc div n_cols bm)
                    (\<lambda>j p. spec_mvnormal_whitened (col bm j) (zeros (n_rows bm) 1)
                              (slice rc (j * (n_slices rc div n_cols bm) + p)) logd)))
   \<and> dmvnorm lib (zeros 1 1) (zeros 1 1) (fill 1 1 w) logd True \<noteq> PInf
   \<and> (chol lib (zeros 1 1) = None \<longrightarrow>
        dmvnorm lib (zeros 1 1) (zeros 1 1) (zeros 1 1) logd False = PInf)"
  using dmvnorm_inversed [of lib x mean W logd] dmvnorm_mat_inversed [of _ X lib mean W logd]
    calc_lik_rooti_common [of lib bm rc logd] calc_lik_rooti_general [of bm lib rc logd]
    whitened_at_mean_not_inf [of lib w logd] raw_at_mean_inf [of lib logd]
  by (simp add: dmvnorm_inversed)

theorem whitened_path_no_point_mass_witness:
  "chol diag_lib (zeros 1 1) = None
   \<and> dmvnorm diag_lib (zeros 1 1) (zeros 1 1) (zeros 1 1) True False = PInf
   \<and> dmvnorm diag_lib (zeros 1 1) (zeros 1 1) (fill 1 1 (Fin 0)) True True \<noteq> PInf
   \<and> 0 < n_cols (of_rows 1 2 [[0, 1]])
   \<and> ent (dmvnorm_mat diag_lib (of_rows 1 2 [[0, 1]]) (zeros 1 1) (of_rows 1 1 [[1]]) True True) 1 0
       = spec_mvnormal_whitened (col (of_rows 1 2 [[0, 1]]) 1) (zeros 1 1) (of_rows 1 1 [[1]]) True
   \<and> calc_lik_rooti diag_lib (of_rows 1 2 [[0, 1]]) (of_slices 1 1 2 [[[1]], [[2]]]) True False \<noteq> None"
proof -
  have h: "chol diag_lib (zeros 1 1) = None"
    by (simp add: diag_lib_def diag_chol_def diag_with_def zeros_def zero_dbl_def)
  have n: "0 < n_cols (of_rows 1 2 [[0, 1]])" "1 < n_cols (of_rows 1 2 [[0, 1]])"
    by (simp_all add: of_rows_def)
  note t = whitened_path_no_point_mass [of diag_lib "zeros 1 1" "zeros 1 1" "of_rows 1 1 [[1]]" True
      "of_rows 1 2 [[0, 1]]" "of_rows 1 2 [[0, 1]]" "of_slices 1 1 2 [[[1]], [[2]]]" "Fin 0"]
  from t h n show ?thesis
    by blast
qed

section \<open>The univariate engine\<close>

lemma ent_simps:
  "ent (zeros r c) i j = 0"
  "ent (ones r c) i j = (if i < r \<and> j < c then 1 else 0)"
  "ent (fill r c x) i j = (if i < r \<and> j < c then x else 0)"
  "ent (col M k) i j = (if i < n_rows M \<and> j = 0 then ent M i k else 0)"
  "ent (row M k) i j = (if i = 0 \<and> j < n_cols M then ent M k j else 0)"
  "ent (set_col M k w) i j
     = (if i < n_rows M \<and> j < n_cols M then (if j = k then ent w i 0 else ent M i j) else 0)"
  "ent (set_row M k w) i j
     = (if i < n_rows M \<and> j < n_cols M then (if i = k then ent w 0 j else ent M i j) else 0)"
  "ent (set_at M k l x) i j
     = (if i < n_rows M \<and> j < n_cols M then (if i = k \<and> j = l then x else ent M i j) else 0)"
  "ent (t_mat M) i j = (if i < n_cols M \<and> j < n_rows M then ent M j i else 0)"
  "ent (map_ent f M') i j = (if i < n_rows M' \<and> j < n_cols M' then f (ent M' i j) else 0)"
  by (auto simp: mat_defs)

lemma ent_simps2:
  "ent (mat_add A B) i j = (if i < n_rows A \<and> j < n_cols A then ent A i j + ent B i j else 0)"
  "ent (mat_sub C D) i j = (if i < n_rows C \<and> j < n_cols C then ent C i j - ent D i j else 0)"
  "ent (schur E F) i j = (if i < n_rows E \<and> j < n_cols E then ent E i j * ent F i j else 0)"
  "ent (mat_div G H) i j = (if i < n_rows G \<and> j < n_cols G then ent G i j / ent H i j else 0)"
  "ent (scal y K) i j = (if i < n_rows K \<and> j < n_cols K then y * ent K i j else 0)"
  "ent (mat_mul L N) i j
     = (if i < n_rows L \<and> j < n_cols N then (\<Sum>k<n_cols L. ent L i k * ent N k j) else 0)"
  "ent (each_col_schur E F) i j
     = (if i < n_rows E \<and> j < n_cols E then ent E i j * ent F i 0 else 0)"
  "ent (each_row_schur E F) i j
     = (if i < n_rows E \<and> j < n_cols E then ent E i j * ent F 0 j else 0)"
  "ent (each_col_add A B) i j
     = (if i < n_rows A \<and> j < n_cols A then ent A i j + ent B i 0 else 0)"
  "ent (diagvec A) i j = (if i < min (n_rows A) (n_cols A) \<and> j = 0 then ent A i i else 0)"
  "ent (add_diag A z) i j
     = (if i < n_rows A \<and> j < n_cols A then (if i = j then ent A i j + z else ent A i j) else 0)"
  "ent (pow2 Q) i j = (if i < n_rows Q \<and> j < n_cols Q then ent Q i j * ent Q i j else 0)"
  by (auto simp: mat_defs)

lemma mark_loop_all:
  fixes c :: "nat \<Rightarrow> bool"
  defines "body \<equiv> (\<lambda>p a b r (loc::locals).
             if c r
             then loc\<lparr>zero_mat := set_at (zero_mat loc) r p a,
                      neg_mat := set_at (neg_mat loc) r p b\<rparr>
             else loc)"
  shows "mu1_mat (fold (body p a b) [0..<n] loc) = mu1_mat loc
   \<and> diag_mu2_mat (fold (body p a b) [0..<n] loc) = diag_mu2_mat loc
   \<and> n_rows (zero_mat (fold (body p a b) [0..<n] loc)) = n_rows (zero_mat loc)
   \<and> n_cols (zero_mat (fold (body p a b) [0..<n] loc)) = n_cols (zero_mat loc)
   \<and> n_rows (neg_mat (fold (body p a b) [0..<n] loc)) = n_rows (neg_mat loc)
   \<and> n_cols (neg_mat (fold (body p a b) [0..<n] loc)) = n_cols (neg_mat loc)
   \<and> (\<forall>i k. i < n_rows (zero_mat loc) \<longrightarrow> k < n_cols (zero_mat loc) \<longrightarrow>
         ent (zero_mat (fold (body p a b) [0..<n] loc)) i k
           = (if k = p \<and> i < n \<and> c i then a else ent (zero_mat loc) i k))
   \<and> (\<forall>i k. i < n_rows (neg_mat loc) \<longrightarrow> k < n_cols (neg_mat loc) \<longrightarrow>
         ent (neg_mat (fold (body p a b) [0..<n] loc)) i k
           = (if k = p \<and> i < n \<and> c i then b else ent (neg_mat loc) i k))"
  by (induction n) (auto simp: body_def set_at_def less_Suc_eq)

lemma mark_loop_fields:
  "mu1_mat (mark_loop c p n loc) = mu1_mat loc"
  "diag_mu2_mat (mark_loop c p n loc) = diag_mu2_mat loc"
  "n_rows (zero_mat (mark_loop c p n loc)) = n_rows (zero_mat loc)"
  "n_cols (zero_mat (mark_loop c p n loc)) = n_cols (zero_mat loc)"
  "n_rows (neg_mat (mark_loop c p n loc)) = n_rows (neg_mat loc)"
  "n_cols (neg_mat (mark_loop c p n loc)) = n_cols (neg_mat loc)"
  using mark_loop_all [where c=c and p=p and a="Fin 1" and b="Fin 0" and n=n and loc=loc] by (simp_all add: mark_loop_def)

lemma mark_loop_zero:
  assumes "i < n_rows (zero_mat loc)" and "k < n_cols (zero_mat loc)"
  shows "ent (zero_mat (mark_loop c p n loc)) i k
         = (if k = p \<and> i < n \<and> c i then Fin 1 else ent (zero_mat loc) i k)"
  using mark_loop_all [where c=c and p=p and a="Fin 1" and b="Fin 0" and n=n and loc=loc] assms by (simp add: mark_loop_def)

lemma mark_loop_neg:
  assumes "i < n_rows (neg_mat loc)" and "k < n_cols (neg_mat loc)"
  shows "ent (neg_mat (mark_loop c p n loc)) i k
         = (if k = p \<and> i < n \<and> c i then Fin 0 else ent (neg_mat loc) i k)"
  using mark_loop_all [where c=c and p=p and a="Fin 1" and b="Fin 0" and n=n and loc=loc] assms by (simp add: mark_loop_def)

lemma mark_degenerate_eq: "mark_degenerate sigma p loc = mark_loop (\<lambda>r. ent sigma r 0 = 0) p (n_elem sigma) loc"
  by (simp add: mark_degenerate_def mark_loop_def)

lemma ash_vinv_vec_ent:
  assumes "ash_shapes obj" and "j < n_rows (b_vec obj)"
  shows "ent (ash_vinv_vec obj) j 0 = spec_ash_vinv obj j"
  using assms by (simp add: ash_vinv_vec_def spec_ash_vinv_def ash_shapes_def mat_defs)

lemma ash_vinv_vec_dims:
  assumes "ash_shapes obj"
  shows "n_rows (ash_vinv_vec obj) = n_rows (b_vec obj)" and "n_cols (ash_vinv_vec obj) = 1"
  using assms by (simp_all add: ash_vinv_vec_def ash_shapes_def)

lemma minus_Fin_0 [simp]: "x - Fin 0 = x" "x - (0::dbl) = x"
  by (cases x; simp add: minus_dbl_def zero_dbl_def)+

lemma ash_component_result:
  fixes lib :: arma and loc :: locals
  assumes sh: "ash_shapes obj" and p: "p < n_rows (U_vec obj)"
    and J: "J = n_rows (b_vec obj)"
    and dims: "n_rows (mu1_mat loc) = J" "n_cols (mu1_mat loc) = P"
      "n_rows (diag_mu2_mat loc) = J" "n_cols (diag_mu2_mat loc) = P"
      "n_rows (zero_mat loc) = J" "n_cols (zero_mat loc) = P"
      "n_rows (neg_mat loc) = J" "n_cols (neg_mat loc) = P"
    and P: "p < P"
  defines "r \<equiv> ash_component lib obj (ash_vinv_vec obj) (zeros J 1) J p loc"
  shows "n_rows (mu1_mat (snd r)) = J \<and> n_cols (mu1_mat (snd r)) = P
    \<and> n_rows (diag_mu2_mat (snd r)) = J \<and> n_cols (diag_mu2_mat (snd r)) = P
    \<and> n_rows (zero_mat (snd r)) = J \<and> n_cols (zero_mat (snd r)) = P
    \<and> n_rows (neg_mat (snd r)) = J \<and> n_cols (neg_mat (snd r)) = P
    \<and> (\<forall>j<J. ent (fst r) j 0 = spec_ash_var obj j p)
    \<and> (\<forall>j<J. \<forall>k<P. ent (mu1_mat (snd r)) j k
           = (if k = p then spec_ash_mu1 obj j p else ent (mu1_mat loc) j k))
    \<and> (\<forall>j<J. \<forall>k<P. ent (diag_mu2_mat (snd r)) j k
           = (if k = p then spec_ash_mu1 obj j p * spec_ash_mu1 obj j p + spec_ash_var obj j p
              else ent (diag_mu2_mat loc) j k))
    \<and> (\<forall>j<J. \<forall>k<P. ent (zero_mat (snd r)) j k
           = (if k = p \<and> spec_ash_var obj j p = 0 then Fin 1 else ent (zero_mat loc) j k))
    \<and> (\<forall>j<J. \<forall>k<P. ent (neg_mat (snd r)) j k
           = (if k = p then neg_entry lib (spec_ash_mu1 obj j p) (spec_ash_var obj j p)
              else ent (neg_mat loc) j k))"
proof -
  define vinv where "vinv = ash_vinv_vec obj"
  define U1a where "U1a = map_ent (\<lambda>x. ent (U_vec obj) p 0 / x)
                 (map_ent (\<lambda>x. x + Fin 1) (map_ent (\<lambda>x. x * ent (U_vec obj) p 0) vinv))"
  define mu where "mu = schur (schur (schur U1a vinv) (b_vec obj)) (s_alpha_vec obj)"
  define U1 where "U1 = schur U1a (schur (s_alpha_vec obj) (s_alpha_vec obj))"
  define l3 where "l3 = loc\<lparr>mu1_mat := set_col (mu1_mat loc) p mu,
      diag_mu2_mat := set_col (diag_mu2_mat loc) p
                        (mat_add (pow2 (col (set_col (mu1_mat loc) p mu) p)) U1),
      neg_mat := set_col (neg_mat loc) p
               (pnorm lib (col (set_col (mu1_mat loc) p mu) p) (zeros J 1) (map_ent dsqrt U1)
                  False True)\<rparr>"
  have v: "\<And>j. j < J \<Longrightarrow> ent vinv j 0 = spec_ash_vinv obj j"
    "n_rows vinv = J" "n_cols vinv = 1"
    using ash_vinv_vec_ent [OF sh] ash_vinv_vec_dims [OF sh] J by (simp_all add: vinv_def)
  have shp: "n_rows (s_alpha_vec obj) = J" "n_cols (s_alpha_vec obj) = 1"
    "n_rows (b_vec obj) = J" "n_cols (b_vec obj) = 1"
    using sh J by (simp_all add: ash_shapes_def)
  have U1: "\<And>j. j < J \<Longrightarrow> ent U1 j 0 = spec_ash_var obj j p" "n_rows U1 = J" "n_cols U1 = 1"
    using v shp by (simp_all add: U1_def U1a_def spec_ash_var_def spec_ash_U1_def mat_defs)
  have mu: "\<And>j. j < J \<Longrightarrow> ent mu j 0 = spec_ash_mu1 obj j p"
    using v shp by (simp add: mu_def U1a_def spec_ash_mu1_def spec_ash_U1_def mat_defs)
  have r: "r = (U1, mark_loop (\<lambda>j. ent U1 j 0 = 0) p J l3)"
    unfolding r_def ash_component_def Let_def mark_loop_def l3_def U1_def mu_def U1a_def vinv_def
    by simp
  have l3: "mu1_mat l3 = set_col (mu1_mat loc) p mu"
    "diag_mu2_mat l3 = set_col (diag_mu2_mat loc) p
                        (mat_add (pow2 (col (set_col (mu1_mat loc) p mu) p)) U1)"
    "zero_mat l3 = zero_mat loc"
    "neg_mat l3 = set_col (neg_mat loc) p
               (pnorm lib (col (set_col (mu1_mat loc) p mu) p) (zeros J 1) (map_ent dsqrt U1)
                  False True)"
    by (simp_all add: l3_def)
  have g0: "n_rows (mu1_mat (snd r)) = J \<and> n_cols (mu1_mat (snd r)) = P
    \<and> n_rows (diag_mu2_mat (snd r)) = J \<and> n_cols (diag_mu2_mat (snd r)) = P
    \<and> n_rows (zero_mat (snd r)) = J \<and> n_cols (zero_mat (snd r)) = P
    \<and> n_rows (neg_mat (snd r)) = J \<and> n_cols (neg_mat (snd r)) = P"
    using dims by (simp add: r mark_loop_fields l3)
  have g1: "ent (mu1_mat (snd r)) j k = (if k = p then spec_ash_mu1 obj j p else ent (mu1_mat loc) j k)"
    if "j < J" "k < P" for j k
    using that dims mu by (simp add: r mark_loop_fields l3 ent_simps)
  have g2: "ent (diag_mu2_mat (snd r)) j k
            = (if k = p then spec_ash_mu1 obj j p * spec_ash_mu1 obj j p + spec_ash_var obj j p
               else ent (diag_mu2_mat loc) j k)"
    if "j < J" "k < P" for j k
    using that dims P mu U1 by (simp add: r mark_loop_fields l3 ent_simps ent_simps2)
  have g3: "ent (fst r) j 0 = spec_ash_var obj j p" if "j < J" for j
    using U1(1) [OF that] by (simp add: r)
  have g4: "ent (zero_mat (snd r)) j k
            = (if k = p \<and> spec_ash_var obj j p = 0 then Fin 1 else ent (zero_mat loc) j k)"
    if "j < J" "k < P" for j k
    using that dims U1 by (simp add: r mark_loop_zero l3)
  have n3: "ent (neg_mat l3) j k
            = (if k = p
               then Fin (1 / 2) * derfc (erfc lib)
                      (spec_ash_mu1 obj j p / dsqrt (spec_ash_var obj j p) * M_SQRT1_2)
               else ent (neg_mat loc) j k)"
    if "j < J" "k < P" for j k
    using that dims P mu U1
    by (simp add: l3 pnorm_def Let_def ent_simps ent_simps2)
  have g5: "ent (neg_mat (snd r)) j k
            = (if k = p then neg_entry lib (spec_ash_mu1 obj j p) (spec_ash_var obj j p)
               else ent (neg_mat loc) j k)"
    if "j < J" "k < P" for j k
  proof -
    have d: "n_rows (neg_mat l3) = J" "n_cols (neg_mat l3) = P"
      using dims by (simp_all add: l3)
    have "ent (neg_mat (snd r)) j k
          = (if k = p \<and> j < J \<and> ent U1 j 0 = 0 then Fin 0 else ent (neg_mat l3) j k)"
      using that d by (simp add: r mark_loop_neg)
    then show ?thesis
      using n3 [OF that] U1(1) [OF that(1)] that by (auto simp: neg_entry_def zero_dbl_def)
  qed
  show ?thesis
    using g0 g3 g1 g2 g4 g5 by simp
qed

lemma ash_loop_result:
  fixes lib :: arma and loc :: locals
  assumes sh: "ash_shapes obj"
    and J: "J = n_rows (b_vec obj)" and P: "P = n_rows (U_vec obj)"
    and dims: "n_rows (mu1_mat loc) = J" "n_cols (mu1_mat loc) = P"
      "n_rows (diag_mu2_mat loc) = J" "n_cols (diag_mu2_mat loc) = P"
      "n_rows (zero_mat loc) = J" "n_cols (zero_mat loc) = P"
      "n_rows (neg_mat loc) = J" "n_cols (neg_mat loc) = P"
    and n: "n \<le> P"
  defines "r \<equiv> ash_loop lib obj n loc"
  shows "n_rows (mu1_mat r) = J \<and> n_cols (mu1_mat r) = P
    \<and> n_rows (diag_mu2_mat r) = J \<and> n_cols (diag_mu2_mat r) = P
    \<and> n_rows (zero_mat r) = J \<and> n_cols (zero_mat r) = P
    \<and> n_rows (neg_mat r) = J \<and> n_cols (neg_mat r) = P
    \<and> (\<forall>j<J. \<forall>k<P. ent (mu1_mat r) j k
           = (if k < n then spec_ash_mu1 obj j k else ent (mu1_mat loc) j k))
    \<and> (\<forall>j<J. \<forall>k<P. ent (diag_mu2_mat r) j k
           = (if k < n then spec_ash_mu1 obj j k * spec_ash_mu1 obj j k + spec_ash_var obj j k
              else ent (diag_mu2_mat loc) j k))
    \<and> (\<forall>j<J. \<forall>k<P. ent (zero_mat r) j k
           = (if k < n \<and> spec_ash_var obj j k = 0 then Fin 1 else ent (zero_mat loc) j k))
    \<and> (\<forall>j<J. \<forall>k<P. ent (neg_mat r) j k
           = (if k < n then neg_entry lib (spec_ash_mu1 obj j k) (spec_ash_var obj j k)
              else ent (neg_mat loc) j k))"
  using n unfolding r_def
proof (induction n)
  case 0
  show ?case by (simp add: ash_loop_def dims)
next
  case (Suc n)
  let ?l = "ash_loop lib obj n loc"
  have step: "ash_loop lib obj (Suc n) loc
              = snd (ash_component lib obj (ash_vinv_vec obj) (zeros J 1) J n ?l)"
    by (simp add: ash_loop_def J)
  from Suc have IH: "n_rows (mu1_mat ?l) = J" "n_cols (mu1_mat ?l) = P"
      "n_rows (diag_mu2_mat ?l) = J" "n_cols (diag_mu2_mat ?l) = P"
      "n_rows (zero_mat ?l) = J" "n_cols (zero_mat ?l) = P"
      "n_rows (neg_mat ?l) = J" "n_cols (neg_mat ?l) = P"
    and IHe: "\<forall>j<J. \<forall>k<P. ent (mu1_mat ?l) j k
           = (if k < n then spec_ash_mu1 obj j k else ent (mu1_mat loc) j k)"
     "\<forall>j<J. \<forall>k<P. ent (diag_mu2_mat ?l) j k
           = (if k < n then spec_ash_mu1 obj j k * spec_ash_mu1 obj j k + spec_ash_var obj j k
              else ent (diag_mu2_mat loc) j k)"
     "\<forall>j<J. \<forall>k<P. ent (zero_mat ?l) j k
           = (if k < n \<and> spec_ash_var obj j k = 0 then Fin 1 else ent (zero_mat loc) j k)"
     "\<forall>j<J. \<forall>k<P. ent (neg_mat ?l) j k
           = (if k < n then neg_entry lib (spec_ash_mu1 obj j k) (spec_ash_var obj j k)
              else ent (neg_mat loc) j k)"
    by simp_all
  have np: "n < n_rows (U_vec obj)" "n < P" using Suc.prems P by simp_all
  note c = ash_component_result [OF sh np(1) J IH np(2), of lib]
  show ?case
    unfolding step using c IHe by (auto simp: less_Suc_eq)
qed

lemma ash_components_loop:
  assumes "ash_shapes obj"
  shows "ash_components lib obj
         = ash_loop lib obj (n_rows (U_vec obj))
             \<lparr>mu1_mat = zeros (n_rows (b_vec obj)) (n_rows (U_vec obj)),
              diag_mu2_mat = zeros (n_rows (b_vec obj)) (n_rows (U_vec obj)),
              zero_mat = zeros (n_rows (b_vec obj)) (n_rows (U_vec obj)),
              neg_mat = zeros (n_rows (b_vec obj)) (n_rows (U_vec obj))\<rparr>"
  using assms
  by (simp add: ash_components_def ash_loop_def ash_vinv_vec_def ash_shapes_def n_elem_def Let_def)

lemma ash_components_result:
  fixes lib :: arma
  assumes sh: "ash_shapes obj" and j: "j < n_rows (b_vec obj)" and p: "p < n_rows (U_vec obj)"
  shows "ent (mu1_mat (ash_components lib obj)) j p = spec_ash_mu1 obj j p"
    and "ent (diag_mu2_mat (ash_components lib obj)) j p
         = spec_ash_mu1 obj j p * spec_ash_mu1 obj j p + spec_ash_var obj j p"
    and "ent (zero_mat (ash_components lib obj)) j p
         = (if spec_ash_var obj j p = 0 then Fin 1 else Fin 0)"
    and "ent (neg_mat (ash_components lib obj)) j p
         = neg_entry lib (spec_ash_mu1 obj j p) (spec_ash_var obj j p)"
proof -
  let ?J = "n_rows (b_vec obj)" and ?P = "n_rows (U_vec obj)"
  let ?l = "\<lparr>mu1_mat = zeros ?J ?P, diag_mu2_mat = zeros ?J ?P,
              zero_mat = zeros ?J ?P, neg_mat = zeros ?J ?P\<rparr>"
  have r: "ash_components lib obj = ash_loop lib obj ?P ?l"
    using sh by (rule ash_components_loop)
  note t = ash_loop_result [OF sh refl refl, of ?l ?P lib, simplified]
  show "ent (mu1_mat (ash_components lib obj)) j p = spec_ash_mu1 obj j p"
    and "ent (diag_mu2_mat (ash_components lib obj)) j p
         = spec_ash_mu1 obj j p * spec_ash_mu1 obj j p + spec_ash_var obj j p"
    and "ent (zero_mat (ash_components lib obj)) j p
         = (if spec_ash_var obj j p = 0 then Fin 1 else Fin 0)"
    and "ent (neg_mat (ash_components lib obj)) j p
         = neg_entry lib (spec_ash_mu1 obj j p) (spec_ash_var obj j p)"
    unfolding r using t j p by (simp_all add: ent_simps zero_dbl_def)
qed

lemma ash_component_U1:
  assumes sh: "ash_shapes obj" and j: "j < n_rows (b_vec obj)"
  shows "ent (fst (ash_component lib obj (ash_vinv_vec obj) mean J p loc)) j 0 = spec_ash_var obj j p"
  using assms ash_vinv_vec_ent [OF sh j] ash_vinv_vec_dims [OF sh]
  by (simp add: ash_component_def Let_def ent_simps ent_simps2 spec_ash_var_def spec_ash_U1_def
      ash_shapes_def)

lemma ash_no_factorisation:
  "ash_compute_posterior (lib\<lparr>chol := c, inv_mat := i, inv_sympd := sp\<rparr>) obj w
   = ash_compute_posterior lib obj w"
  by (simp add: ash_compute_posterior_def ash_components_def ash_component_def pnorm_def)

lemma ash_ex_fields:
  "b_vec ash_ex = of_rows 2 1 [[1], [2]]" "s_vec ash_ex = of_rows 2 1 [[1], [2]]"
  "s_alpha_vec ash_ex = of_rows 2 1 [[1], [3]]" "v ash_ex = Fin 1"
  "U_vec ash_ex = of_rows 2 1 [[0], [2]]"
  by (simp_all add: ash_ex_def PosteriorASH_new_def Let_def is_empty_def n_elem_def of_rows_def)

section \<open>The loops of the multivariate engine\<close>

lemma dsqrt_eq_0 [simp]: "dsqrt x = 0 \<longleftrightarrow> x = 0"
  by (cases x) (simp_all add: zero_dbl_def)

lemma component_locals_dims:
  "locals_dims R P loc \<Longrightarrow> locals_dims R P (component_locals lib mean p mu1 U1 loc)"
  by (simp add: component_locals_def locals_dims_def Let_def mark_degenerate_eq mark_loop_fields)

lemma component_locals_ent:
  fixes lib :: arma and U1 mu1 :: "dbl mat" and p :: nat
  assumes d: "locals_dims R P loc" and r: "r < R" and k: "k < P"
  defines "n \<equiv> min (n_rows U1) (n_cols U1)"
  defines "l' \<equiv> component_locals lib (zeros R 1) p mu1 U1 loc"
  shows "ent (mu1_mat l') r k = (if k = p then ent mu1 r 0 else ent (mu1_mat loc) r k)"
    and "ent (diag_mu2_mat l') r k
         = (if k = p then ent mu1 r 0 * ent mu1 r 0 + ent (diagvec U1) r 0
            else ent (diag_mu2_mat loc) r k)"
    and "ent (zero_mat l') r k
         = (if k = p \<and> r < n \<and> ent U1 r r = 0 then Fin 1 else ent (zero_mat loc) r k)"
    and "ent (neg_mat l') r k
         = (if k = p
            then (if r < n \<and> ent U1 r r = 0 then Fin 0
                  else Fin (1 / 2) * derfc (erfc lib)
                         (ent mu1 r 0 / ent (map_ent dsqrt (diagvec U1)) r 0 * M_SQRT1_2))
            else ent (neg_mat loc) r k)"
proof -
  define sigma where "sigma = map_ent dsqrt (diagvec U1)"
  define mu where "mu = col (set_col (mu1_mat loc) p mu1) p"
  define l3 where "l3 = loc\<lparr>mu1_mat := set_col (mu1_mat loc) p mu1,
      diag_mu2_mat := set_col (diag_mu2_mat loc) p (mat_add (pow2 mu) (diagvec U1)),
      neg_mat := set_col (neg_mat loc) p (pnorm lib mu (zeros R 1) sigma False True)\<rparr>"
  have l': "l' = mark_loop (\<lambda>r. ent sigma r 0 = 0) p (n_elem sigma) l3"
    unfolding l'_def component_locals_def Let_def mark_degenerate_eq l3_def sigma_def mu_def
    by simp
  have l3: "mu1_mat l3 = set_col (mu1_mat loc) p mu1"
    "diag_mu2_mat l3 = set_col (diag_mu2_mat loc) p (mat_add (pow2 mu) (diagvec U1))"
    "zero_mat l3 = zero_mat loc"
    "neg_mat l3 = set_col (neg_mat loc) p (pnorm lib mu (zeros R 1) sigma False True)"
    by (simp_all add: l3_def)
  have dd: "n_rows (mu1_mat loc) = R" "n_cols (mu1_mat loc) = P"
      "n_rows (diag_mu2_mat loc) = R" "n_cols (diag_mu2_mat loc) = P"
      "n_rows (zero_mat loc) = R" "n_cols (zero_mat loc) = P"
      "n_rows (neg_mat loc) = R" "n_cols (neg_mat loc) = P"
    using d by (simp_all add: locals_dims_def)
  have ne: "n_elem sigma = n"
    by (simp add: sigma_def n_elem_def n_def)
  have sg: "(ent sigma r 0 = 0) = (r < n \<longrightarrow> ent U1 r r = 0)"
    by (auto simp: sigma_def ent_simps ent_simps2 n_def)
  have mu: "k = p \<Longrightarrow> ent mu r 0 = ent mu1 r 0"
    using r k dd by (simp add: mu_def ent_simps)
  show "ent (mu1_mat l') r k = (if k = p then ent mu1 r 0 else ent (mu1_mat loc) r k)"
    using r k dd by (simp add: l' mark_loop_fields l3 ent_simps)
  show "ent (diag_mu2_mat l') r k
         = (if k = p then ent mu1 r 0 * ent mu1 r 0 + ent (diagvec U1) r 0
            else ent (diag_mu2_mat loc) r k)"
    using r k dd mu by (simp add: l' mark_loop_fields l3 ent_simps ent_simps2 mu_def)
  show "ent (zero_mat l') r k
         = (if k = p \<and> r < n \<and> ent U1 r r = 0 then Fin 1 else ent (zero_mat loc) r k)"
    using r k dd sg by (auto simp: l' mark_loop_zero l3 ne)
  have n3: "ent (neg_mat l3) r k
            = (if k = p
               then Fin (1 / 2) * derfc (erfc lib) (ent mu1 r 0 / ent sigma r 0 * M_SQRT1_2)
               else ent (neg_mat loc) r k)"
    using r k dd mu by (simp add: l3 pnorm_def Let_def ent_simps ent_simps2 mu_def)
  have "ent (neg_mat l') r k
        = (if k = p \<and> r < n \<and> ent sigma r 0 = 0 then Fin 0 else ent (neg_mat l3) r k)"
    using r k dd by (simp add: l' mark_loop_neg l3 ne)
  then show "ent (neg_mat l') r k
         = (if k = p
            then (if r < n \<and> ent U1 r r = 0 then Fin 0
                  else Fin (1 / 2) * derfc (erfc lib)
                         (ent mu1 r 0 / ent (map_ent dsqrt (diagvec U1)) r 0 * M_SQRT1_2))
            else ent (neg_mat loc) r k)"
    using n3 sg by (auto simp: sigma_def)
qed

lemma col_set_col_same:
  "p < n_cols M \<Longrightarrow> col (set_col M p w) p = mk_mat (n_rows M) 1 (\<lambda>i k. ent w i 0)"
  by (rule mat_eqI) (auto simp: ent_simps)

lemma mash_component_eq:
  assumes "p < n_cols (mu1_mat loc)"
  shows "mash_component lib w rt j Vinv_j mean p (loc, obj) =
     (case mash_U0 lib obj Vinv_j j p of
        None \<Rightarrow> None
      | Some U0 \<Rightarrow>
          Some (component_locals lib mean p (mash_mu1 obj Vinv_j U0 j) (mash_U1 obj U0 j) loc,
                if rt = 2 \<or> rt = 4
                then obj\<lparr>post_cov :=
                       set_slice (post_cov obj) j
                         (mat_add (slice (post_cov obj) j)
                            (second_moment_term (n_rows (mu1_mat loc)) (ent w p j)
                               (mash_mu1 obj Vinv_j U0 j) (mash_U1 obj U0 j)))\<rparr>
                else obj))"
  using assms
  by (simp add: mash_component_def mash_U0_def mash_mu1_def mash_U1_def component_locals_def
      second_moment_term_def Let_def col_set_col_same split: option.splits)

lemma fold_opt_append:
  "fold_opt f (xs @ ys) st
   = (case fold_opt f xs st of None \<Rightarrow> None | Some st' \<Rightarrow> fold_opt f ys st')"
  by (induction xs arbitrary: st) (simp_all split: option.splits)

lemma fold_opt_upt_Suc:
  "fold_opt f [0..<Suc n] st
   = (case fold_opt f [0..<n] st of None \<Rightarrow> None | Some st' \<Rightarrow> f n st')"
  by (simp add: fold_opt_append split: option.splits)

lemma fold_opt_Suc_SomeD:
  assumes "fold_opt f [0..<Suc n] st = Some st''"
  obtains st' where "fold_opt f [0..<n] st = Some st'" and "f n st' = Some st''"
  using assms unfolding fold_opt_upt_Suc by (auto split: option.splits)

lemma wf_mat_add [simp]: "wf_mat (mat_add A B)"
  by (simp add: mat_add_def)

lemma slice_set_slice:
  assumes "k < n_slices C" and "wf_mat M" and "n_rows M = c_rows C" and "n_cols M = c_cols C"
  shows "slice (set_slice C k M) k = M"
  using assms
  by (intro wf_mat_eqI) (simp_all add: slice_def set_slice_def mk_cube_def)

lemma slice_set_slice_other:
  assumes "k' \<noteq> k" and "k' < n_slices C"
  shows "slice (set_slice C k M) k' = slice C k'"
  using assms
  by (intro mat_eqI) (simp_all add: slice_def set_slice_def mk_cube_def)

lemma cube_dims_set_slice [simp]:
  "c_rows (set_slice C k M) = c_rows C" "c_cols (set_slice C k M) = c_cols C"
  "n_slices (set_slice C k M) = n_slices C"
  by (simp_all add: set_slice_def mk_cube_def)

lemma slice_dims [simp]: "n_rows (slice C k) = c_rows C" "n_cols (slice C k) = c_cols C"
  by (simp_all add: slice_def)

lemma mash_inputs_cong:
  assumes "mash_inputs a = mash_inputs b"
  shows "mash_U0 lib a = mash_U0 lib b" and "mash_mu1 a = mash_mu1 b" and "mash_U1 a = mash_U1 b"
    and "mash_Vinv lib a = mash_Vinv lib b"
    and "U_cube a = U_cube b"
  using assms
  by (auto simp: mash_inputs_def mash_U0_def mash_mu1_def mash_U1_def mash_Vinv_def Let_def
      intro!: ext)

lemma mash_inputs_at_cong:
  assumes "mash_inputs a = mash_inputs b"
  shows "mash_mu1_at lib a = mash_mu1_at lib b" and "mash_U1_at lib a = mash_U1_at lib b"
  using mash_inputs_cong [OF assms]
  by (auto simp: mash_mu1_at_def mash_U1_at_def intro!: ext)

lemma mash_inputs_updates [simp]:
  "mash_inputs (obj\<lparr>post_cov := C\<rparr>) = mash_inputs obj"
  "mash_inputs (obj\<lparr>post_mean := M\<rparr>) = mash_inputs obj"
  "mash_inputs (obj\<lparr>post_var := M\<rparr>) = mash_inputs obj"
  "mash_inputs (obj\<lparr>neg_prob := M\<rparr>) = mash_inputs obj"
  "mash_inputs (obj\<lparr>zero_prob := M\<rparr>) = mash_inputs obj"
  by (simp_all add: mash_inputs_def)

lemma mash_components_result:
  assumes "fold_opt (mash_component lib w rt j Vinv_j (zeros R 1)) [0..<n] (loc, obj)
           = Some (loc', obj')"
    and "locals_dims R P loc" and "n \<le> P" and "j < n_slices (post_cov obj)"
    and "R = n_rows (post_mean obj)"
  shows "(\<forall>p<n. mash_U0 lib obj Vinv_j j p \<noteq> None)
    \<and> locals_dims R P loc'
    \<and> mash_inputs obj' = mash_inputs obj
    \<and> post_mean obj' = post_mean obj \<and> post_var obj' = post_var obj
    \<and> neg_prob obj' = neg_prob obj \<and> zero_prob obj' = zero_prob obj
    \<and> (\<not> (rt = 2 \<or> rt = 4) \<longrightarrow> post_cov obj' = post_cov obj)
    \<and> c_rows (post_cov obj') = c_rows (post_cov obj)
    \<and> c_cols (post_cov obj') = c_cols (post_cov obj)
    \<and> n_slices (post_cov obj') = n_slices (post_cov obj)
    \<and> slice (post_cov obj') j
        = (if rt = 2 \<or> rt = 4
           then mash_cov_acc lib obj w Vinv_j j n (slice (post_cov obj) j)
           else slice (post_cov obj) j)
    \<and> (\<forall>k<n_slices (post_cov obj). k \<noteq> j \<longrightarrow> slice (post_cov obj') k = slice (post_cov obj) k)"
  using assms(1,3)
proof (induction n arbitrary: loc' obj')
  case 0
  then show ?case
    using assms(2) by (simp add: mash_cov_acc_def)
next
  case (Suc n)
  from Suc.prems(1) obtain st where
    st: "fold_opt (mash_component lib w rt j Vinv_j (zeros R 1)) [0..<n] (loc, obj) = Some st"
    and step: "mash_component lib w rt j Vinv_j (zeros R 1) n st = Some (loc', obj')"
    by (rule fold_opt_Suc_SomeD)
  obtain l1 o1 where st1: "st = (l1, o1)" by (cases st)
  have n: "n \<le> P" "n < P" using Suc.prems(2) by simp_all
  note IH = Suc.IH [OF st [unfolded st1] n(1)]
  have d1: "locals_dims R P l1" and i1: "mash_inputs o1 = mash_inputs obj"
    and pm: "post_mean o1 = post_mean obj"
    using IH by blast+
  have nc: "n < n_cols (mu1_mat l1)" using d1 n by (simp add: locals_dims_def)
  have R1: "n_rows (mu1_mat l1) = n_rows (post_mean obj)"
    using d1 assms(5) by (simp add: locals_dims_def)
  note cg = mash_inputs_cong [OF i1] mash_inputs_at_cong [OF i1]
  from step obtain U0 where
    U0: "mash_U0 lib obj Vinv_j j n = Some U0"
    and l': "loc' = component_locals lib (zeros R 1) n (mash_mu1 obj Vinv_j U0 j) (mash_U1 obj U0 j) l1"
    and o': "obj' = (if rt = 2 \<or> rt = 4
                then o1\<lparr>post_cov :=
                       set_slice (post_cov o1) j
                         (mat_add (slice (post_cov o1) j)
                            (second_moment_term (n_rows (post_mean obj)) (ent w n j)
                               (mash_mu1 obj Vinv_j U0 j) (mash_U1 obj U0 j)))\<rparr>
                else o1)"
    unfolding st1 mash_component_eq [OF nc] cg R1 by (auto split: option.splits)
  have mu: "mash_mu1 obj Vinv_j U0 j = mash_mu1_at lib obj Vinv_j j n"
    by (simp add: mash_mu1_at_def U0)
  have U1: "mash_U1 obj U0 j = mash_U1_at lib obj Vinv_j j n"
    by (simp add: mash_U1_at_def U0)
  have a: "\<forall>p<Suc n. mash_U0 lib obj Vinv_j j p \<noteq> None"
    using IH U0 by (auto simp: less_Suc_eq)
  have b: "locals_dims R P loc'"
    unfolding l' using d1 by (rule component_locals_dims)
  have c: "mash_inputs obj' = mash_inputs obj \<and> post_mean obj' = post_mean obj
    \<and> post_var obj' = post_var obj \<and> neg_prob obj' = neg_prob obj \<and> zero_prob obj' = zero_prob obj
    \<and> (\<not> (rt = 2 \<or> rt = 4) \<longrightarrow> post_cov obj' = post_cov obj)
    \<and> c_rows (post_cov obj') = c_rows (post_cov obj)
    \<and> c_cols (post_cov obj') = c_cols (post_cov obj)
    \<and> n_slices (post_cov obj') = n_slices (post_cov obj)"
    unfolding o' using IH by simp
  have js: "j < n_slices (post_cov o1)" using IH assms(4) by simp
  have d: "slice (post_cov obj') j
        = (if rt = 2 \<or> rt = 4
           then mash_cov_acc lib obj w Vinv_j j (Suc n) (slice (post_cov obj) j)
           else slice (post_cov obj) j)"
  proof (cases "rt = 2 \<or> rt = 4")
    case True
    have "slice (post_cov obj') j
          = mat_add (slice (post_cov o1) j)
              (second_moment_term (n_rows (post_mean obj)) (ent w n j)
                 (mash_mu1 obj Vinv_j U0 j) (mash_U1 obj U0 j))"
      unfolding o' using True js by (simp add: slice_set_slice)
    moreover have "slice (post_cov o1) j = mash_cov_acc lib obj w Vinv_j j n (slice (post_cov obj) j)"
      using IH True by simp
    ultimately show ?thesis
      using True by (simp add: mash_cov_acc_def mu U1)
  next
    case False
    then show ?thesis unfolding o' using IH by simp
  qed
  have e: "\<forall>k<n_slices (post_cov obj). k \<noteq> j \<longrightarrow> slice (post_cov obj') k = slice (post_cov obj) k"
    unfolding o' using IH by (auto simp: slice_set_slice_other)
  from a b c d e show ?case by blast
qed

lemma zeros_locals_dims:
  "locals_dims R P \<lparr>mu1_mat = zeros R P, diag_mu2_mat = zeros R P,
                     zero_mat = zeros R P, neg_mat = zeros R P\<rparr>"
  by (simp add: locals_dims_def)

lemma mash_components_locals:
  assumes "fold_opt (mash_component lib w rt j Vinv_j (zeros R 1)) [0..<n] (loc, obj)
           = Some (loc', obj')"
    and "locals_dims R P loc" and "n \<le> P" and "j < n_slices (post_cov obj)"
    and "R = n_rows (post_mean obj)"
  shows "\<forall>r<R. \<forall>k<P.
          ent (mu1_mat loc') r k
            = (if k < n then ent (mash_mu1_at lib obj Vinv_j j k) r 0 else ent (mu1_mat loc) r k)
        \<and> ent (diag_mu2_mat loc') r k
            = (if k < n
               then ent (mash_mu1_at lib obj Vinv_j j k) r 0 * ent (mash_mu1_at lib obj Vinv_j j k) r 0
                    + ent (diagvec (mash_U1_at lib obj Vinv_j j k)) r 0
               else ent (diag_mu2_mat loc) r k)
        \<and> ent (zero_mat loc') r k
            = (if k < n \<and> comp_zero (mash_U1_at lib obj Vinv_j j k) r = Fin 1 then Fin 1
               else ent (zero_mat loc) r k)
        \<and> ent (neg_mat loc') r k
            = (if k < n
               then comp_neg lib (mash_mu1_at lib obj Vinv_j j k) (mash_U1_at lib obj Vinv_j j k) r
               else ent (neg_mat loc) r k)"
  using assms(1,3)
proof (induction n arbitrary: loc' obj')
  case 0
  then show ?case by simp
next
  case (Suc n)
  from Suc.prems(1) obtain st where
    st: "fold_opt (mash_component lib w rt j Vinv_j (zeros R 1)) [0..<n] (loc, obj) = Some st"
    and step: "mash_component lib w rt j Vinv_j (zeros R 1) n st = Some (loc', obj')"
    by (rule fold_opt_Suc_SomeD)
  obtain l1 o1 where st1: "st = (l1, o1)" by (cases st)
  have n: "n \<le> P" "n < P" using Suc.prems(2) by simp_all
  note IH = Suc.IH [OF st [unfolded st1] n(1)]
  note res = mash_components_result [OF st [unfolded st1] assms(2) n(1) assms(4,5)]
  have d1: "locals_dims R P l1" and i1: "mash_inputs o1 = mash_inputs obj"
    using res by blast+
  have nc: "n < n_cols (mu1_mat l1)" using d1 n by (simp add: locals_dims_def)
  note cg = mash_inputs_cong [OF i1] mash_inputs_at_cong [OF i1]
  from step obtain U0 where
    U0: "mash_U0 lib obj Vinv_j j n = Some U0"
    and l': "loc' = component_locals lib (zeros R 1) n (mash_mu1 obj Vinv_j U0 j) (mash_U1 obj U0 j) l1"
    unfolding st1 mash_component_eq [OF nc] cg by (auto split: option.splits)
  have mu: "mash_mu1 obj Vinv_j U0 j = mash_mu1_at lib obj Vinv_j j n"
    by (simp add: mash_mu1_at_def U0)
  have U1: "mash_U1 obj U0 j = mash_U1_at lib obj Vinv_j j n"
    by (simp add: mash_U1_at_def U0)
  show ?case
  proof (intro allI impI)
    fix r k
    assume r: "r < R" and k: "k < P"
    note ce = component_locals_ent [OF d1 r k, of lib n "mash_mu1_at lib obj Vinv_j j n"
        "mash_U1_at lib obj Vinv_j j n"]
    from IH r k have ih: "ent (mu1_mat l1) r k
            = (if k < n then ent (mash_mu1_at lib obj Vinv_j j k) r 0 else ent (mu1_mat loc) r k)"
      "ent (diag_mu2_mat l1) r k
            = (if k < n
               then ent (mash_mu1_at lib obj Vinv_j j k) r 0 * ent (mash_mu1_at lib obj Vinv_j j k) r 0
                    + ent (diagvec (mash_U1_at lib obj Vinv_j j k)) r 0
               else ent (diag_mu2_mat loc) r k)"
      "ent (zero_mat l1) r k
            = (if k < n \<and> comp_zero (mash_U1_at lib obj Vinv_j j k) r = Fin 1 then Fin 1
               else ent (zero_mat loc) r k)"
      "ent (neg_mat l1) r k
            = (if k < n
               then comp_neg lib (mash_mu1_at lib obj Vinv_j j k) (mash_U1_at lib obj Vinv_j j k) r
               else ent (neg_mat loc) r k)"
      by simp_all
    show "ent (mu1_mat loc') r k
            = (if k < Suc n then ent (mash_mu1_at lib obj Vinv_j j k) r 0 else ent (mu1_mat loc) r k)
        \<and> ent (diag_mu2_mat loc') r k
            = (if k < Suc n
               then ent (mash_mu1_at lib obj Vinv_j j k) r 0 * ent (mash_mu1_at lib obj Vinv_j j k) r 0
                    + ent (diagvec (mash_U1_at lib obj Vinv_j j k)) r 0
               else ent (diag_mu2_mat loc) r k)
        \<and> ent (zero_mat loc') r k
            = (if k < Suc n \<and> comp_zero (mash_U1_at lib obj Vinv_j j k) r = Fin 1 then Fin 1
               else ent (zero_mat loc) r k)
        \<and> ent (neg_mat loc') r k
            = (if k < Suc n
               then comp_neg lib (mash_mu1_at lib obj Vinv_j j k) (mash_U1_at lib obj Vinv_j j k) r
               else ent (neg_mat loc) r k)"
      unfolding l' mu U1 ce ih
      by (auto simp: less_Suc_eq comp_zero_def comp_neg_def)
  qed
qed

lemma mash_cov_acc_dims [simp]:
  "n_rows (mash_cov_acc lib obj w Vinv_j j n C) = n_rows C"
  "n_cols (mash_cov_acc lib obj w Vinv_j j n C) = n_cols C"
  by (induction n) (simp_all add: mash_cov_acc_def)

lemma wf_mat_sub [simp]: "wf_mat (mat_sub A B)"
  by (simp add: mat_sub_def)

lemma mash_effect_result:
  assumes eff: "mash_effect lib w rt (zeros R 1) j obj = Some obj'"
    and od: "out_dims R J obj" and js: "j < n_slices (post_cov obj)"
    and P: "P = n_slices (U_cube obj)" and wr: "n_rows w = P"
  shows "mash_Vinv lib obj j \<noteq> None
    \<and> (\<forall>p<P. mash_U0 lib obj (mash_Vinv_at lib obj j) j p \<noteq> None)
    \<and> mash_inputs obj' = mash_inputs obj
    \<and> out_dims R J obj'
    \<and> (\<not> (rt = 2 \<or> rt = 4) \<longrightarrow> post_cov obj' = post_cov obj)
    \<and> c_rows (post_cov obj') = c_rows (post_cov obj)
    \<and> c_cols (post_cov obj') = c_cols (post_cov obj)
    \<and> n_slices (post_cov obj') = n_slices (post_cov obj)
    \<and> (\<forall>k<n_slices (post_cov obj). k \<noteq> j \<longrightarrow> slice (post_cov obj') k = slice (post_cov obj) k)
    \<and> slice (post_cov obj') j
        = (if rt = 4
           then mat_sub (mash_cov_acc lib obj w (mash_Vinv_at lib obj j) j P (slice (post_cov obj) j))
                  (mat_mul (col (post_mean obj') j) (t_mat (col (post_mean obj') j)))
           else if rt = 2
           then mash_cov_acc lib obj w (mash_Vinv_at lib obj j) j P (slice (post_cov obj) j)
           else slice (post_cov obj) j)
    \<and> (\<forall>r<R. \<forall>c<J.
          ent (post_mean obj') r c
            = (if c = j then wmean w P j (\<lambda>p. mash_mean lib obj j p r) else ent (post_mean obj) r c)
        \<and> ent (post_var obj') r c
            = (if c = j then wmean w P j (\<lambda>p. mash_mu2 lib obj j p r) else ent (post_var obj) r c)
        \<and> ent (neg_prob obj') r c
            = (if c = j then wmean w P j (\<lambda>p. mash_neg lib obj j p r) else ent (neg_prob obj) r c)
        \<and> ent (zero_prob obj') r c
            = (if c = j then wmean w P j (\<lambda>p. mash_zero lib obj j p r) else ent (zero_prob obj) r c))"
proof -
  have R: "R = n_rows (post_mean obj)" using od by (simp add: out_dims_def)
  let ?l0 = "\<lparr>mu1_mat = zeros R P, diag_mu2_mat = zeros R P,
               zero_mat = zeros R P, neg_mat = zeros R P\<rparr>"
  from eff obtain Vinv loc o1 where
    V: "mash_Vinv lib obj j = Some Vinv"
    and lp: "fold_opt (mash_component lib w rt j Vinv (zeros R 1)) [0..<P] (?l0, obj) = Some (loc, o1)"
    and o': "obj' = (let o2 = o1\<lparr>post_mean := set_col (post_mean o1) j (mat_mul (mu1_mat loc) (col w j))\<rparr>;
                       o2 = o2\<lparr>post_var := set_col (post_var o2) j (mat_mul (diag_mu2_mat loc) (col w j))\<rparr>;
                       o2 = o2\<lparr>neg_prob := set_col (neg_prob o2) j (mat_mul (neg_mat loc) (col w j))\<rparr>;
                       o2 = o2\<lparr>zero_prob := set_col (zero_prob o2) j (mat_mul (zero_mat loc) (col w j))\<rparr>
                   in if rt = 4
                      then o2\<lparr>post_cov :=
                             set_slice (post_cov o2) j
                               (mat_sub (slice (post_cov o2) j)
                                  (mat_mul (col (post_mean o2) j) (t_mat (col (post_mean o2) j))))\<rparr>
                      else o2)"
    unfolding mash_effect_def mash_Vinv_def [symmetric] Let_def R [symmetric] P [symmetric]
    by (auto split: option.splits)
  have Va: "mash_Vinv_at lib obj j = Vinv" by (simp add: mash_Vinv_at_def V)
  note res = mash_components_result [OF lp zeros_locals_dims order_refl js R]
  note ents = mash_components_locals [OF lp zeros_locals_dims order_refl js R]
  have ld: "locals_dims R P loc" using res by blast
  have o1: "post_mean o1 = post_mean obj" "post_var o1 = post_var obj"
    "neg_prob o1 = neg_prob obj" "zero_prob o1 = zero_prob obj"
    using res by simp_all
  have ldd: "n_rows (mu1_mat loc) = R" "n_cols (mu1_mat loc) = P"
      "n_rows (diag_mu2_mat loc) = R" "n_cols (diag_mu2_mat loc) = P"
      "n_rows (zero_mat loc) = R" "n_cols (zero_mat loc) = P"
      "n_rows (neg_mat loc) = R" "n_cols (neg_mat loc) = P"
    using ld by (simp_all add: locals_dims_def)
  have odd: "n_rows (post_mean obj) = R" "n_cols (post_mean obj) = J"
      "n_rows (post_var obj) = R" "n_cols (post_var obj) = J"
      "n_rows (neg_prob obj) = R" "n_cols (neg_prob obj) = J"
      "n_rows (zero_prob obj) = R" "n_cols (zero_prob obj) = J"
    using od by (simp_all add: out_dims_def)
  have jp: "mash_mu1_at lib obj Vinv j = mash_mu1_jp lib obj j"
    "mash_U1_at lib obj Vinv j = mash_U1_jp lib obj j"
    by (intro ext, simp add: mash_mu1_jp_def mash_U1_jp_def Va)+
  have cw: "ent (col w j) p 0 = ent w p j" if "p < P" for p
    using that wr by (simp add: ent_simps)
  have e1: "ent (mu1_mat loc) r p = mash_mean lib obj j p r"
    and e2: "ent (diag_mu2_mat loc) r p = mash_mu2 lib obj j p r"
    and e3: "ent (neg_mat loc) r p = mash_neg lib obj j p r"
    and e4: "ent (zero_mat loc) r p = mash_zero lib obj j p r"
    if "r < R" "p < P" for r p
    using that ents
    by (auto simp: mash_mean_def mash_mu2_def mash_neg_def mash_zero_def jp comp_zero_def
        ent_simps zero_dbl_def)
  have mm: "ent (mat_mul M (col w j)) r 0 = wmean w P j f"
    if "r < R" "n_rows M = R" "n_cols M = P" "\<And>p. p < P \<Longrightarrow> ent M r p = f p" for M r f
  proof -
    have "(\<Sum>p<P. ent M r p * ent (col w j) p 0) = (\<Sum>p<P. f p * ent w p j)"
      by (rule sum.cong) (simp_all add: that(4) cw)
    then show ?thesis
      using that(1-3) by (simp add: ent_simps2 wmean_def)
  qed
  have m1: "ent (mat_mul (mu1_mat loc) (col w j)) r 0 = wmean w P j (\<lambda>p. mash_mean lib obj j p r)"
    if "r < R" for r
    using that ldd e1 by (intro mm) simp_all
  have m2: "ent (mat_mul (diag_mu2_mat loc) (col w j)) r 0 = wmean w P j (\<lambda>p. mash_mu2 lib obj j p r)"
    if "r < R" for r
    using that ldd e2 by (intro mm) simp_all
  have m3: "ent (mat_mul (neg_mat loc) (col w j)) r 0 = wmean w P j (\<lambda>p. mash_neg lib obj j p r)"
    if "r < R" for r
    using that ldd e3 by (intro mm) simp_all
  have m4: "ent (mat_mul (zero_mat loc) (col w j)) r 0 = wmean w P j (\<lambda>p. mash_zero lib obj j p r)"
    if "r < R" for r
    using that ldd e4 by (intro mm) simp_all
  have a: "mash_Vinv lib obj j \<noteq> None
    \<and> (\<forall>p<P. mash_U0 lib obj (mash_Vinv_at lib obj j) j p \<noteq> None)"
    using V res by (simp add: Va)
  have b: "mash_inputs obj' = mash_inputs obj \<and> out_dims R J obj'
    \<and> (\<not> (rt = 2 \<or> rt = 4) \<longrightarrow> post_cov obj' = post_cov obj)
    \<and> c_rows (post_cov obj') = c_rows (post_cov obj)
    \<and> c_cols (post_cov obj') = c_cols (post_cov obj)
    \<and> n_slices (post_cov obj') = n_slices (post_cov obj)"
    unfolding o' Let_def using res odd by (simp add: out_dims_def)
  have c: "\<forall>k<n_slices (post_cov obj). k \<noteq> j \<longrightarrow> slice (post_cov obj') k = slice (post_cov obj) k"
    unfolding o' Let_def using res by (auto simp: slice_set_slice_other)
  have e: "ent (post_mean obj') r c
            = (if c = j then wmean w P j (\<lambda>p. mash_mean lib obj j p r) else ent (post_mean obj) r c)
        \<and> ent (post_var obj') r c
            = (if c = j then wmean w P j (\<lambda>p. mash_mu2 lib obj j p r) else ent (post_var obj) r c)
        \<and> ent (neg_prob obj') r c
            = (if c = j then wmean w P j (\<lambda>p. mash_neg lib obj j p r) else ent (neg_prob obj) r c)
        \<and> ent (zero_prob obj') r c
            = (if c = j then wmean w P j (\<lambda>p. mash_zero lib obj j p r) else ent (zero_prob obj) r c)"
    if "r < R" "c < J" for r c
    unfolding o' Let_def using that odd o1 m1 m2 m3 m4
    by (simp add: ent_simps)
  have js1: "j < n_slices (post_cov o1)" using res js by simp
  have d: "slice (post_cov obj') j
        = (if rt = 4
           then mat_sub (mash_cov_acc lib obj w (mash_Vinv_at lib obj j) j P (slice (post_cov obj) j))
                  (mat_mul (col (post_mean obj') j) (t_mat (col (post_mean obj') j)))
           else if rt = 2
           then mash_cov_acc lib obj w (mash_Vinv_at lib obj j) j P (slice (post_cov obj) j)
           else slice (post_cov obj) j)"
    unfolding o' Let_def using res js1 by (simp add: Va slice_set_slice)
  from a b c d e show ?thesis by blast
qed

lemma mash_jp_cong:
  assumes "mash_inputs a = mash_inputs b"
  shows "mash_Vinv_at lib a = mash_Vinv_at lib b"
    and "mash_mu1_jp lib a = mash_mu1_jp lib b" and "mash_U1_jp lib a = mash_U1_jp lib b"
    and "mash_mean lib a = mash_mean lib b" and "mash_mu2 lib a = mash_mu2 lib b"
    and "mash_neg lib a = mash_neg lib b" and "mash_zero lib a = mash_zero lib b"
proof -
  note c = mash_inputs_cong [OF assms] mash_inputs_at_cong [OF assms]
  show 1: "mash_Vinv_at lib a = mash_Vinv_at lib b"
    by (intro ext) (simp add: mash_Vinv_at_def c)
  show 2: "mash_mu1_jp lib a = mash_mu1_jp lib b" and 3: "mash_U1_jp lib a = mash_U1_jp lib b"
    by (intro ext, simp add: mash_mu1_jp_def mash_U1_jp_def c 1)+
  show 4: "mash_mean lib a = mash_mean lib b"
    by (intro ext) (simp add: mash_mean_def 2)
  show "mash_mu2 lib a = mash_mu2 lib b"
    by (intro ext) (simp add: mash_mu2_def 4 3)
  show "mash_neg lib a = mash_neg lib b" and "mash_zero lib a = mash_zero lib b"
    by (intro ext, simp add: mash_neg_def mash_zero_def 2 3)+
qed

lemma mash_cov_acc_cong:
  assumes "mash_inputs a = mash_inputs b" and "n_rows (post_mean a) = n_rows (post_mean b)"
  shows "mash_cov_acc lib a = mash_cov_acc lib b"
  using assms mash_inputs_at_cong [OF assms(1)]
  by (intro ext) (simp add: mash_cov_acc_def)

lemma mash_effects_result:
  assumes "fold_opt (mash_effect lib w rt (zeros R 1)) [0..<n] obj = Some obj'"
    and od: "out_dims R J obj" and nJ: "n \<le> J" and ns: "n_slices (post_cov obj) = J"
    and P: "P = n_slices (U_cube obj)" and wr: "n_rows w = P"
  shows "(\<forall>j<n. mash_Vinv lib obj j \<noteq> None
              \<and> (\<forall>p<P. mash_U0 lib obj (mash_Vinv_at lib obj j) j p \<noteq> None))
    \<and> mash_inputs obj' = mash_inputs obj
    \<and> out_dims R J obj'
    \<and> (\<not> (rt = 2 \<or> rt = 4) \<longrightarrow> post_cov obj' = post_cov obj)
    \<and> c_rows (post_cov obj') = c_rows (post_cov obj)
    \<and> c_cols (post_cov obj') = c_cols (post_cov obj)
    \<and> n_slices (post_cov obj') = n_slices (post_cov obj)
    \<and> (\<forall>k<J. slice (post_cov obj') k
                = (if k < n then mash_cov_slice lib obj w rt k else slice (post_cov obj) k))
    \<and> (\<forall>r<R. \<forall>c<J.
          ent (post_mean obj') r c
            = (if c < n then wmean w P c (\<lambda>p. mash_mean lib obj c p r) else ent (post_mean obj) r c)
        \<and> ent (post_var obj') r c
            = (if c < n then wmean w P c (\<lambda>p. mash_mu2 lib obj c p r) else ent (post_var obj) r c)
        \<and> ent (neg_prob obj') r c
            = (if c < n then wmean w P c (\<lambda>p. mash_neg lib obj c p r) else ent (neg_prob obj) r c)
        \<and> ent (zero_prob obj') r c
            = (if c < n then wmean w P c (\<lambda>p. mash_zero lib obj c p r) else ent (zero_prob obj) r c))"
  using assms(1) nJ
proof (induction n arbitrary: obj')
  case 0
  then show ?case using od by simp
next
  case (Suc n)
  from Suc.prems(1) obtain o1 where
    st: "fold_opt (mash_effect lib w rt (zeros R 1)) [0..<n] obj = Some o1"
    and step: "mash_effect lib w rt (zeros R 1) n o1 = Some obj'"
    by (rule fold_opt_Suc_SomeD)
  have n: "n \<le> J" "n < J" using Suc.prems(2) by simp_all
  note IH = Suc.IH [OF st n(1)]
  have i1: "mash_inputs o1 = mash_inputs obj" and od1: "out_dims R J o1"
    and ns1: "n_slices (post_cov o1) = J"
    using IH ns by simp_all
  have P1: "P = n_slices (U_cube o1)"
    using mash_inputs_cong(5) [OF i1] P by simp
  have js: "n < n_slices (post_cov o1)" using ns1 n by simp
  note cg = mash_inputs_cong [OF i1] mash_jp_cong [OF i1]
  have R1: "n_rows (post_mean o1) = n_rows (post_mean obj)"
    using od od1 by (simp add: out_dims_def)
  note ccg = mash_cov_acc_cong [OF i1 R1]
  note er = mash_effect_result [OF step od1 js P1 wr, unfolded cg ccg]
  have a: "\<forall>j<Suc n. mash_Vinv lib obj j \<noteq> None
              \<and> (\<forall>p<P. mash_U0 lib obj (mash_Vinv_at lib obj j) j p \<noteq> None)"
    using IH er by (auto simp: less_Suc_eq)
  have b: "mash_inputs obj' = mash_inputs obj \<and> out_dims R J obj'
    \<and> (\<not> (rt = 2 \<or> rt = 4) \<longrightarrow> post_cov obj' = post_cov obj)
    \<and> c_rows (post_cov obj') = c_rows (post_cov obj)
    \<and> c_cols (post_cov obj') = c_cols (post_cov obj)
    \<and> n_slices (post_cov obj') = n_slices (post_cov obj)"
    using IH er by simp
  have e: "\<forall>r<R. \<forall>c<J.
          ent (post_mean obj') r c
            = (if c < Suc n then wmean w P c (\<lambda>p. mash_mean lib obj c p r) else ent (post_mean obj) r c)
        \<and> ent (post_var obj') r c
            = (if c < Suc n then wmean w P c (\<lambda>p. mash_mu2 lib obj c p r) else ent (post_var obj) r c)
        \<and> ent (neg_prob obj') r c
            = (if c < Suc n then wmean w P c (\<lambda>p. mash_neg lib obj c p r) else ent (neg_prob obj) r c)
        \<and> ent (zero_prob obj') r c
            = (if c < Suc n then wmean w P c (\<lambda>p. mash_zero lib obj c p r) else ent (zero_prob obj) r c)"
    using IH er by (auto simp: less_Suc_eq)
  have rr: "n_rows (post_mean obj') = R" "n_rows (post_mean obj) = R"
    using b od by (simp_all add: out_dims_def)
  have mc: "col (post_mean obj') n = mash_mean_col lib obj w n"
    unfolding mash_mean_col_def col_def rr P [symmetric]
  proof (rule mk_mat_cong)
    fix i k :: nat
    assume "i < R"
    then show "ent (post_mean obj') i n = wmean w P n (\<lambda>p. mash_mean lib obj n p i)"
      using e n by simp
  qed
  have sl: "slice (post_cov o1) n = slice (post_cov obj) n"
    using IH n by simp
  have d: "\<forall>k<J. slice (post_cov obj') k
                = (if k < Suc n then mash_cov_slice lib obj w rt k else slice (post_cov obj) k)"
  proof (intro allI impI)
    fix k assume k: "k < J"
    show "slice (post_cov obj') k
                = (if k < Suc n then mash_cov_slice lib obj w rt k else slice (post_cov obj) k)"
    proof (cases "k = n")
      case True
      then show ?thesis
        using er by (simp add: mash_cov_slice_def Let_def mc sl P)
    next
      case False
      then have "slice (post_cov obj') k = slice (post_cov o1) k"
        using er k ns1 by simp
      then show ?thesis
        using IH k False by (simp add: less_Suc_eq)
    qed
  qed
  from a b d e show ?case by blast
qed

lemma compute_posterior_result:
  assumes cp: "compute_posterior lib obj w rt = Some obj'"
    and od: "out_dims R J obj" and ns: "n_slices (post_cov obj) = J"
    and P: "P = n_slices (U_cube obj)" and wr: "n_rows w = P"
  shows "(\<forall>j<J. mash_Vinv lib obj j \<noteq> None
              \<and> (\<forall>p<P. mash_U0 lib obj (mash_Vinv_at lib obj j) j p \<noteq> None))
    \<and> mash_inputs obj' = mash_inputs obj
    \<and> out_dims R J obj'
    \<and> (\<not> (rt = 2 \<or> rt = 4) \<longrightarrow> post_cov obj' = post_cov obj)
    \<and> c_rows (post_cov obj') = c_rows (post_cov obj)
    \<and> c_cols (post_cov obj') = c_cols (post_cov obj)
    \<and> n_slices (post_cov obj') = n_slices (post_cov obj)
    \<and> (\<forall>k<J. slice (post_cov obj') k = mash_cov_slice lib obj w rt k)
    \<and> (\<forall>r<R. \<forall>c<J.
          ent (post_mean obj') r c = wmean w P c (\<lambda>p. mash_mean lib obj c p r)
        \<and> ent (post_var obj') r c
            = wmean w P c (\<lambda>p. mash_mu2 lib obj c p r)
              - wmean w P c (\<lambda>p. mash_mean lib obj c p r) * wmean w P c (\<lambda>p. mash_mean lib obj c p r)
        \<and> ent (neg_prob obj') r c = wmean w P c (\<lambda>p. mash_neg lib obj c p r)
        \<and> ent (zero_prob obj') r c = wmean w P c (\<lambda>p. mash_zero lib obj c p r))"
proof -
  have RJ: "n_rows (post_mean obj) = R" "n_cols (post_mean obj) = J"
    using od by (simp_all add: out_dims_def)
  from cp obtain o1 where
    lp: "fold_opt (mash_effect lib w rt (zeros R 1)) [0..<J] obj = Some o1"
    and o': "obj' = o1\<lparr>post_var := mat_sub (post_var o1) (pow2 (post_mean o1))\<rparr>"
    unfolding compute_posterior_def Let_def RJ by (auto split: option.splits)
  note er = mash_effects_result [OF lp od order_refl ns P wr]
  have od1: "n_rows (post_mean o1) = R" "n_cols (post_mean o1) = J"
      "n_rows (post_var o1) = R" "n_cols (post_var o1) = J"
      "n_rows (neg_prob o1) = R" "n_cols (neg_prob o1) = J"
      "n_rows (zero_prob o1) = R" "n_cols (zero_prob o1) = J"
    using er by (simp_all add: out_dims_def)
  have a: "(\<forall>j<J. mash_Vinv lib obj j \<noteq> None
              \<and> (\<forall>p<P. mash_U0 lib obj (mash_Vinv_at lib obj j) j p \<noteq> None))"
    using er by blast
  have b: "mash_inputs obj' = mash_inputs obj \<and> out_dims R J obj'
    \<and> (\<not> (rt = 2 \<or> rt = 4) \<longrightarrow> post_cov obj' = post_cov obj)
    \<and> c_rows (post_cov obj') = c_rows (post_cov obj)
    \<and> c_cols (post_cov obj') = c_cols (post_cov obj)
    \<and> n_slices (post_cov obj') = n_slices (post_cov obj)
    \<and> (\<forall>k<J. slice (post_cov obj') k = mash_cov_slice lib obj w rt k)"
    unfolding o' using er od1 by (simp add: out_dims_def)
  have e: "\<forall>r<R. \<forall>c<J.
          ent (post_mean obj') r c = wmean w P c (\<lambda>p. mash_mean lib obj c p r)
        \<and> ent (post_var obj') r c
            = wmean w P c (\<lambda>p. mash_mu2 lib obj c p r)
              - wmean w P c (\<lambda>p. mash_mean lib obj c p r) * wmean w P c (\<lambda>p. mash_mean lib obj c p r)
        \<and> ent (neg_prob obj') r c = wmean w P c (\<lambda>p. mash_neg lib obj c p r)
        \<and> ent (zero_prob obj') r c = wmean w P c (\<lambda>p. mash_zero lib obj c p r)"
    unfolding o' using er od1 by (simp add: ent_simps2)
  from a b e show ?thesis by blast
qed

lemma mash_components_success:
  assumes "\<forall>p<n. mash_U0 lib obj Vinv_j j p \<noteq> None"
    and "locals_dims R P loc" and "n \<le> P" and "j < n_slices (post_cov obj)"
    and "R = n_rows (post_mean obj)"
  shows "fold_opt (mash_component lib w rt j Vinv_j (zeros R 1)) [0..<n] (loc, obj) \<noteq> None"
  using assms(1,3)
proof (induction n)
  case 0
  show ?case by simp
next
  case (Suc n)
  then obtain l1 o1 where
    st: "fold_opt (mash_component lib w rt j Vinv_j (zeros R 1)) [0..<n] (loc, obj) = Some (l1, o1)"
    by (cases "fold_opt (mash_component lib w rt j Vinv_j (zeros R 1)) [0..<n] (loc, obj)") auto
  have n: "n \<le> P" "n < P" using Suc.prems(2) by simp_all
  note res = mash_components_result [OF st assms(2) n(1) assms(4,5)]
  have d1: "locals_dims R P l1" and i1: "mash_inputs o1 = mash_inputs obj"
    using res by blast+
  have nc: "n < n_cols (mu1_mat l1)" using d1 n by (simp add: locals_dims_def)
  note cg = mash_inputs_cong [OF i1]
  have "mash_component lib w rt j Vinv_j (zeros R 1) n (l1, o1) \<noteq> None"
    unfolding mash_component_eq [OF nc] cg using Suc.prems(1) by (auto split: option.splits)
  then show ?case
    unfolding fold_opt_upt_Suc st by simp
qed

lemma mash_effect_success:
  assumes "mash_Vinv lib obj j \<noteq> None"
    and "\<forall>p<P. mash_U0 lib obj (mash_Vinv_at lib obj j) j p \<noteq> None"
    and od: "out_dims R J obj" and js: "j < n_slices (post_cov obj)"
    and P: "P = n_slices (U_cube obj)"
  shows "mash_effect lib w rt (zeros R 1) j obj \<noteq> None"
proof -
  have R: "R = n_rows (post_mean obj)" using od by (simp add: out_dims_def)
  from assms(1) obtain Vinv where V: "mash_Vinv lib obj j = Some Vinv" by auto
  then have Va: "mash_Vinv_at lib obj j = Vinv" by (simp add: mash_Vinv_at_def)
  let ?l0 = "\<lparr>mu1_mat = zeros R P, diag_mu2_mat = zeros R P,
               zero_mat = zeros R P, neg_mat = zeros R P\<rparr>"
  have "fold_opt (mash_component lib w rt j Vinv (zeros R 1)) [0..<P] (?l0, obj) \<noteq> None"
    using assms(2) unfolding Va
    by (intro mash_components_success [OF _ zeros_locals_dims order_refl js R]) simp
  then show ?thesis
    unfolding mash_effect_def mash_Vinv_def [symmetric] V Let_def R [symmetric] P [symmetric]
    by (auto split: option.splits)
qed

lemma compute_posterior_success:
  assumes "\<forall>j<J. mash_Vinv lib obj j \<noteq> None
              \<and> (\<forall>p<P. mash_U0 lib obj (mash_Vinv_at lib obj j) j p \<noteq> None)"
    and od: "out_dims R J obj" and ns: "n_slices (post_cov obj) = J"
    and P: "P = n_slices (U_cube obj)" and wr: "n_rows w = P"
  shows "compute_posterior lib obj w rt \<noteq> None"
proof -
  have RJ: "n_rows (post_mean obj) = R" "n_cols (post_mean obj) = J"
    using od by (simp_all add: out_dims_def)
  have "fold_opt (mash_effect lib w rt (zeros R 1)) [0..<n] obj \<noteq> None" if "n \<le> J" for n
    using that
  proof (induction n)
    case 0
    show ?case by simp
  next
    case (Suc n)
    then obtain o1 where
      st: "fold_opt (mash_effect lib w rt (zeros R 1)) [0..<n] obj = Some o1"
      by (cases "fold_opt (mash_effect lib w rt (zeros R 1)) [0..<n] obj") auto
    have n: "n \<le> J" "n < J" using Suc.prems by simp_all
    note er = mash_effects_result [OF st od n(1) ns P wr]
    have i1: "mash_inputs o1 = mash_inputs obj" and od1: "out_dims R J o1"
      and ns1: "n_slices (post_cov o1) = J"
      using er ns by simp_all
    have P1: "P = n_slices (U_cube o1)"
      using mash_inputs_cong(5) [OF i1] P by simp
    note cg = mash_inputs_cong [OF i1] mash_jp_cong [OF i1]
    have "mash_effect lib w rt (zeros R 1) n o1 \<noteq> None"
      using assms(1) n ns1
      by (intro mash_effect_success [OF _ _ od1 _ P1]) (simp_all add: cg)
    then show ?case
      unfolding fold_opt_upt_Suc st by simp
  qed
  from this [OF order_refl] show ?thesis
    unfolding compute_posterior_def Let_def RJ by (auto split: option.splits)
qed

section \<open>The loops of the engine for a common covariance\<close>

lemma mark_rows_all:
  fixes c :: "nat \<Rightarrow> bool"
  defines "body \<equiv> (\<lambda>a b r (loc::locals).
             if c r
             then loc\<lparr>zero_mat := set_row (zero_mat loc) r a,
                      neg_mat := set_row (neg_mat loc) r b\<rparr>
             else loc)"
  shows "mu1_mat (fold (body a b) [0..<n] loc) = mu1_mat loc
   \<and> diag_mu2_mat (fold (body a b) [0..<n] loc) = diag_mu2_mat loc
   \<and> n_rows (zero_mat (fold (body a b) [0..<n] loc)) = n_rows (zero_mat loc)
   \<and> n_cols (zero_mat (fold (body a b) [0..<n] loc)) = n_cols (zero_mat loc)
   \<and> n_rows (neg_mat (fold (body a b) [0..<n] loc)) = n_rows (neg_mat loc)
   \<and> n_cols (neg_mat (fold (body a b) [0..<n] loc)) = n_cols (neg_mat loc)
   \<and> (\<forall>i k. i < n_rows (zero_mat loc) \<longrightarrow> k < n_cols (zero_mat loc) \<longrightarrow>
         ent (zero_mat (fold (body a b) [0..<n] loc)) i k
           = (if i < n \<and> c i then ent a 0 k else ent (zero_mat loc) i k))
   \<and> (\<forall>i k. i < n_rows (neg_mat loc) \<longrightarrow> k < n_cols (neg_mat loc) \<longrightarrow>
         ent (neg_mat (fold (body a b) [0..<n] loc)) i k
           = (if i < n \<and> c i then ent b 0 k else ent (neg_mat loc) i k))"
  by (induction n) (auto simp: body_def set_row_def less_Suc_eq)

lemma mark_degenerate_rows_fields:
  "mu1_mat (mark_degenerate_rows Svec a b loc) = mu1_mat loc"
  "diag_mu2_mat (mark_degenerate_rows Svec a b loc) = diag_mu2_mat loc"
  "n_rows (zero_mat (mark_degenerate_rows Svec a b loc)) = n_rows (zero_mat loc)"
  "n_cols (zero_mat (mark_degenerate_rows Svec a b loc)) = n_cols (zero_mat loc)"
  "n_rows (neg_mat (mark_degenerate_rows Svec a b loc)) = n_rows (neg_mat loc)"
  "n_cols (neg_mat (mark_degenerate_rows Svec a b loc)) = n_cols (neg_mat loc)"
  using mark_rows_all [where c = "\<lambda>r. ent Svec r 0 = 0" and a = a and b = b
      and n = "n_elem Svec" and loc = loc]
  by (simp_all add: mark_degenerate_rows_def)

lemma mark_degenerate_rows_zero:
  assumes "i < n_rows (zero_mat loc)" and "k < n_cols (zero_mat loc)"
  shows "ent (zero_mat (mark_degenerate_rows Svec a b loc)) i k
         = (if i < n_elem Svec \<and> ent Svec i 0 = 0 then ent a 0 k else ent (zero_mat loc) i k)"
  using mark_rows_all [where c = "\<lambda>r. ent Svec r 0 = 0" and a = a and b = b
      and n = "n_elem Svec" and loc = loc] assms
  by (simp add: mark_degenerate_rows_def)

lemma mark_degenerate_rows_neg:
  assumes "i < n_rows (neg_mat loc)" and "k < n_cols (neg_mat loc)"
  shows "ent (neg_mat (mark_degenerate_rows Svec a b loc)) i k
         = (if i < n_elem Svec \<and> ent Svec i 0 = 0 then ent b 0 k else ent (neg_mat loc) i k)"
  using mark_rows_all [where c = "\<lambda>r. ent Svec r 0 = 0" and a = a and b = b
      and n = "n_elem Svec" and loc = loc] assms
  by (simp add: mark_degenerate_rows_def)

lemma comcov_effects_result:
  fixes w :: "dbl mat" and rt :: int and sigma :: "dbl mat" and obj :: PosteriorMASH
  defines "r \<equiv> (\<lambda>p mu1 U1 Svec n. comcov_effects w rt p mu1 U1 Svec n (sigma, obj))"
  assumes n: "n \<le> n_slices (post_cov obj)"
  shows "n_rows (fst (r p mu1 U1 Svec n)) = n_rows sigma
    \<and> n_cols (fst (r p mu1 U1 Svec n)) = n_cols sigma
    \<and> (\<forall>i<n_rows sigma. \<forall>k<n_cols sigma.
          ent (fst (r p mu1 U1 Svec n)) i k = (if k < n then ent Svec i 0 else ent sigma i k))
    \<and> snd (r p mu1 U1 Svec n) = obj\<lparr>post_cov := post_cov (snd (r p mu1 U1 Svec n))\<rparr>
    \<and> (\<not> (rt = 2 \<or> rt = 4) \<longrightarrow> snd (r p mu1 U1 Svec n) = obj)
    \<and> c_rows (post_cov (snd (r p mu1 U1 Svec n))) = c_rows (post_cov obj)
    \<and> c_cols (post_cov (snd (r p mu1 U1 Svec n))) = c_cols (post_cov obj)
    \<and> n_slices (post_cov (snd (r p mu1 U1 Svec n))) = n_slices (post_cov obj)
    \<and> (\<forall>k<n_slices (post_cov obj).
          slice (post_cov (snd (r p mu1 U1 Svec n))) k
            = (if k < n \<and> (rt = 2 \<or> rt = 4)
               then mat_add (slice (post_cov obj) k)
                      (scal (ent w p k) (mat_add U1 (mat_mul (col mu1 k) (t_mat (col mu1 k)))))
               else slice (post_cov obj) k))"
  using n
proof (induction n)
  case 0
  show ?case by (simp add: r_def comcov_effects_def)
next
  case (Suc n)
  obtain s1 o1 where st: "r p mu1 U1 Svec n = (s1, o1)" by (cases "r p mu1 U1 Svec n")
  have n: "n \<le> n_slices (post_cov obj)" "n < n_slices (post_cov obj)"
    using Suc.prems by simp_all
  note IH = Suc.IH [OF n(1), unfolded st fst_conv snd_conv]
  have step: "r p mu1 U1 Svec (Suc n)
    = (set_col s1 n Svec,
       if rt = 2 \<or> rt = 4
       then o1\<lparr>post_cov :=
              set_slice (post_cov o1) n
                (mat_add (slice (post_cov o1) n)
                   (scal (ent w p n) (mat_add U1 (mat_mul (col mu1 n) (t_mat (col mu1 n))))))\<rparr>
       else o1)"
    using st by (simp add: r_def comcov_effects_def)
  have n1: "n < n_slices (post_cov o1)" using IH n by simp
  have sl: "slice (post_cov o1) n = slice (post_cov obj) n" using IH n by simp
  have o1: "o1\<lparr>post_cov := C\<rparr> = obj\<lparr>post_cov := C\<rparr>" for C
  proof -
    have "o1\<lparr>post_cov := C\<rparr> = (obj\<lparr>post_cov := post_cov o1\<rparr>)\<lparr>post_cov := C\<rparr>"
      using IH by simp
    then show ?thesis by simp
  qed
  show ?case
    unfolding step fst_conv snd_conv
    using IH n n1 sl
    by (auto simp: ent_simps less_Suc_eq slice_set_slice slice_set_slice_other o1)
qed

lemma mash_comcov_component_eq:
  "mash_comcov_component lib w rt Vinv mean a b p (sigma, obj) =
     (case comcov_U0 lib obj Vinv p of
        None \<Rightarrow> None
      | Some U0 \<Rightarrow>
          if n_cols (SE_get (s_obj obj)) = 0 then None
          else
            (let mu1 = comcov_mu1 obj Vinv U0;
                 U1 = comcov_U1 obj U0;
                 st = comcov_effects w rt p mu1 U1 (map_ent dsqrt (diagvec U1)) (n_cols sigma)
                        (sigma, obj);
                 loc = comcov_locals lib mean a b mu1 U1 (fst st)
                         (n_rows (post_mean (snd st))) (n_cols (post_mean (snd st)));
                 o1 = snd st
             in Some (loc, fst st,
                      o1\<lparr>post_mean :=
                            mat_add (post_mean o1) (each_row_schur (mu1_mat loc) (row w p)),
                          post_var :=
                            mat_add (post_var o1) (each_row_schur (diag_mu2_mat loc) (row w p)),
                          neg_prob :=
                            mat_add (neg_prob o1) (each_row_schur (neg_mat loc) (row w p)),
                          zero_prob :=
                            mat_add (zero_prob o1) (each_row_schur (zero_mat loc) (row w p))\<rparr>)))"
  by (simp add: mash_comcov_component_def comcov_U0_def comcov_mu1_def comcov_U1_def
      comcov_effects_def comcov_locals_def col0_def Let_def case_prod_beta
      split: option.splits)

lemma comcov_inputs_cong:
  assumes "mash_inputs a = mash_inputs b"
  shows "comcov_U0 lib a = comcov_U0 lib b" and "comcov_mu1 a = comcov_mu1 b"
    and "comcov_U1 a = comcov_U1 b" and "comcov_Vinv lib a = comcov_Vinv lib b"
    and "comcov_mu1_at lib a = comcov_mu1_at lib b"
    and "comcov_U1_at lib a = comcov_U1_at lib b"
    and "s_obj a = s_obj b"
  using assms
  by (auto simp: mash_inputs_def comcov_U0_def comcov_mu1_def comcov_U1_def comcov_Vinv_def
      comcov_mu1_at_def comcov_U1_at_def Let_def intro!: ext cong: option.case_cong)

lemma comcov_cov_acc_cong:
  assumes "mash_inputs a = mash_inputs b"
  shows "comcov_cov_acc lib a = comcov_cov_acc lib b"
  using comcov_inputs_cong [OF assms] by (auto simp: comcov_cov_acc_def intro!: ext)

lemma comcov_cov_acc_Suc:
  "comcov_cov_acc lib obj w Vinv j (Suc n) C
   = mat_add (comcov_cov_acc lib obj w Vinv j n C)
       (scal (ent w n j)
          (mat_add (comcov_U1_at lib obj Vinv n)
             (mat_mul (col (comcov_mu1_at lib obj Vinv n) j)
                (t_mat (col (comcov_mu1_at lib obj Vinv n) j)))))"
  by (simp add: comcov_cov_acc_def)

lemma comcov_cov_acc_0 [simp]: "comcov_cov_acc lib obj w Vinv j 0 C = C"
  by (simp add: comcov_cov_acc_def)

lemma out_dims_updates:
  "out_dims R J (obj\<lparr>post_cov := C\<rparr>) = out_dims R J obj"
  by (simp add: out_dims_def)

lemma comcov_component_result:
  assumes step: "mash_comcov_component lib w rt Vinv mean a b p (sigma, obj)
                 = Some (loc, sigma', obj')"
    and n: "n_cols sigma = n_slices (post_cov obj)"
  shows "comcov_U0 lib obj Vinv p \<noteq> None"
    and "n_cols (SE_get (s_obj obj)) \<noteq> 0"
    and "mash_inputs obj' = mash_inputs obj"
    and "n_rows sigma' = n_rows sigma" and "n_cols sigma' = n_cols sigma"
    and "out_dims R J obj \<Longrightarrow> out_dims R J obj'"
    and "\<not> (rt = 2 \<or> rt = 4) \<Longrightarrow> post_cov obj' = post_cov obj"
    and "c_rows (post_cov obj') = c_rows (post_cov obj)"
    and "c_cols (post_cov obj') = c_cols (post_cov obj)"
    and "n_slices (post_cov obj') = n_slices (post_cov obj)"
    and "\<forall>k<n_slices (post_cov obj).
          slice (post_cov obj') k
            = (if rt = 2 \<or> rt = 4
               then mat_add (slice (post_cov obj) k)
                      (scal (ent w p k)
                         (mat_add (comcov_U1_at lib obj Vinv p)
                            (mat_mul (col (comcov_mu1_at lib obj Vinv p) k)
                               (t_mat (col (comcov_mu1_at lib obj Vinv p) k)))))
               else slice (post_cov obj) k)"
    and "loc = comcov_locals lib mean a b (comcov_mu1_at lib obj Vinv p)
                 (comcov_U1_at lib obj Vinv p) sigma'
                 (n_rows (post_mean obj)) (n_cols (post_mean obj))"
    and "post_mean obj' = mat_add (post_mean obj) (each_row_schur (mu1_mat loc) (row w p))"
    and "post_var obj' = mat_add (post_var obj) (each_row_schur (diag_mu2_mat loc) (row w p))"
    and "neg_prob obj' = mat_add (neg_prob obj) (each_row_schur (neg_mat loc) (row w p))"
    and "zero_prob obj' = mat_add (zero_prob obj) (each_row_schur (zero_mat loc) (row w p))"
    and "\<forall>i<n_rows sigma. \<forall>k<n_cols sigma.
           ent sigma' i k = ent (map_ent dsqrt (diagvec (comcov_U1_at lib obj Vinv p))) i 0"
proof -
  from step obtain U0 where U0: "comcov_U0 lib obj Vinv p = Some U0"
    and s0: "n_cols (SE_get (s_obj obj)) \<noteq> 0"
    by (auto simp: mash_comcov_component_eq split: option.splits if_splits)
  define mu1 where "mu1 = comcov_mu1 obj Vinv U0"
  define U1 where "U1 = comcov_U1 obj U0"
  define Svec where "Svec = map_ent dsqrt (diagvec U1)"
  define st where "st = comcov_effects w rt p mu1 U1 Svec (n_cols sigma) (sigma, obj)"
  define o1 where "o1 = snd st"
  define l where "l = comcov_locals lib mean a b mu1 U1 (fst st)
                         (n_rows (post_mean o1)) (n_cols (post_mean o1))"
  have at: "comcov_mu1_at lib obj Vinv p = mu1" "comcov_U1_at lib obj Vinv p = U1"
    by (simp_all add: comcov_mu1_at_def comcov_U1_at_def U0 mu1_def U1_def)
  have eq: "mash_comcov_component lib w rt Vinv mean a b p (sigma, obj)
    = Some (l, fst st,
        o1\<lparr>post_mean := mat_add (post_mean o1) (each_row_schur (mu1_mat l) (row w p)),
            post_var := mat_add (post_var o1) (each_row_schur (diag_mu2_mat l) (row w p)),
            neg_prob := mat_add (neg_prob o1) (each_row_schur (neg_mat l) (row w p)),
            zero_prob := mat_add (zero_prob o1) (each_row_schur (zero_mat l) (row w p))\<rparr>)"
    unfolding mash_comcov_component_eq U0 option.case
    using s0 by (simp add: Let_def l_def o1_def st_def Svec_def U1_def mu1_def)
  have res: "loc = l" "sigma' = fst st"
    "obj' = o1\<lparr>post_mean := mat_add (post_mean o1) (each_row_schur (mu1_mat l) (row w p)),
               post_var := mat_add (post_var o1) (each_row_schur (diag_mu2_mat l) (row w p)),
               neg_prob := mat_add (neg_prob o1) (each_row_schur (neg_mat l) (row w p)),
               zero_prob := mat_add (zero_prob o1) (each_row_schur (zero_mat l) (row w p))\<rparr>"
    using step unfolding eq option.inject prod.inject by blast+
  have le: "n_cols sigma \<le> n_slices (post_cov obj)" using n by simp
  note E = comcov_effects_result [OF le, where w = w and rt = rt and p = p and ?mu1.0 = mu1
      and ?U1.0 = U1 and Svec = Svec and sigma = sigma, folded st_def, folded o1_def]
  have o1: "o1 = obj\<lparr>post_cov := post_cov o1\<rparr>" using E by blast
  have pm: "post_mean o1 = post_mean obj" "post_var o1 = post_var obj"
    "neg_prob o1 = neg_prob obj" "zero_prob o1 = zero_prob obj"
    by (subst o1, simp)+
  have in1: "mash_inputs o1 = mash_inputs obj" by (subst o1) simp
  show "comcov_U0 lib obj Vinv p \<noteq> None" using U0 by simp
  show "n_cols (SE_get (s_obj obj)) \<noteq> 0" by (rule s0)
  show "mash_inputs obj' = mash_inputs obj"
    using in1 unfolding res by (simp add: mash_inputs_def)
  show "n_rows sigma' = n_rows sigma" "n_cols sigma' = n_cols sigma"
    using E unfolding res by simp_all
  show "out_dims R J obj \<Longrightarrow> out_dims R J obj'"
    unfolding res out_dims_def by (simp add: pm mat_add_def)
  show "\<not> (rt = 2 \<or> rt = 4) \<Longrightarrow> post_cov obj' = post_cov obj"
    using E unfolding res by simp
  show "c_rows (post_cov obj') = c_rows (post_cov obj)"
    "c_cols (post_cov obj') = c_cols (post_cov obj)"
    "n_slices (post_cov obj') = n_slices (post_cov obj)"
    using E unfolding res by simp_all
  show "\<forall>k<n_slices (post_cov obj).
          slice (post_cov obj') k
            = (if rt = 2 \<or> rt = 4
               then mat_add (slice (post_cov obj) k)
                      (scal (ent w p k)
                         (mat_add (comcov_U1_at lib obj Vinv p)
                            (mat_mul (col (comcov_mu1_at lib obj Vinv p) k)
                               (t_mat (col (comcov_mu1_at lib obj Vinv p) k)))))
               else slice (post_cov obj) k)"
    using E n unfolding res at by simp
  show "loc = comcov_locals lib mean a b (comcov_mu1_at lib obj Vinv p)
                 (comcov_U1_at lib obj Vinv p) sigma'
                 (n_rows (post_mean obj)) (n_cols (post_mean obj))"
    unfolding res at l_def pm ..
  show "post_mean obj' = mat_add (post_mean obj) (each_row_schur (mu1_mat loc) (row w p))"
    "post_var obj' = mat_add (post_var obj) (each_row_schur (diag_mu2_mat loc) (row w p))"
    "neg_prob obj' = mat_add (neg_prob obj) (each_row_schur (neg_mat loc) (row w p))"
    "zero_prob obj' = mat_add (zero_prob obj) (each_row_schur (zero_mat loc) (row w p))"
    unfolding res by (simp_all add: pm)
  show "\<forall>i<n_rows sigma. \<forall>k<n_cols sigma.
           ent sigma' i k = ent (map_ent dsqrt (diagvec (comcov_U1_at lib obj Vinv p))) i 0"
    using E unfolding res at Svec_def by simp
qed

lemma comcov_loop_result:
  assumes "comcov_loop lib w rt Vinv mean a b n (sigma, obj) = Some (sigma', obj')"
    and n: "n_cols sigma = n_slices (post_cov obj)"
  shows "(\<forall>p<n. comcov_U0 lib obj Vinv p \<noteq> None)
    \<and> (0 < n \<longrightarrow> n_cols (SE_get (s_obj obj)) \<noteq> 0)
    \<and> mash_inputs obj' = mash_inputs obj
    \<and> n_rows sigma' = n_rows sigma \<and> n_cols sigma' = n_cols sigma
    \<and> (out_dims R J obj \<longrightarrow> out_dims R J obj')
    \<and> (\<not> (rt = 2 \<or> rt = 4) \<longrightarrow> post_cov obj' = post_cov obj)
    \<and> c_rows (post_cov obj') = c_rows (post_cov obj)
    \<and> c_cols (post_cov obj') = c_cols (post_cov obj)
    \<and> n_slices (post_cov obj') = n_slices (post_cov obj)
    \<and> (\<forall>k<n_slices (post_cov obj).
          slice (post_cov obj') k
            = (if rt = 2 \<or> rt = 4
               then comcov_cov_acc lib obj w Vinv k n (slice (post_cov obj) k)
               else slice (post_cov obj) k))"
  using assms(1)
proof (induction n arbitrary: sigma' obj')
  case 0
  then show ?case by (simp add: comcov_loop_def)
next
  case (Suc n)
  from Suc.prems [unfolded comcov_loop_def] obtain st where
    st: "comcov_loop lib w rt Vinv mean a b n (sigma, obj) = Some st"
    and step: "map_option snd (mash_comcov_component lib w rt Vinv mean a b n st)
               = Some (sigma', obj')"
    unfolding comcov_loop_def by (rule fold_opt_Suc_SomeD)
  obtain s1 o1 where st1: "st = (s1, o1)" by (cases st)
  from step obtain loc where
    c: "mash_comcov_component lib w rt Vinv mean a b n (s1, o1) = Some (loc, sigma', obj')"
    unfolding st1 by (cases "mash_comcov_component lib w rt Vinv mean a b n (s1, o1)") auto
  note IH = Suc.IH [OF st [unfolded st1]]
  have in1: "mash_inputs o1 = mash_inputs obj" using IH by blast
  have n1: "n_cols s1 = n_slices (post_cov o1)" using IH n by simp
  note C = comcov_component_result [OF c n1]
  note cg = comcov_inputs_cong [OF in1]
  have ns: "n_slices (post_cov o1) = n_slices (post_cov obj)" using IH by blast
  have "\<forall>p<Suc n. comcov_U0 lib obj Vinv p \<noteq> None"
    using IH C(1) by (auto simp: less_Suc_eq cg)
  moreover have "n_cols (SE_get (s_obj obj)) \<noteq> 0" using C(2) by (simp add: cg)
  moreover have "mash_inputs obj' = mash_inputs obj" using C(3) in1 by simp
  moreover have "n_rows sigma' = n_rows sigma \<and> n_cols sigma' = n_cols sigma"
    using C(4,5) IH by simp
  moreover have "out_dims R J obj \<longrightarrow> out_dims R J obj'" using C(6) IH by blast
  moreover have "\<not> (rt = 2 \<or> rt = 4) \<longrightarrow> post_cov obj' = post_cov obj"
    using C(7) IH by auto
  moreover have "c_rows (post_cov obj') = c_rows (post_cov obj)
    \<and> c_cols (post_cov obj') = c_cols (post_cov obj)
    \<and> n_slices (post_cov obj') = n_slices (post_cov obj)"
    using C(8,9,10) IH by simp
  moreover have "\<forall>k<n_slices (post_cov obj).
          slice (post_cov obj') k
            = (if rt = 2 \<or> rt = 4
               then comcov_cov_acc lib obj w Vinv k (Suc n) (slice (post_cov obj) k)
               else slice (post_cov obj) k)"
  proof (intro allI impI)
    fix k assume k: "k < n_slices (post_cov obj)"
    have a: "slice (post_cov o1) k
            = (if rt = 2 \<or> rt = 4
               then comcov_cov_acc lib obj w Vinv k n (slice (post_cov obj) k)
               else slice (post_cov obj) k)"
      using IH k by blast
    have b: "slice (post_cov obj') k
            = (if rt = 2 \<or> rt = 4
               then mat_add (slice (post_cov o1) k)
                      (scal (ent w n k)
                         (mat_add (comcov_U1_at lib o1 Vinv n)
                            (mat_mul (col (comcov_mu1_at lib o1 Vinv n) k)
                               (t_mat (col (comcov_mu1_at lib o1 Vinv n) k)))))
               else slice (post_cov o1) k)"
      using C(11) k ns by simp
    show "slice (post_cov obj') k
            = (if rt = 2 \<or> rt = 4
               then comcov_cov_acc lib obj w Vinv k (Suc n) (slice (post_cov obj) k)
               else slice (post_cov obj) k)"
      unfolding b a comcov_cov_acc_Suc cg by simp
  qed
  ultimately show ?case by simp
qed

lemma comcov_center_result:
  assumes "n \<le> n_slices (post_cov obj)"
  shows "comcov_center n obj = obj\<lparr>post_cov := post_cov (comcov_center n obj)\<rparr>
    \<and> c_rows (post_cov (comcov_center n obj)) = c_rows (post_cov obj)
    \<and> c_cols (post_cov (comcov_center n obj)) = c_cols (post_cov obj)
    \<and> n_slices (post_cov (comcov_center n obj)) = n_slices (post_cov obj)
    \<and> (\<forall>k<n_slices (post_cov obj).
          slice (post_cov (comcov_center n obj)) k
            = (if k < n
               then mat_sub (slice (post_cov obj) k)
                      (mat_mul (col (post_mean obj) k) (t_mat (col (post_mean obj) k)))
               else slice (post_cov obj) k))"
  using assms
proof (induction n)
  case 0
  show ?case by (simp add: comcov_center_def)
next
  case (Suc n)
  define o1 where "o1 = comcov_center n obj"
  have n: "n \<le> n_slices (post_cov obj)" "n < n_slices (post_cov obj)"
    using Suc.prems by simp_all
  note IH = Suc.IH [OF n(1), folded o1_def]
  have step: "comcov_center (Suc n) obj
    = o1\<lparr>post_cov :=
           set_slice (post_cov o1) n
             (mat_sub (slice (post_cov o1) n)
                (mat_mul (col (post_mean o1) n) (t_mat (col (post_mean o1) n))))\<rparr>"
    by (simp add: comcov_center_def o1_def)
  have o1: "o1 = obj\<lparr>post_cov := post_cov o1\<rparr>" using IH by blast
  have pm: "post_mean o1 = post_mean obj" by (subst o1) simp
  have o1': "o1\<lparr>post_cov := C\<rparr> = obj\<lparr>post_cov := C\<rparr>" for C
    by (subst o1) simp
  have n1: "n < n_slices (post_cov o1)" using IH n by simp
  have sl: "slice (post_cov o1) n = slice (post_cov obj) n" using IH n by simp
  show ?case
    unfolding step using IH n n1 sl
    by (auto simp: less_Suc_eq slice_set_slice slice_set_slice_other o1' pm)
qed

lemma compute_posterior_comcov_eq:
  "compute_posterior_comcov lib obj w rt =
     (case comcov_Vinv lib obj of
        None \<Rightarrow> None
      | Some Vinv \<Rightarrow>
          (case comcov_loop lib w rt Vinv
                  (zeros (n_rows (post_mean obj)) (n_cols (post_mean obj)))
                  (ones 1 (n_cols (post_mean obj))) (zeros 1 (n_cols (post_mean obj)))
                  (n_slices (U_cube obj))
                  (zeros (n_rows (post_mean obj)) (n_cols (post_mean obj)), obj) of
             None \<Rightarrow> None
           | Some (sigma, o1) \<Rightarrow>
               Some (if rt = 4
                     then comcov_center (n_cols sigma)
                            (o1\<lparr>post_var := mat_sub (post_var o1) (pow2 (post_mean o1))\<rparr>)
                     else o1\<lparr>post_var := mat_sub (post_var o1) (pow2 (post_mean o1))\<rparr>)))"
  by (simp add: compute_posterior_comcov_def comcov_Vinv_def comcov_loop_def comcov_center_def
      Let_def split: option.splits)

lemma compute_posterior_comcov_result:
  assumes cp: "compute_posterior_comcov lib obj w rt = Some obj'"
    and ns: "n_cols (post_mean obj) = n_slices (post_cov obj)"
  shows "comcov_Vinv lib obj \<noteq> None"
    and "\<forall>p<n_slices (U_cube obj). comcov_U0 lib obj (or_empty (comcov_Vinv lib obj)) p \<noteq> None"
    and "0 < n_slices (U_cube obj) \<Longrightarrow> n_cols (SE_get (s_obj obj)) \<noteq> 0"
    and "mash_inputs obj' = mash_inputs obj"
    and "out_dims R J obj \<Longrightarrow> out_dims R J obj'"
    and "\<not> (rt = 2 \<or> rt = 4) \<Longrightarrow> post_cov obj' = post_cov obj"
    and "c_rows (post_cov obj') = c_rows (post_cov obj)"
    and "c_cols (post_cov obj') = c_cols (post_cov obj)"
    and "n_slices (post_cov obj') = n_slices (post_cov obj)"
    and "\<forall>k<n_slices (post_cov obj).
           slice (post_cov obj') k = comcov_cov_slice lib obj w rt k (col (post_mean obj') k)"
proof -
  define Z where "Z = (zeros (n_rows (post_mean obj)) (n_cols (post_mean obj)) :: dbl mat)"
  define a where "a = (ones 1 (n_cols (post_mean obj)) :: dbl mat)"
  define b where "b = (zeros 1 (n_cols (post_mean obj)) :: dbl mat)"
  from cp obtain Vinv sigma o1 where V: "comcov_Vinv lib obj = Some Vinv"
    and L: "comcov_loop lib w rt Vinv Z a b (n_slices (U_cube obj)) (Z, obj) = Some (sigma, o1)"
    and R: "obj' = (if rt = 4
                     then comcov_center (n_cols sigma)
                            (o1\<lparr>post_var := mat_sub (post_var o1) (pow2 (post_mean o1))\<rparr>)
                     else o1\<lparr>post_var := mat_sub (post_var o1) (pow2 (post_mean o1))\<rparr>)"
    unfolding compute_posterior_comcov_eq Z_def a_def b_def
    by (auto split: option.splits)
  define o2 where "o2 = o1\<lparr>post_var := mat_sub (post_var o1) (pow2 (post_mean o1))\<rparr>"
  have nz: "n_cols Z = n_slices (post_cov obj)" using ns by (simp add: Z_def zeros_def)
  note LR = comcov_loop_result [OF L nz]
  have sg: "n_cols sigma = n_slices (post_cov obj)" using LR nz by simp
  have o2f: "post_cov o2 = post_cov o1" "post_mean o2 = post_mean o1"
    "mash_inputs o2 = mash_inputs o1"
    by (simp_all add: o2_def)
  have o2d: "out_dims R J o1 \<Longrightarrow> out_dims R J o2" for R J
    by (simp add: o2_def out_dims_def mat_sub_def)
  have le: "n_cols sigma \<le> n_slices (post_cov o2)" using sg LR o2f by simp
  note CR = comcov_center_result [OF le]
  define o3 where "o3 = comcov_center (n_cols sigma) o2"
  have o3: "o3 = o2\<lparr>post_cov := post_cov o3\<rparr>" using CR unfolding o3_def by blast
  have o3f: "mash_inputs o3 = mash_inputs o2" "post_mean o3 = post_mean o2"
    "out_dims R J o3 = out_dims R J o2" for R J
    by (subst o3, simp add: out_dims_def)+
  have R': "obj' = (if rt = 4 then o3 else o2)" using R by (simp add: o3_def o2_def)
  show "comcov_Vinv lib obj \<noteq> None" using V by simp
  show "\<forall>p<n_slices (U_cube obj). comcov_U0 lib obj (or_empty (comcov_Vinv lib obj)) p \<noteq> None"
    using LR by (simp add: V)
  show "0 < n_slices (U_cube obj) \<Longrightarrow> n_cols (SE_get (s_obj obj)) \<noteq> 0"
    using LR by simp
  show "mash_inputs obj' = mash_inputs obj"
    using LR o2f o3f by (simp add: R')
  show "out_dims R J obj \<Longrightarrow> out_dims R J obj'"
    using LR [where R = R and J = J] o2d [of R J] o3f by (simp add: R')
  show "\<not> (rt = 2 \<or> rt = 4) \<Longrightarrow> post_cov obj' = post_cov obj"
    using LR o2f by (simp add: R')
  show "c_rows (post_cov obj') = c_rows (post_cov obj)"
    "c_cols (post_cov obj') = c_cols (post_cov obj)"
    "n_slices (post_cov obj') = n_slices (post_cov obj)"
    using LR o2f CR [folded o3_def] by (simp_all add: R')
  show "\<forall>k<n_slices (post_cov obj).
           slice (post_cov obj') k = comcov_cov_slice lib obj w rt k (col (post_mean obj') k)"
  proof (intro allI impI)
    fix k assume k: "k < n_slices (post_cov obj)"
    have a: "slice (post_cov o1) k
            = (if rt = 2 \<or> rt = 4
               then comcov_cov_acc lib obj w Vinv k (n_slices (U_cube obj)) (slice (post_cov obj) k)
               else slice (post_cov obj) k)"
      using LR k by blast
    have k2: "k < n_slices (post_cov o2)" "k < n_cols sigma" using k LR o2f sg by simp_all
    have b: "slice (post_cov o3) k
             = mat_sub (slice (post_cov o2) k)
                      (mat_mul (col (post_mean o2) k) (t_mat (col (post_mean o2) k)))"
      using CR [folded o3_def] k2 by simp
    show "slice (post_cov obj') k = comcov_cov_slice lib obj w rt k (col (post_mean obj') k)"
      unfolding R' comcov_cov_slice_def V or_empty.simps Let_def
      using a b by (simp add: o2f o3f)
  qed
qed

lemma comcov_component_success:
  assumes "comcov_U0 lib obj Vinv p \<noteq> None" and "n_cols (SE_get (s_obj obj)) \<noteq> 0"
  shows "mash_comcov_component lib w rt Vinv mean a b p (sigma, obj) \<noteq> None"
  using assms by (auto simp: mash_comcov_component_eq Let_def)

lemma comcov_loop_success:
  assumes "\<forall>p<n. comcov_U0 lib obj Vinv p \<noteq> None"
    and "0 < n \<longrightarrow> n_cols (SE_get (s_obj obj)) \<noteq> 0"
    and n: "n_cols sigma = n_slices (post_cov obj)"
  shows "comcov_loop lib w rt Vinv mean a b n (sigma, obj) \<noteq> None"
  using assms(1,2)
proof (induction n)
  case 0
  show ?case by (simp add: comcov_loop_def)
next
  case (Suc n)
  from Suc have "comcov_loop lib w rt Vinv mean a b n (sigma, obj) \<noteq> None"
    by (cases n) (auto simp: comcov_loop_def)
  then obtain s1 o1 where
    st: "comcov_loop lib w rt Vinv mean a b n (sigma, obj) = Some (s1, o1)" by auto
  note LR = comcov_loop_result [OF st n]
  have in1: "mash_inputs o1 = mash_inputs obj" using LR by blast
  note cg = comcov_inputs_cong [OF in1]
  have "mash_comcov_component lib w rt Vinv mean a b n (s1, o1) \<noteq> None"
    using Suc.prems by (intro comcov_component_success) (simp_all add: cg)
  then show ?case
    using st unfolding comcov_loop_def fold_opt_upt_Suc by auto
qed

lemma compute_posterior_comcov_success:
  assumes "comcov_Vinv lib obj \<noteq> None"
    and "\<forall>p<n_slices (U_cube obj). comcov_U0 lib obj (or_empty (comcov_Vinv lib obj)) p \<noteq> None"
    and "0 < n_slices (U_cube obj) \<longrightarrow> n_cols (SE_get (s_obj obj)) \<noteq> 0"
    and "n_cols (post_mean obj) = n_slices (post_cov obj)"
  shows "compute_posterior_comcov lib obj w rt \<noteq> None"
proof -
  from assms(1) obtain Vinv where V: "comcov_Vinv lib obj = Some Vinv" by auto
  have "comcov_loop lib w rt Vinv
                  (zeros (n_rows (post_mean obj)) (n_cols (post_mean obj)))
                  (ones 1 (n_cols (post_mean obj))) (zeros 1 (n_cols (post_mean obj)))
                  (n_slices (U_cube obj))
                  (zeros (n_rows (post_mean obj)) (n_cols (post_mean obj)), obj) \<noteq> None"
    using assms(2,3,4) by (intro comcov_loop_success) (simp_all add: V zeros_def)
  then show ?thesis
    unfolding compute_posterior_comcov_eq V by (auto split: option.splits)
qed

section \<open>An input with one condition and two components\<close>

lemma m11_basic [simp]:
  "n_rows (m11 x) = 1" "n_cols (m11 x) = 1" "ent (m11 x) 0 0 = Fin x" "wf_mat (m11 x)"
  "\<not> is_empty (m11 x)" "n_elem (m11 x) = 1"
  by (simp_all add: m11_def of_rows_def is_empty_def n_elem_def)

lemma m11I:
  assumes "wf_mat M" and "n_rows M = 1" and "n_cols M = 1" and "ent M 0 0 = Fin a"
  shows "M = m11 a"
  using assms by (intro wf_mat_eqI) simp_all

lemma wf_ops2 [simp]:
  "wf_mat (ones r c)" "wf_mat (row M i)" "wf_mat (map_ent f M)" "wf_mat (schur A B)"
  "wf_mat (mat_div A B)" "wf_mat (scal y A)" "wf_mat (mat_mul A B)"
  "wf_mat (each_col_schur A B)" "wf_mat (each_row_schur A B)" "wf_mat (each_col_add A B)"
  "wf_mat (diagvec A)" "wf_mat (add_diag A y)" "wf_mat (pow2 A)" "wf_mat (slice C k)"
  "wf_mat (empty_mat :: dbl mat)"
  by (simp_all add: mat_defs slice_def empty_mat_def)

lemma m11_inject [simp]: "m11 a = m11 b \<longleftrightarrow> a = b"
proof
  assume "m11 a = m11 b"
  then have "ent (m11 a) 0 0 = ent (m11 b) 0 0" by simp
  then show "a = b" by simp
qed simp

lemma Fin_minus [simp]: "Fin a - Fin b = Fin (a - b)"
  by (simp add: minus_dbl_def)

lemma m11_ops [simp]:
  "col (m11 a) 0 = m11 a" "row (m11 a) 0 = m11 a" "t_mat (m11 a) = m11 a"
  "mat_mul (m11 a) (m11 b) = m11 (a * b)"
  "mat_add (m11 a) (m11 b) = m11 (a + b)"
  "mat_sub (m11 a) (m11 b) = m11 (a - b)"
  "schur (m11 a) (m11 b) = m11 (a * b)"
  "each_row_schur (m11 a) (m11 b) = m11 (a * b)"
  "each_col_schur (m11 a) (m11 b) = m11 (a * b)"
  "each_col_add (m11 a) (m11 b) = m11 (a + b)"
  "scal (Fin c) (m11 a) = m11 (c * a)"
  "diagvec (m11 a) = m11 a"
  "add_diag (m11 a) (Fin c) = m11 (a + c)"
  "pow2 (m11 a) = m11 (a * a)"
  "ones 1 1 = m11 1" "zeros 1 1 = m11 0"
  "ones (Suc 0) (Suc 0) = m11 1" "zeros (Suc 0) (Suc 0) = m11 0"
  "0 \<le> a \<Longrightarrow> map_ent dsqrt (m11 a) = m11 (sqrt a)"
  by (rule m11I; simp add: ent_simps ent_simps2 one_dbl_def zero_dbl_def)+

lemma m11_lib [simp]:
  "inv_mat diag_lib (m11 a) = (if a \<noteq> 0 then Some (m11 (1 / a)) else None)"
  "inv_sympd diag_lib (m11 a) = (if 0 < a then Some (m11 (1 / a)) else None)"
  "chol diag_lib (m11 a) = (if 0 < a then Some (m11 (sqrt a)) else None)"
  by (auto simp: diag_lib_def diag_inv_def diag_inv_sympd_def diag_chol_def diag_with_def
      intro!: m11I)

lemma m11_cov [simp]:
  "get_cov (m11 sv) (m11 vv) empty_mat = m11 (vv * sv * sv)"
  "get_posterior_cov diag_lib (m11 a) (m11 u)
   = (if a * u + 1 \<noteq> 0 then Some (m11 (u / (a * u + 1))) else None)"
  "get_posterior_mean (m11 bb) (m11 a) (m11 u) = m11 (u * a * bb)"
  "get_posterior_mean_mat (m11 bb) (m11 a) (m11 u) = m11 (u * a * bb)"
  by (simp_all add: get_cov_def get_posterior_cov_def get_posterior_mean_def
      get_posterior_mean_mat_def is_empty_def n_elem_def empty_mat_def)

lemma mash_ex_fields:
  "b_mat mash_ex = m11 1" "SE_get (s_obj mash_ex) = m11 1"
  "SE_get_original (s_obj mash_ex) = m11 1" "v_mat mash_ex = m11 1"
  "l_mat mash_ex = empty_mat" "a_mat mash_ex = empty_mat"
  "U_cube mash_ex = c112 1 0"
  "Vinv_cube mash_ex = empty_cube" "U0_cube mash_ex = empty_cube"
  "post_mean mash_ex = m11 0" "post_var mash_ex = m11 0"
  "neg_prob mash_ex = m11 0" "zero_prob mash_ex = m11 0"
  "post_cov mash_ex = cube_zeros 1 1 1"
  by (simp_all add: mash_ex_def PosteriorMASH_new_def Let_def SE_set_def SE_new_def
      SE_set_original_def SE_get_original_def SE_get_def is_empty_def n_elem_def empty_mat_def)

lemma ex_slices [simp]:
  "slice (c112 a b) 0 = m11 a"
  "slice (c112 a b) (Suc 0) = m11 b"
  "n_slices (c112 a b) = 2" "c_rows (c112 a b) = 1" "c_cols (c112 a b) = 1"
  "\<not> cube_is_empty (c112 a b)"
  "cube_is_empty (empty_cube :: dbl cube)"
  "is_empty (empty_mat :: dbl mat)"
  "erfc diag_lib = erfc_ex"
  by (rule m11I | simp add: slice_def c112_def of_slices_def mk_cube_def cube_is_empty_def
      empty_cube_def is_empty_def n_elem_def empty_mat_def diag_lib_def)+

lemma mash_ex_dims:
  "out_dims 1 1 mash_ex" "out_dims (Suc 0) (Suc 0) mash_ex" "n_slices (post_cov mash_ex) = 1" "n_slices (U_cube mash_ex) = 2"
  "n_rows mash_ex_w = 2" "n_rows (post_mean mash_ex) = 1" "n_cols (post_mean mash_ex) = 1"
  "ent mash_ex_w 0 0 = Fin (1 / 2)" "ent mash_ex_w 1 0 = Fin (1 / 2)"
  "ent mash_ex_w (Suc 0) 0 = Fin (1 / 2)"
  by (simp_all add: mash_ex_fields out_dims_def mash_ex_w_def cube_zeros_def mk_cube_def
      of_rows_def)

lemma mash_ex_Vinv: "mash_Vinv diag_lib mash_ex 0 = Some (m11 1)"
  "mash_Vinv_at diag_lib mash_ex 0 = m11 1"
  by (simp_all add: mash_Vinv_at_def mash_Vinv_def mash_ex_fields)

lemma mash_ex_U0:
  "mash_U0 diag_lib mash_ex (m11 1) 0 0 = Some (m11 (1 / 2))"
  "mash_U0 diag_lib mash_ex (m11 1) 0 (Suc 0) = Some (m11 0)"
  by (simp_all add: mash_U0_def mash_ex_fields)

lemma mash_ex_comp:
  "mash_mu1_jp diag_lib mash_ex 0 0 = m11 (1 / 2)"
  "mash_U1_jp diag_lib mash_ex 0 0 = m11 (1 / 2)"
  "mash_mu1_jp diag_lib mash_ex 0 (Suc 0) = m11 0"
  "mash_U1_jp diag_lib mash_ex 0 (Suc 0) = m11 0"
  by (simp_all add: mash_mu1_jp_def mash_U1_jp_def mash_mu1_at_def mash_U1_at_def mash_ex_Vinv
      mash_ex_U0 mash_mu1_def mash_U1_def mash_ex_fields Let_def)

lemma lessThan_2: "{..<2::nat} = {0, Suc 0}"
  by auto

lemma wmean_2: "wmean w 2 j f = f 0 * ent w 0 j + f (Suc 0) * ent w (Suc 0) j"
  by (simp add: wmean_def lessThan_2)

lemma mash_ex_stats:
  "mash_mean diag_lib mash_ex 0 0 0 = Fin (1 / 2)"
  "mash_mean diag_lib mash_ex 0 (Suc 0) 0 = Fin 0"
  "mash_mu2 diag_lib mash_ex 0 0 0 = Fin (3 / 4)"
  "mash_mu2 diag_lib mash_ex 0 (Suc 0) 0 = Fin 0"
  "mash_zero diag_lib mash_ex 0 0 0 = Fin 0"
  "mash_zero diag_lib mash_ex 0 (Suc 0) 0 = Fin 1"
  "mash_neg diag_lib mash_ex 0 (Suc 0) 0 = Fin 0"
  by (simp_all add: mash_mean_def mash_mu2_def mash_zero_def mash_neg_def mash_ex_comp
      comp_zero_def comp_neg_def zero_dbl_def)

lemma mash_ex_neg:
  "mash_neg diag_lib mash_ex 0 0 0 = Fin (1 / 3)"
proof -
  have "sqrt (1 / 2) * sqrt 2 = 1"
    by (simp add: real_sqrt_mult [symmetric])
  then have "1 / 2 / sqrt (1 / 2) * (1 / sqrt 2) = (1 / 2 :: real)"
    by (simp add: field_simps)
  then show ?thesis
    by (simp add: mash_neg_def mash_ex_comp comp_neg_def zero_dbl_def M_SQRT1_2_def
        erfc_ex_def real_sqrt_divide)
qed

lemma mash_ex_success:
  "compute_posterior diag_lib mash_ex mash_ex_w rt \<noteq> None"
  by (rule compute_posterior_success [where R = 1 and J = 1])
     (simp_all add: mash_ex_dims mash_ex_Vinv mash_ex_U0 less_Suc_eq numeral_2_eq_2)

lemma mash_ex_comcov:
  "comcov_Vinv diag_lib mash_ex = Some (m11 1)"
  "comcov_U0 diag_lib mash_ex (m11 1) 0 = Some (m11 (1 / 2))"
  "comcov_U0 diag_lib mash_ex (m11 1) (Suc 0) = Some (m11 0)"
  "comcov_mu1_at diag_lib mash_ex (m11 1) 0 = m11 (1 / 2)"
  "comcov_U1_at diag_lib mash_ex (m11 1) 0 = m11 (1 / 2)"
  "comcov_mu1_at diag_lib mash_ex (m11 1) (Suc 0) = m11 0"
  "comcov_U1_at diag_lib mash_ex (m11 1) (Suc 0) = m11 0"
  by (simp_all add: comcov_Vinv_def comcov_U0_def comcov_mu1_at_def comcov_U1_at_def
      comcov_mu1_def comcov_U1_def mash_ex_fields col0_def Let_def)

lemma cube_zeros_dims [simp]:
  "c_rows (cube_zeros r c n :: dbl cube) = r" "c_cols (cube_zeros r c n :: dbl cube) = c"
  "n_slices (cube_zeros r c n :: dbl cube) = n"
  by (simp_all add: cube_zeros_def mk_cube_def)

lemma mash_ex_comcov_success:
  "compute_posterior_comcov diag_lib mash_ex mash_ex_w rt \<noteq> None"
  by (rule compute_posterior_comcov_success)
     (simp_all add: mash_ex_dims mash_ex_comcov less_Suc_eq numeral_2_eq_2 mash_ex_fields)

lemma m11_second_moment [simp]:
  "second_moment_term 1 (Fin c) (m11 a) (m11 u) = m11 (c * (u + a * a))"
  "second_moment_term (Suc 0) (Fin c) (m11 a) (m11 u) = m11 (c * (u + a * a))"
proof -
  have "mk_mat 1 1 (\<lambda>i k. ent (m11 a) i 0) = m11 a"
    by (rule m11I) simp_all
  then show "second_moment_term 1 (Fin c) (m11 a) (m11 u) = m11 (c * (u + a * a))"
    by (simp add: second_moment_term_def)
  then show "second_moment_term (Suc 0) (Fin c) (m11 a) (m11 u) = m11 (c * (u + a * a))"
    by simp
qed

lemma slice_cube_zeros [simp]: "slice (cube_zeros r c n) k = zeros r c"
  by (rule mat_eqI) (simp_all add: slice_def cube_zeros_def mk_cube_def zeros_def)

lemma mash_ex_cov_acc:
  "mash_cov_acc diag_lib mash_ex mash_ex_w (m11 1) 0 2 (slice (post_cov mash_ex) 0) = m11 (3 / 8)"
  "comcov_cov_acc diag_lib mash_ex mash_ex_w (m11 1) 0 2 (slice (post_cov mash_ex) 0) = m11 (3 / 8)"
  using mash_ex_comp [unfolded mash_mu1_jp_def mash_U1_jp_def mash_ex_Vinv]
  by (simp_all add: mash_cov_acc_def comcov_cov_acc_def numeral_2_eq_2 mash_ex_dims
      mash_ex_comcov mash_ex_fields)

section \<open>The report type and the posterior covariance\<close>

lemma PosteriorMASH_new_dims:
  fixes bm sm sal sor vm lm am :: "dbl mat" and Uc :: "dbl cube"
  defines "Q \<equiv> (if \<not> is_empty am then n_rows am else n_rows bm)"
  defines "obj \<equiv> PosteriorMASH_new bm sm sal sor vm lm am Uc"
  shows "out_dims Q (n_cols bm) obj"
    and "post_cov obj = cube_zeros Q Q (n_cols bm)"
    and "n_slices (post_cov obj) = n_cols bm"
    and "c_rows (post_cov obj) = Q" and "c_cols (post_cov obj) = Q"
    and "U_cube obj = Uc"
  by (simp_all add: obj_def Q_def PosteriorMASH_new_def Let_def out_dims_def)

text \<open>
  Claim C2, as the code has it.  The constructor fills \<^verbatim>\<open>post_cov\<close> with zeros.  A call of
  \<^verbatim>\<open>compute_posterior\<close> or of \<^verbatim>\<open>compute_posterior_comcov\<close> that returns has left
  \<^verbatim>\<open>post_cov\<close> exactly as it was unless the report type is 2 or 4: the report types 1 and 3
  (and every other number) skip the accumulation.  For the report types 2 and 4 every slice
  holds the weighted second moments of the components added to what it held, and for the
  report type 4 the outer product of the posterior mean of the effect is subtracted.
\<close>

theorem post_cov_report_type_gating:
  assumes "out_dims R J obj" and "n_slices (post_cov obj) = J"
    and "n_rows w = n_slices (U_cube obj)"
  shows "post_cov (PosteriorMASH_new bm sm sal sor vm lm am Uc)
           = cube_zeros (if \<not> is_empty am then n_rows am else n_rows bm)
               (if \<not> is_empty am then n_rows am else n_rows bm) (n_cols bm)
    \<and> (compute_posterior lib obj w rt = Some obj' \<longrightarrow>
          (if rt = 2 \<or> rt = 4
           then \<forall>k<J. slice (post_cov obj') k = mash_cov_slice lib obj w rt k
           else post_cov obj' = post_cov obj))
    \<and> (compute_posterior_comcov lib obj w rt = Some obj'' \<longrightarrow>
          (if rt = 2 \<or> rt = 4
           then \<forall>k<J. slice (post_cov obj'') k
                         = comcov_cov_slice lib obj w rt k (col (post_mean obj'') k)
           else post_cov obj'' = post_cov obj))"
proof (intro conjI impI)
  show "post_cov (PosteriorMASH_new bm sm sal sor vm lm am Uc)
           = cube_zeros (if \<not> is_empty am then n_rows am else n_rows bm)
               (if \<not> is_empty am then n_rows am else n_rows bm) (n_cols bm)"
    by (rule PosteriorMASH_new_dims)
next
  assume cp: "compute_posterior lib obj w rt = Some obj'"
  note r = compute_posterior_result [OF cp assms(1,2) refl assms(3)]
  show "if rt = 2 \<or> rt = 4
        then \<forall>k<J. slice (post_cov obj') k = mash_cov_slice lib obj w rt k
        else post_cov obj' = post_cov obj"
    using r by simp
next
  assume cp: "compute_posterior_comcov lib obj w rt = Some obj''"
  have ns: "n_cols (post_mean obj) = n_slices (post_cov obj)"
    using assms(1,2) by (simp add: out_dims_def)
  note r = compute_posterior_comcov_result [OF cp ns]
  show "if rt = 2 \<or> rt = 4
        then \<forall>k<J. slice (post_cov obj'') k
                      = comcov_cov_slice lib obj w rt k (col (post_mean obj'') k)
        else post_cov obj'' = post_cov obj"
    using r(6,10) assms(2) by simp
qed

theorem post_cov_report_type_gating_witness:
  "out_dims 1 1 mash_ex \<and> n_slices (post_cov mash_ex) = 1
   \<and> n_rows mash_ex_w = n_slices (U_cube mash_ex)
   \<and> mash_ex = PosteriorMASH_new (m11 1) (m11 1) empty_mat empty_mat (m11 1) empty_mat empty_mat
                  (c112 1 0)
   \<and> post_cov mash_ex = cube_zeros 1 1 1
   \<and> (\<exists>o1. compute_posterior diag_lib mash_ex mash_ex_w 1 = Some o1
            \<and> post_cov o1 = cube_zeros 1 1 1)
   \<and> (\<exists>o2. compute_posterior diag_lib mash_ex mash_ex_w 2 = Some o2
            \<and> slice (post_cov o2) 0 = m11 (3 / 8))
   \<and> (\<exists>o4. compute_posterior diag_lib mash_ex mash_ex_w 4 = Some o4
            \<and> slice (post_cov o4) 0 = m11 (5 / 16))
   \<and> (\<exists>o1. compute_posterior_comcov diag_lib mash_ex mash_ex_w 1 = Some o1
            \<and> post_cov o1 = cube_zeros 1 1 1)
   \<and> (\<exists>o2. compute_posterior_comcov diag_lib mash_ex mash_ex_w 2 = Some o2
            \<and> slice (post_cov o2) 0 = m11 (3 / 8))"
proof -
  have h: "out_dims 1 1 mash_ex" "n_slices (post_cov mash_ex) = 1"
    "n_rows mash_ex_w = n_slices (U_cube mash_ex)"
    by (simp_all add: mash_ex_dims)
  note t = post_cov_report_type_gating [OF h, where lib = diag_lib]
  have z: "post_cov mash_ex = cube_zeros 1 1 1"
    using t [of "m11 1" "m11 1" empty_mat empty_mat "m11 1" empty_mat empty_mat "c112 1 0"]
    by (simp add: mash_ex_def)
  obtain o1 where o1: "compute_posterior diag_lib mash_ex mash_ex_w 1 = Some o1"
    using mash_ex_success [of 1] by auto
  obtain o2 where o2: "compute_posterior diag_lib mash_ex mash_ex_w 2 = Some o2"
    using mash_ex_success [of 2] by auto
  obtain o4 where o4: "compute_posterior diag_lib mash_ex mash_ex_w 4 = Some o4"
    using mash_ex_success [of 4] by auto
  obtain c1 where c1: "compute_posterior_comcov diag_lib mash_ex mash_ex_w 1 = Some c1"
    using mash_ex_comcov_success [of 1] by auto
  obtain c2 where c2: "compute_posterior_comcov diag_lib mash_ex mash_ex_w 2 = Some c2"
    using mash_ex_comcov_success [of 2] by auto
  have mc: "mash_mean_col diag_lib mash_ex mash_ex_w 0 = m11 (1 / 4)"
    by (rule m11I) (simp_all add: mash_mean_col_def mash_ex_dims wmean_2 mash_ex_stats)
  have "post_cov o1 = cube_zeros 1 1 1"
    using t [where rt = 1 and obj' = o1] o1 z by simp
  moreover have "slice (post_cov o2) 0 = m11 (3 / 8)"
    using t [where rt = 2 and obj' = o2] o2
    by (simp add: mash_cov_slice_def mash_ex_Vinv mash_ex_dims mash_ex_cov_acc)
  moreover have "slice (post_cov o4) 0 = m11 (5 / 16)"
    using t [where rt = 4 and obj' = o4] o4
    by (simp add: mash_cov_slice_def mash_ex_Vinv mash_ex_dims mash_ex_cov_acc mc)
  moreover have "post_cov c1 = cube_zeros 1 1 1"
    using t [where rt = 1 and obj'' = c1] c1 z by simp
  moreover have "slice (post_cov c2) 0 = m11 (3 / 8)"
    using t [where rt = 2 and obj'' = c2] c2
    by (simp add: comcov_cov_slice_def mash_ex_comcov mash_ex_dims mash_ex_cov_acc)
  ultimately show ?thesis
    using h z o1 o2 o4 c1 c2 by (simp add: mash_ex_def)
qed

text \<open>
  With the report type 3 both functions leave \<^verbatim>\<open>post_cov\<close> at the zeros of the constructor,
  on an input for which the weighted second moments of the components are not zero.
\<close>

theorem report_type_3_counterexample:
  "(\<exists>o3. compute_posterior diag_lib mash_ex mash_ex_w 3 = Some o3
          \<and> post_cov o3 = cube_zeros 1 1 1
          \<and> slice (post_cov o3) 0 = m11 0)
   \<and> mash_cov_acc diag_lib mash_ex mash_ex_w (mash_Vinv_at diag_lib mash_ex 0) 0
        (n_slices (U_cube mash_ex)) (slice (post_cov mash_ex) 0) = m11 (3 / 8)
   \<and> (\<exists>c3. compute_posterior_comcov diag_lib mash_ex mash_ex_w 3 = Some c3
          \<and> post_cov c3 = cube_zeros 1 1 1
          \<and> slice (post_cov c3) 0 = m11 0)
   \<and> comcov_cov_acc diag_lib mash_ex mash_ex_w (or_empty (comcov_Vinv diag_lib mash_ex)) 0
        (n_slices (U_cube mash_ex)) (slice (post_cov mash_ex) 0) = m11 (3 / 8)"
proof -
  obtain o3 where o3: "compute_posterior diag_lib mash_ex mash_ex_w 3 = Some o3"
    using mash_ex_success [of 3] by auto
  obtain c3 where c3: "compute_posterior_comcov diag_lib mash_ex mash_ex_w 3 = Some c3"
    using mash_ex_comcov_success [of 3] by auto
  have h: "out_dims 1 1 mash_ex" "n_slices (post_cov mash_ex) = 1"
    "n_rows mash_ex_w = n_slices (U_cube mash_ex)"
    "n_cols (post_mean mash_ex) = n_slices (post_cov mash_ex)"
    by (simp_all add: mash_ex_dims)
  have a: "post_cov o3 = cube_zeros 1 1 1"
    using compute_posterior_result [OF o3 h(1,2) refl h(3)] by (simp add: mash_ex_fields)
  have b: "post_cov c3 = cube_zeros 1 1 1"
    using compute_posterior_comcov_result(6) [OF c3 h(4)] by (simp add: mash_ex_fields)
  show ?thesis
    using o3 c3 a b
    by (simp add: mash_ex_Vinv mash_ex_comcov mash_ex_dims mash_ex_cov_acc)
qed

section \<open>What the univariate engine stores\<close>

lemma dot_row_col:
  fixes M w :: "dbl mat"
  assumes "n_cols M = n_rows w" and "j < n_rows M"
  shows "dot (row M j) (col w j) = (\<Sum>p<n_rows w. ent M j p * ent w p j)"
proof -
  have "n_elem (row M j) = n_rows w"
    using assms by (simp add: n_elem_def)
  moreover have "vec_elem (row M j) k * vec_elem (col w j) k = ent M j k * ent w k j"
    if "k < n_rows w" for k
    using that assms by (simp add: vec_elem_def ent_simps)
  ultimately show ?thesis
    unfolding dot_def by (intro sum.cong) simp_all
qed

lemma ash_effects_result:
  shows "b_vec (ash_effects loc w n obj) = b_vec obj
    \<and> n_rows (PosteriorASH.post_mean (ash_effects loc w n obj)) = n_rows (PosteriorASH.post_mean obj)
    \<and> n_cols (PosteriorASH.post_mean (ash_effects loc w n obj)) = n_cols (PosteriorASH.post_mean obj)
    \<and> n_rows (PosteriorASH.post_var (ash_effects loc w n obj)) = n_rows (PosteriorASH.post_var obj)
    \<and> n_cols (PosteriorASH.post_var (ash_effects loc w n obj)) = n_cols (PosteriorASH.post_var obj)
    \<and> n_rows (PosteriorASH.neg_prob (ash_effects loc w n obj)) = n_rows (PosteriorASH.neg_prob obj)
    \<and> n_cols (PosteriorASH.neg_prob (ash_effects loc w n obj)) = n_cols (PosteriorASH.neg_prob obj)
    \<and> n_rows (PosteriorASH.zero_prob (ash_effects loc w n obj)) = n_rows (PosteriorASH.zero_prob obj)
    \<and> n_cols (PosteriorASH.zero_prob (ash_effects loc w n obj)) = n_cols (PosteriorASH.zero_prob obj)
    \<and> (\<forall>k. k < n_rows (PosteriorASH.post_mean obj) \<and> 0 < n_cols (PosteriorASH.post_mean obj) \<longrightarrow>
          ent (PosteriorASH.post_mean (ash_effects loc w n obj)) k 0
            = (if k < n then dot (row (mu1_mat loc) k) (col w k)
               else ent (PosteriorASH.post_mean obj) k 0))
    \<and> (\<forall>k. k < n_rows (PosteriorASH.post_var obj) \<and> 0 < n_cols (PosteriorASH.post_var obj) \<longrightarrow>
          ent (PosteriorASH.post_var (ash_effects loc w n obj)) k 0
            = (if k < n then dot (row (diag_mu2_mat loc) k) (col w k)
               else ent (PosteriorASH.post_var obj) k 0))
    \<and> (\<forall>k. k < n_rows (PosteriorASH.neg_prob obj) \<and> 0 < n_cols (PosteriorASH.neg_prob obj) \<longrightarrow>
          ent (PosteriorASH.neg_prob (ash_effects loc w n obj)) k 0
            = (if k < n then dot (row (neg_mat loc) k) (col w k)
               else ent (PosteriorASH.neg_prob obj) k 0))
    \<and> (\<forall>k. k < n_rows (PosteriorASH.zero_prob obj) \<and> 0 < n_cols (PosteriorASH.zero_prob obj) \<longrightarrow>
          ent (PosteriorASH.zero_prob (ash_effects loc w n obj)) k 0
            = (if k < n then dot (row (zero_mat loc) k) (col w k)
               else ent (PosteriorASH.zero_prob obj) k 0))"
proof (induction n)
  case 0
  show ?case by (simp add: ash_effects_def)
next
  case (Suc n)
  define o1 where "o1 = ash_effects loc w n obj"
  have step: "ash_effects loc w (Suc n) obj
    = o1\<lparr>PosteriorASH.post_mean :=
            set_at (PosteriorASH.post_mean o1) n 0 (dot (row (mu1_mat loc) n) (col w n)),
         PosteriorASH.post_var :=
            set_at (PosteriorASH.post_var o1) n 0 (dot (row (diag_mu2_mat loc) n) (col w n)),
         PosteriorASH.neg_prob :=
            set_at (PosteriorASH.neg_prob o1) n 0 (dot (row (neg_mat loc) n) (col w n)),
         PosteriorASH.zero_prob :=
            set_at (PosteriorASH.zero_prob o1) n 0 (dot (row (zero_mat loc) n) (col w n))\<rparr>"
    by (simp add: ash_effects_def o1_def)
  note IH = Suc.IH [folded o1_def]
  show ?case
    unfolding step using IH by (simp add: ent_simps less_Suc_eq)
qed

lemma ash_compute_posterior_eq:
  "ash_compute_posterior lib obj w
   = (let o1 = ash_effects (ash_components lib obj) w (n_elem (b_vec obj)) obj
      in o1\<lparr>PosteriorASH.post_var :=
               mat_sub (PosteriorASH.post_var o1) (pow2 (PosteriorASH.post_mean o1))\<rparr>)"
  by (simp add: ash_compute_posterior_def ash_effects_def Let_def)

lemma ash_components_dims:
  assumes sh: "ash_shapes obj"
  shows "locals_dims (n_rows (b_vec obj)) (n_rows (U_vec obj)) (ash_components lib obj)"
proof -
  let ?J = "n_rows (b_vec obj)" and ?P = "n_rows (U_vec obj)"
  let ?l = "\<lparr>mu1_mat = zeros ?J ?P, diag_mu2_mat = zeros ?J ?P,
              zero_mat = zeros ?J ?P, neg_mat = zeros ?J ?P\<rparr>"
  have r: "ash_components lib obj = ash_loop lib obj ?P ?l"
    using sh by (rule ash_components_loop)
  note t = ash_loop_result [OF sh refl refl, of ?l ?P lib, simplified]
  show ?thesis unfolding r locals_dims_def using t by simp
qed

lemma ash_compute_posterior_result:
  fixes lib :: arma
  assumes sh: "ash_shapes obj" and os: "ash_outputs_sized obj"
    and wr: "n_rows w = n_rows (U_vec obj)" and j: "j < n_rows (b_vec obj)"
  shows "ent (PosteriorASH.post_mean (ash_compute_posterior lib obj w)) j 0
         = spec_ash_post_mean obj w j"
    and "ent (PosteriorASH.post_var (ash_compute_posterior lib obj w)) j 0
         = spec_ash_post_var obj w j"
    and "ent (PosteriorASH.neg_prob (ash_compute_posterior lib obj w)) j 0
         = spec_ash_neg_prob lib obj w j"
    and "ent (PosteriorASH.zero_prob (ash_compute_posterior lib obj w)) j 0
         = spec_ash_zero_prob obj w j"
proof -
  define loc where "loc = ash_components lib obj"
  define J where "J = n_rows (b_vec obj)"
  define o1 where "o1 = ash_effects loc w J obj"
  have ne: "n_elem (b_vec obj) = J"
    using sh by (simp add: ash_shapes_def n_elem_def J_def)
  have res: "ash_compute_posterior lib obj w
    = o1\<lparr>PosteriorASH.post_var :=
            mat_sub (PosteriorASH.post_var o1) (pow2 (PosteriorASH.post_mean o1))\<rparr>"
    unfolding ash_compute_posterior_eq Let_def ne o1_def loc_def ..
  have ld: "locals_dims J (n_rows w) loc"
    unfolding loc_def J_def wr using sh by (rule ash_components_dims)
  note E = ash_effects_result [of loc w J obj, folded o1_def]
  have od: "n_rows (PosteriorASH.post_mean obj) = J" "n_cols (PosteriorASH.post_mean obj) = 1"
    "n_rows (PosteriorASH.post_var obj) = J" "n_cols (PosteriorASH.post_var obj) = 1"
    "n_rows (PosteriorASH.neg_prob obj) = J" "n_cols (PosteriorASH.neg_prob obj) = 1"
    "n_rows (PosteriorASH.zero_prob obj) = J" "n_cols (PosteriorASH.zero_prob obj) = 1"
    using os by (simp_all add: ash_outputs_sized_def J_def)
  have jJ: "j < J" using j by (simp add: J_def)
  have d1: "dot (row (mu1_mat loc) j) (col w j) = spec_ash_post_mean obj w j"
  proof -
    have "dot (row (mu1_mat loc) j) (col w j) = (\<Sum>p<n_rows w. ent (mu1_mat loc) j p * ent w p j)"
      using ld jJ by (intro dot_row_col) (simp_all add: locals_dims_def)
    also have "\<dots> = (\<Sum>p<n_rows w. spec_ash_mu1 obj j p * ent w p j)"
      by (intro sum.cong refl)
         (simp add: loc_def ash_components_result(1) [OF sh j] wr)
    finally show ?thesis by (simp add: spec_ash_post_mean_def wr)
  qed
  have d2: "dot (row (diag_mu2_mat loc) j) (col w j)
            = (\<Sum>p<n_rows (U_vec obj).
                 (spec_ash_mu1 obj j p * spec_ash_mu1 obj j p + spec_ash_var obj j p) * ent w p j)"
  proof -
    have "dot (row (diag_mu2_mat loc) j) (col w j)
          = (\<Sum>p<n_rows w. ent (diag_mu2_mat loc) j p * ent w p j)"
      using ld jJ by (intro dot_row_col) (simp_all add: locals_dims_def)
    also have "\<dots> = (\<Sum>p<n_rows w.
                 (spec_ash_mu1 obj j p * spec_ash_mu1 obj j p + spec_ash_var obj j p) * ent w p j)"
      by (intro sum.cong refl)
         (simp add: loc_def ash_components_result(2) [OF sh j] wr)
    finally show ?thesis by (simp add: wr)
  qed
  have d3: "dot (row (neg_mat loc) j) (col w j) = spec_ash_neg_prob lib obj w j"
  proof -
    have "dot (row (neg_mat loc) j) (col w j) = (\<Sum>p<n_rows w. ent (neg_mat loc) j p * ent w p j)"
      using ld jJ by (intro dot_row_col) (simp_all add: locals_dims_def)
    also have "\<dots> = (\<Sum>p<n_rows w.
                 neg_entry lib (spec_ash_mu1 obj j p) (spec_ash_var obj j p) * ent w p j)"
      by (intro sum.cong refl)
         (simp add: loc_def ash_components_result(4) [OF sh j] wr)
    finally show ?thesis by (simp add: spec_ash_neg_prob_def wr)
  qed
  have d4: "dot (row (zero_mat loc) j) (col w j) = spec_ash_zero_prob obj w j"
  proof -
    have "dot (row (zero_mat loc) j) (col w j) = (\<Sum>p<n_rows w. ent (zero_mat loc) j p * ent w p j)"
      using ld jJ by (intro dot_row_col) (simp_all add: locals_dims_def)
    also have "\<dots> = (\<Sum>p<n_rows w.
                 (if spec_ash_var obj j p = 0 then Fin 1 else Fin 0) * ent w p j)"
      by (intro sum.cong refl)
         (simp add: loc_def ash_components_result(3) [OF sh j] wr)
    finally show ?thesis by (simp add: spec_ash_zero_prob_def wr)
  qed
  have e1: "ent (PosteriorASH.post_mean o1) j 0 = spec_ash_post_mean obj w j"
    and e2: "ent (PosteriorASH.post_var o1) j 0
            = (\<Sum>p<n_rows (U_vec obj).
                 (spec_ash_mu1 obj j p * spec_ash_mu1 obj j p + spec_ash_var obj j p) * ent w p j)"
    and e3: "ent (PosteriorASH.neg_prob o1) j 0 = spec_ash_neg_prob lib obj w j"
    and e4: "ent (PosteriorASH.zero_prob o1) j 0 = spec_ash_zero_prob obj w j"
    using E jJ od d1 d2 d3 d4 by simp_all
  have dv: "n_rows (PosteriorASH.post_var o1) = J" "n_cols (PosteriorASH.post_var o1) = 1"
    "n_rows (PosteriorASH.post_mean o1) = J" "n_cols (PosteriorASH.post_mean o1) = 1"
    using E od by simp_all
  show "ent (PosteriorASH.post_mean (ash_compute_posterior lib obj w)) j 0
         = spec_ash_post_mean obj w j"
    unfolding res using e1 by simp
  show "ent (PosteriorASH.post_var (ash_compute_posterior lib obj w)) j 0
         = spec_ash_post_var obj w j"
    unfolding res using e1 e2 dv jJ by (simp add: ent_simps2 spec_ash_post_var_def)
  show "ent (PosteriorASH.neg_prob (ash_compute_posterior lib obj w)) j 0
         = spec_ash_neg_prob lib obj w j"
    unfolding res using e3 by simp
  show "ent (PosteriorASH.zero_prob (ash_compute_posterior lib obj w)) j 0
         = spec_ash_zero_prob obj w j"
    unfolding res using e4 by simp
qed

text \<open>
  C8.  For every effect \<open>j\<close> and component \<open>p\<close>, \<^verbatim>\<open>PosteriorASH::compute_posterior\<close>
  computes the closed-form conjugate update with the scalar precision
  \<open>vinv_j = 1 / (s_j^2 * v)\<close>.  What the call stores for the effect \<open>j\<close> are the means over
  the components, with the weights of the effect, of the closed-form values: the posterior
  mean \<open>U1_p * vinv_j * b_j * alpha_j\<close> with \<open>U1_p = U_p / (vinv_j * U_p + 1)\<close>, and the
  second moment, the square of that mean plus the rescaled variance \<open>U1_p * alpha_j^2\<close>,
  from which the square of the stored mean is subtracted; the probabilities of a negative
  and of a zero effect are those of a normal law with that mean and that rescaled variance.
  The local matrices of the call hold the closed-form values entry by entry.  No inverse and
  no factorisation is called: the result is the same whatever they are.
\<close>

theorem ash_closed_form_update:
  assumes "ash_shapes obj" and "ash_outputs_sized obj"
    and "n_rows w = n_rows (U_vec obj)" and "j < n_rows (b_vec obj)"
  shows "ent (PosteriorASH.post_mean (ash_compute_posterior lib obj w)) j 0
           = (\<Sum>p<n_rows (U_vec obj). spec_ash_mu1 obj j p * ent w p j)
    \<and> ent (PosteriorASH.post_var (ash_compute_posterior lib obj w)) j 0
           = (\<Sum>p<n_rows (U_vec obj).
                (spec_ash_mu1 obj j p * spec_ash_mu1 obj j p + spec_ash_var obj j p) * ent w p j)
             - (\<Sum>p<n_rows (U_vec obj). spec_ash_mu1 obj j p * ent w p j)
               * (\<Sum>p<n_rows (U_vec obj). spec_ash_mu1 obj j p * ent w p j)
    \<and> ent (PosteriorASH.neg_prob (ash_compute_posterior lib obj w)) j 0
           = (\<Sum>p<n_rows (U_vec obj).
                neg_entry lib (spec_ash_mu1 obj j p) (spec_ash_var obj j p) * ent w p j)
    \<and> ent (PosteriorASH.zero_prob (ash_compute_posterior lib obj w)) j 0
           = (\<Sum>p<n_rows (U_vec obj).
                (if spec_ash_var obj j p = 0 then Fin 1 else Fin 0) * ent w p j)
    \<and> (\<forall>p<n_rows (U_vec obj).
          spec_ash_mu1 obj j p
            = ent (U_vec obj) p 0
              / (Fin 1 / (ent (s_vec obj) j 0 * ent (s_vec obj) j 0 * v obj) * ent (U_vec obj) p 0
                 + Fin 1)
              * (Fin 1 / (ent (s_vec obj) j 0 * ent (s_vec obj) j 0 * v obj))
              * ent (b_vec obj) j 0 * ent (s_alpha_vec obj) j 0
          \<and> spec_ash_var obj j p
            = ent (U_vec obj) p 0
              / (Fin 1 / (ent (s_vec obj) j 0 * ent (s_vec obj) j 0 * v obj) * ent (U_vec obj) p 0
                 + Fin 1)
              * (ent (s_alpha_vec obj) j 0 * ent (s_alpha_vec obj) j 0)
          \<and> ent (mu1_mat (ash_components lib obj)) j p = spec_ash_mu1 obj j p
          \<and> ent (fst (ash_component lib obj (ash_vinv_vec obj) mean J p loc)) j 0
              = spec_ash_var obj j p
          \<and> ent (diag_mu2_mat (ash_components lib obj)) j p
              = spec_ash_mu1 obj j p * spec_ash_mu1 obj j p + spec_ash_var obj j p)
    \<and> ash_compute_posterior (lib\<lparr>chol := c, inv_mat := i, inv_sympd := sp\<rparr>) obj w
         = ash_compute_posterior lib obj w"
proof -
  note r = ash_compute_posterior_result [OF assms, of lib]
  have "ent (PosteriorASH.post_mean (ash_compute_posterior lib obj w)) j 0
           = (\<Sum>p<n_rows (U_vec obj). spec_ash_mu1 obj j p * ent w p j)"
    using r(1) by (simp add: spec_ash_post_mean_def)
  moreover have "ent (PosteriorASH.post_var (ash_compute_posterior lib obj w)) j 0
           = (\<Sum>p<n_rows (U_vec obj).
                (spec_ash_mu1 obj j p * spec_ash_mu1 obj j p + spec_ash_var obj j p) * ent w p j)
             - (\<Sum>p<n_rows (U_vec obj). spec_ash_mu1 obj j p * ent w p j)
               * (\<Sum>p<n_rows (U_vec obj). spec_ash_mu1 obj j p * ent w p j)"
    using r(2) by (simp add: spec_ash_post_var_def spec_ash_post_mean_def)
  moreover have "ent (PosteriorASH.neg_prob (ash_compute_posterior lib obj w)) j 0
           = (\<Sum>p<n_rows (U_vec obj).
                neg_entry lib (spec_ash_mu1 obj j p) (spec_ash_var obj j p) * ent w p j)"
    using r(3) by (simp add: spec_ash_neg_prob_def)
  moreover have "ent (PosteriorASH.zero_prob (ash_compute_posterior lib obj w)) j 0
           = (\<Sum>p<n_rows (U_vec obj).
                (if spec_ash_var obj j p = 0 then Fin 1 else Fin 0) * ent w p j)"
    using r(4) by (simp add: spec_ash_zero_prob_def)
  moreover have "\<forall>p<n_rows (U_vec obj).
          spec_ash_mu1 obj j p
            = ent (U_vec obj) p 0
              / (Fin 1 / (ent (s_vec obj) j 0 * ent (s_vec obj) j 0 * v obj) * ent (U_vec obj) p 0
                 + Fin 1)
              * (Fin 1 / (ent (s_vec obj) j 0 * ent (s_vec obj) j 0 * v obj))
              * ent (b_vec obj) j 0 * ent (s_alpha_vec obj) j 0
          \<and> spec_ash_var obj j p
            = ent (U_vec obj) p 0
              / (Fin 1 / (ent (s_vec obj) j 0 * ent (s_vec obj) j 0 * v obj) * ent (U_vec obj) p 0
                 + Fin 1)
              * (ent (s_alpha_vec obj) j 0 * ent (s_alpha_vec obj) j 0)
          \<and> ent (mu1_mat (ash_components lib obj)) j p = spec_ash_mu1 obj j p
          \<and> ent (fst (ash_component lib obj (ash_vinv_vec obj) mean J p loc)) j 0
              = spec_ash_var obj j p
          \<and> ent (diag_mu2_mat (ash_components lib obj)) j p
              = spec_ash_mu1 obj j p * spec_ash_mu1 obj j p + spec_ash_var obj j p"
    using ash_components_result(1,2) [OF assms(1,4)] ash_component_U1 [OF assms(1,4)]
    by (simp add: spec_ash_mu1_def spec_ash_var_def spec_ash_U1_def spec_ash_vinv_def)
  moreover have "ash_compute_posterior (lib\<lparr>chol := c, inv_mat := i, inv_sympd := sp\<rparr>) obj w
         = ash_compute_posterior lib obj w"
    by (rule ash_no_factorisation)
  ultimately show ?thesis by blast
qed

lemma ash_ex_values:
  "spec_ash_mu1 ash_ex (Suc 0) 0 = Fin 0" "spec_ash_var ash_ex (Suc 0) 0 = Fin 0"
  "spec_ash_mu1 ash_ex (Suc 0) (Suc 0) = Fin 2" "spec_ash_var ash_ex (Suc 0) (Suc 0) = Fin 12"
  "ent ash_ex_w 0 (Suc 0) = Fin (1 / 2)" "ent ash_ex_w (Suc 0) (Suc 0) = Fin (1 / 2)"
  by (simp_all add: spec_ash_mu1_def spec_ash_var_def spec_ash_U1_def spec_ash_vinv_def
      ash_ex_fields of_rows_def ash_ex_w_def)

theorem ash_closed_form_update_witness:
  "ash_shapes ash_ex \<and> ash_outputs_sized ash_ex
   \<and> n_rows ash_ex_w = n_rows (U_vec ash_ex) \<and> 1 < n_rows (b_vec ash_ex)
   \<and> ent (PosteriorASH.post_mean (ash_compute_posterior diag_lib ash_ex ash_ex_w)) 1 0 = Fin 1
   \<and> ent (PosteriorASH.post_var (ash_compute_posterior diag_lib ash_ex ash_ex_w)) 1 0 = Fin 7
   \<and> ent (PosteriorASH.zero_prob (ash_compute_posterior diag_lib ash_ex ash_ex_w)) 1 0
       = Fin (1 / 2)
   \<and> ent (mu1_mat (ash_components diag_lib ash_ex)) 1 1 = Fin 2
   \<and> ent (diag_mu2_mat (ash_components diag_lib ash_ex)) 1 1 = Fin 16"
proof -
  have sh: "ash_shapes ash_ex"
    by (simp add: ash_shapes_def ash_ex_fields of_rows_def)
  have os: "ash_outputs_sized ash_ex"
    by (simp add: ash_outputs_sized_def ash_ex_fields)
       (simp add: ash_ex_def PosteriorASH_new_def Let_def n_elem_def of_rows_def)
  have wr: "n_rows ash_ex_w = n_rows (U_vec ash_ex)"
    by (simp add: ash_ex_fields of_rows_def ash_ex_w_def)
  have j: "1 < n_rows (b_vec ash_ex)"
    by (simp add: ash_ex_fields of_rows_def)
  have P: "n_rows (U_vec ash_ex) = 2"
    by (simp add: ash_ex_fields of_rows_def)
  have s2: "{..<2::nat} = {0, Suc 0}" by auto
  note t = ash_closed_form_update [OF sh os wr j, where lib = diag_lib, unfolded P]
  have "ent (PosteriorASH.post_mean (ash_compute_posterior diag_lib ash_ex ash_ex_w)) 1 0 = Fin 1"
    using t by (simp add: s2 ash_ex_values)
  moreover have "ent (PosteriorASH.post_var (ash_compute_posterior diag_lib ash_ex ash_ex_w)) 1 0
                 = Fin 7"
    using t by (simp add: s2 ash_ex_values)
  moreover have "ent (PosteriorASH.zero_prob (ash_compute_posterior diag_lib ash_ex ash_ex_w)) 1 0
                 = Fin (1 / 2)"
    using t by (simp add: s2 ash_ex_values zero_dbl_def)
  moreover have "ent (mu1_mat (ash_components diag_lib ash_ex)) 1 1 = Fin 2"
    and "ent (diag_mu2_mat (ash_components diag_lib ash_ex)) 1 1 = Fin 16"
    using t by (simp_all add: ash_ex_values numeral_2_eq_2)
  ultimately show ?thesis
    using sh os wr j by blast
qed

section \<open>The shapes the accessors return\<close>

lemma fold_opt_invariant:
  assumes "fold_opt f xs st = Some st'" and "I st"
    and "\<And>x s s'. I s \<Longrightarrow> f x s = Some s' \<Longrightarrow> I s'"
  shows "I st'"
  using assms(1,2)
proof (induction xs arbitrary: st)
  case Nil
  then show ?case by simp
next
  case (Cons x xs)
  from Cons.prems(1) obtain s1 where s1: "f x st = Some s1" and r: "fold_opt f xs s1 = Some st'"
    by (auto split: option.splits)
  from assms(3) [OF Cons.prems(2) s1] have "I s1" .
  then show ?case using Cons.IH r by blast
qed

lemma mash_sized_updates [simp]:
  "mash_sized Q J (obj\<lparr>post_cov := set_slice (post_cov obj) k M\<rparr>) = mash_sized Q J obj"
  "mash_sized Q J (obj\<lparr>post_mean := set_col (post_mean obj) k M\<rparr>) = mash_sized Q J obj"
  "mash_sized Q J (obj\<lparr>post_var := set_col (post_var obj) k M\<rparr>) = mash_sized Q J obj"
  "mash_sized Q J (obj\<lparr>neg_prob := set_col (neg_prob obj) k M\<rparr>) = mash_sized Q J obj"
  "mash_sized Q J (obj\<lparr>zero_prob := set_col (zero_prob obj) k M\<rparr>) = mash_sized Q J obj"
  "mash_sized Q J (obj\<lparr>post_var := mat_sub (post_var obj) M\<rparr>) = mash_sized Q J obj"
  by (simp_all add: mash_sized_def out_dims_def)

lemma mash_component_sized:
  assumes "mash_component lib w rt j Vinv_j mean p (loc, obj) = Some (loc', obj')"
  shows "mash_sized Q J obj' = mash_sized Q J obj"
  using assms
  by (auto simp: mash_component_def Let_def split: option.splits if_splits)

lemma mash_effect_sized:
  assumes "mash_effect lib w rt mean j obj = Some obj'" and "mash_sized Q J obj"
  shows "mash_sized Q J obj'"
proof -
  from assms(1) obtain Vinv_j loc l1 o1 where
    f: "fold_opt (mash_component lib w rt j Vinv_j mean) [0..<n_slices (U_cube obj)] (loc, obj)
        = Some (l1, o1)"
    and r: "obj' = (let o2 = o1\<lparr>post_mean := set_col (post_mean o1) j
                                 (mat_mul (mu1_mat l1) (col w j))\<rparr>;
                       o2 = o2\<lparr>post_var := set_col (post_var o2) j
                                 (mat_mul (diag_mu2_mat l1) (col w j))\<rparr>;
                       o2 = o2\<lparr>neg_prob := set_col (neg_prob o2) j
                                 (mat_mul (neg_mat l1) (col w j))\<rparr>;
                       o2 = o2\<lparr>zero_prob := set_col (zero_prob o2) j
                                 (mat_mul (zero_mat l1) (col w j))\<rparr>
                   in if rt = 4
                      then o2\<lparr>post_cov :=
                                set_slice (post_cov o2) j
                                  (mat_sub (slice (post_cov o2) j)
                                     (mat_mul (col (post_mean o2) j)
                                        (t_mat (col (post_mean o2) j))))\<rparr>
                      else o2)"
    by (auto simp: mash_effect_def Let_def split: option.splits)
  have "mash_sized Q J (snd (l1, o1))"
    by (rule fold_opt_invariant [OF f, where I = "\<lambda>st. mash_sized Q J (snd st)"])
       (use assms(2) in \<open>auto simp: mash_component_sized\<close>)
  then have "mash_sized Q J o1" by simp
  then show ?thesis
    unfolding r Let_def by (simp add: mash_sized_def out_dims_def)
qed

lemma compute_posterior_sized:
  assumes "compute_posterior lib obj w rt = Some obj'" and "mash_sized Q J obj"
  shows "mash_sized Q J obj'"
proof -
  from assms(1) obtain o1 where
    f: "fold_opt (mash_effect lib w rt (zeros (n_rows (post_mean obj)) 1))
          [0..<n_cols (post_mean obj)] obj = Some o1"
    and r: "obj' = o1\<lparr>post_var := mat_sub (post_var o1) (pow2 (post_mean o1))\<rparr>"
    by (auto simp: compute_posterior_def Let_def split: option.splits)
  have "mash_sized Q J o1"
    by (rule fold_opt_invariant [OF f, where I = "mash_sized Q J"])
       (use assms(2) in \<open>auto intro: mash_effect_sized\<close>)
  then show ?thesis unfolding r by simp
qed

lemma compute_posterior_comcov_sized:
  assumes cp: "compute_posterior_comcov lib obj w rt = Some obj'" and s: "mash_sized Q J obj"
  shows "mash_sized Q J obj'"
proof -
  have ns: "n_cols (post_mean obj) = n_slices (post_cov obj)"
    using s by (simp add: mash_sized_def out_dims_def)
  note r = compute_posterior_comcov_result [OF cp ns]
  show ?thesis
    using r(5) [of Q J] r(7,8,9) s by (simp add: mash_sized_def)
qed

lemma PosteriorMASH_new_sized:
  "mash_sized (if \<not> is_empty am then n_rows am else n_rows bm) (n_cols bm)
     (mash_set_U0 (mash_set_vinv (PosteriorMASH_new bm sm sal sor vm lm am Uc) Vc) U0c)"
  by (simp add: mash_sized_def out_dims_def PosteriorMASH_new_def Let_def mash_set_U0_def
      mash_set_vinv_def cube_zeros_def mk_cube_def)

lemma accessor_dims:
  assumes "mash_sized Q J obj"
  shows "n_rows (PosteriorMean obj) = J \<and> n_cols (PosteriorMean obj) = Q
    \<and> n_rows (PosteriorSD obj) = J \<and> n_cols (PosteriorSD obj) = Q
    \<and> n_rows (NegativeProb obj) = J \<and> n_cols (NegativeProb obj) = Q
    \<and> n_rows (ZeroProb obj) = J \<and> n_cols (ZeroProb obj) = Q
    \<and> c_rows (PosteriorCov obj) = Q \<and> c_cols (PosteriorCov obj) = Q
    \<and> n_slices (PosteriorCov obj) = J"
  using assms
  by (simp add: mash_sized_def out_dims_def PosteriorMean_def PosteriorSD_def NegativeProb_def
      ZeroProb_def PosteriorCov_def)

lemma r12_basic [simp]:
  "n_rows (r12 x y) = 1" "n_cols (r12 x y) = 2" "col (r12 x y) 0 = m11 x"
  "col (r12 x y) (Suc 0) = m11 y" "\<not> is_empty (r12 x y)"
  by (rule m11I | simp add: r12_def of_rows_def is_empty_def n_elem_def ent_simps)+

lemma ones_r12 [simp]: "ones (Suc 0) 2 = r12 1 1"
  by (rule mat_eqI) (auto simp: ones_def r12_def of_rows_def one_dbl_def less_Suc_eq numeral_2_eq_2)

lemma mash_ex2_fields:
  "b_mat mash_ex2 = r12 1 1" "SE_get (s_obj mash_ex2) = r12 1 1"
  "SE_get_original (s_obj mash_ex2) = r12 1 1" "v_mat mash_ex2 = m11 1"
  "l_mat mash_ex2 = empty_mat" "a_mat mash_ex2 = empty_mat"
  "U_cube mash_ex2 = c112 1 0"
  "Vinv_cube mash_ex2 = empty_cube" "U0_cube mash_ex2 = empty_cube"
  "n_rows mash_ex2_w = 2"
  "mash_set_U0 (mash_set_vinv mash_ex2 empty_cube) empty_cube = mash_ex2"
  by (simp_all add: mash_ex2_def PosteriorMASH_new_def Let_def SE_set_def SE_new_def
      SE_set_original_def SE_get_original_def SE_get_def mash_ex2_w_def of_rows_def
      mash_set_U0_def mash_set_vinv_def)

lemma mash_ex2_sized: "mash_sized 1 2 mash_ex2"
  using PosteriorMASH_new_sized [of empty_mat "r12 1 1" "r12 1 1" empty_mat empty_mat "m11 1"
      empty_mat "c112 1 0" empty_cube empty_cube]
  by (simp add: mash_ex2_fields [unfolded mash_ex2_def] mash_ex2_def)

lemma mash_ex2_success:
  "compute_posterior diag_lib mash_ex2 mash_ex2_w rt \<noteq> None"
  "compute_posterior_comcov diag_lib mash_ex2 mash_ex2_w rt \<noteq> None"
proof -
  have V: "mash_Vinv diag_lib mash_ex2 j = Some (m11 1)" if "j < 2" for j
    using that
    by (cases "j = 0")
       (simp_all add: mash_Vinv_def mash_ex2_fields less_Suc_eq numeral_2_eq_2)
  have U: "mash_U0 diag_lib mash_ex2 (m11 1) j p \<noteq> None" if "p < 2" for j p
    using that
    by (cases "p = 0")
       (simp_all add: mash_U0_def mash_ex2_fields less_Suc_eq numeral_2_eq_2)
  have s: "out_dims 1 2 mash_ex2" "n_slices (post_cov mash_ex2) = 2"
    using mash_ex2_sized by (simp_all add: mash_sized_def)
  show "compute_posterior diag_lib mash_ex2 mash_ex2_w rt \<noteq> None"
    by (rule compute_posterior_success [OF _ s, where P = 2])
       (simp_all add: V U mash_Vinv_at_def mash_ex2_fields)
  have cV: "comcov_Vinv diag_lib mash_ex2 = Some (m11 1)"
    by (simp add: comcov_Vinv_def mash_ex2_fields col0_def)
  have cU: "comcov_U0 diag_lib mash_ex2 (m11 1) p \<noteq> None" if "p < 2" for p
    using that
    by (cases "p = 0")
       (simp_all add: comcov_U0_def mash_ex2_fields less_Suc_eq numeral_2_eq_2)
  show "compute_posterior_comcov diag_lib mash_ex2 mash_ex2_w rt \<noteq> None"
    by (rule compute_posterior_comcov_success)
       (use s in \<open>simp_all add: cV cU mash_ex2_fields out_dims_def\<close>)
qed

text \<open>
  Claim C4, as the code has it.  The buffers of the engine have a row per condition and a
  column per effect, and the accessors \<^verbatim>\<open>PosteriorMean\<close>, \<^verbatim>\<open>PosteriorSD\<close>, \<^verbatim>\<open>NegativeProb\<close> and
  \<^verbatim>\<open>ZeroProb\<close> return their transposes: for \<open>J\<close> effects and \<open>R\<close> conditions a matrix with \<open>J\<close>
  rows and \<open>R\<close> columns (\<open>Q\<close> columns when a matrix \<open>A\<close> with \<open>Q\<close> rows was supplied), after
  \<^verbatim>\<open>compute_posterior\<close> and after \<^verbatim>\<open>compute_posterior_comcov\<close>, whether or not inverse
  covariances or posterior covariances have been injected.  \<^verbatim>\<open>PosteriorCov\<close> returns a cube
  with \<open>R\<close> rows, \<open>R\<close> columns (resp. \<open>Q\<close>) and \<open>J\<close> slices.
\<close>

theorem accessor_shapes:
  assumes "compute_posterior lib
             (mash_set_U0 (mash_set_vinv (PosteriorMASH_new bm sm sal sor vm lm am Uc) Vc) U0c)
             w rt = Some obj'
           \<or> compute_posterior_comcov lib
             (mash_set_U0 (mash_set_vinv (PosteriorMASH_new bm sm sal sor vm lm am Uc) Vc) U0c)
             w rt = Some obj'"
  shows "n_rows (PosteriorMean obj') = n_cols bm
    \<and> n_cols (PosteriorMean obj') = (if \<not> is_empty am then n_rows am else n_rows bm)
    \<and> n_rows (PosteriorSD obj') = n_cols bm
    \<and> n_cols (PosteriorSD obj') = (if \<not> is_empty am then n_rows am else n_rows bm)
    \<and> n_rows (NegativeProb obj') = n_cols bm
    \<and> n_cols (NegativeProb obj') = (if \<not> is_empty am then n_rows am else n_rows bm)
    \<and> n_rows (ZeroProb obj') = n_cols bm
    \<and> n_cols (ZeroProb obj') = (if \<not> is_empty am then n_rows am else n_rows bm)
    \<and> c_rows (PosteriorCov obj') = (if \<not> is_empty am then n_rows am else n_rows bm)
    \<and> c_cols (PosteriorCov obj') = (if \<not> is_empty am then n_rows am else n_rows bm)
    \<and> n_slices (PosteriorCov obj') = n_cols bm"
proof -
  have "mash_sized (if \<not> is_empty am then n_rows am else n_rows bm) (n_cols bm) obj'"
    using assms
  proof
    assume "compute_posterior lib
             (mash_set_U0 (mash_set_vinv (PosteriorMASH_new bm sm sal sor vm lm am Uc) Vc) U0c)
             w rt = Some obj'"
    then show ?thesis
      using PosteriorMASH_new_sized by (rule compute_posterior_sized)
  next
    assume "compute_posterior_comcov lib
             (mash_set_U0 (mash_set_vinv (PosteriorMASH_new bm sm sal sor vm lm am Uc) Vc) U0c)
             w rt = Some obj'"
    then show ?thesis
      using PosteriorMASH_new_sized by (rule compute_posterior_comcov_sized)
  qed
  then show ?thesis by (rule accessor_dims)
qed

theorem accessor_shapes_witness:
  "mash_ex2 = mash_set_U0 (mash_set_vinv
       (PosteriorMASH_new (r12 1 1) (r12 1 1) empty_mat empty_mat (m11 1) empty_mat empty_mat
          (c112 1 0)) empty_cube) empty_cube
   \<and> n_rows (r12 1 1) = 1 \<and> n_cols (r12 1 1) = 2
   \<and> (\<exists>obj'. compute_posterior diag_lib mash_ex2 mash_ex2_w 4 = Some obj'
         \<and> n_rows (PosteriorMean obj') = 2 \<and> n_cols (PosteriorMean obj') = 1
         \<and> n_rows (PosteriorSD obj') = 2 \<and> n_cols (PosteriorSD obj') = 1
         \<and> n_rows (NegativeProb obj') = 2 \<and> n_cols (NegativeProb obj') = 1
         \<and> n_rows (ZeroProb obj') = 2 \<and> n_cols (ZeroProb obj') = 1
         \<and> c_rows (PosteriorCov obj') = 1 \<and> c_cols (PosteriorCov obj') = 1
         \<and> n_slices (PosteriorCov obj') = 2)
   \<and> (\<exists>obj'. compute_posterior_comcov diag_lib mash_ex2 mash_ex2_w 4 = Some obj'
         \<and> n_rows (PosteriorMean obj') = 2 \<and> n_cols (PosteriorMean obj') = 1
         \<and> c_rows (PosteriorCov obj') = 1 \<and> c_cols (PosteriorCov obj') = 1
         \<and> n_slices (PosteriorCov obj') = 2)"
proof -
  have e: "mash_ex2 = mash_set_U0 (mash_set_vinv
       (PosteriorMASH_new (r12 1 1) (r12 1 1) empty_mat empty_mat (m11 1) empty_mat empty_mat
          (c112 1 0)) empty_cube) empty_cube"
    using mash_ex2_fields(11) by (simp add: mash_ex2_def)
  obtain o1 where o1: "compute_posterior diag_lib mash_ex2 mash_ex2_w 4 = Some o1"
    using mash_ex2_success(1) [of 4] by auto
  obtain o2 where o2: "compute_posterior_comcov diag_lib mash_ex2 mash_ex2_w 4 = Some o2"
    using mash_ex2_success(2) [of 4] by auto
  note t1 = accessor_shapes [OF disjI1, OF o1 [unfolded e]]
  note t2 = accessor_shapes [OF disjI2, OF o2 [unfolded e]]
  have "n_rows (PosteriorMean o1) = 2 \<and> n_cols (PosteriorMean o1) = 1
         \<and> n_rows (PosteriorSD o1) = 2 \<and> n_cols (PosteriorSD o1) = 1
         \<and> n_rows (NegativeProb o1) = 2 \<and> n_cols (NegativeProb o1) = 1
         \<and> n_rows (ZeroProb o1) = 2 \<and> n_cols (ZeroProb o1) = 1
         \<and> c_rows (PosteriorCov o1) = 1 \<and> c_cols (PosteriorCov o1) = 1
         \<and> n_slices (PosteriorCov o1) = 2"
    using t1 by simp
  moreover have "n_rows (PosteriorMean o2) = 2 \<and> n_cols (PosteriorMean o2) = 1
         \<and> c_rows (PosteriorCov o2) = 1 \<and> c_cols (PosteriorCov o2) = 1
         \<and> n_slices (PosteriorCov o2) = 2"
    using t2 by simp
  ultimately show ?thesis
    using e o1 o2 by simp
qed

text \<open>
  For one condition and two effects \<^verbatim>\<open>PosteriorMean\<close> has two rows and one column, not one
  row and two columns.
\<close>

theorem accessor_shapes_counterexample:
  "n_rows (b_mat mash_ex2) = 1 \<and> n_cols (b_mat mash_ex2) = 2 \<and> is_empty (a_mat mash_ex2)
   \<and> (\<exists>obj'. compute_posterior diag_lib mash_ex2 mash_ex2_w 1 = Some obj'
         \<and> n_rows (PosteriorMean obj') = 2 \<and> n_cols (PosteriorMean obj') = 1
         \<and> n_rows (PosteriorMean obj') \<noteq> n_rows (b_mat mash_ex2)
         \<and> n_cols (PosteriorMean obj') \<noteq> n_cols (b_mat mash_ex2))"
proof -
  obtain o1 where o1: "compute_posterior diag_lib mash_ex2 mash_ex2_w 1 = Some o1"
    using mash_ex2_success(1) [of 1] by auto
  have "mash_sized 1 2 o1"
    using o1 mash_ex2_sized by (rule compute_posterior_sized)
  from accessor_dims [OF this] show ?thesis
    using o1 by (simp add: mash_ex2_fields)
qed

section \<open>The posterior covariance of a component\<close>

lemma is_fin_iff: "is_fin x \<longleftrightarrow> x = Fin (rval x)"
  by (cases x) simp_all

lemma fin_matD:
  assumes "fin_mat M" and "i < n_rows M" and "j < n_cols M"
  shows "ent M i j = Fin (rval (ent M i j))"
  using assms by (simp add: fin_mat_def is_fin_iff [symmetric])

lemma sum_Fin: "(\<Sum>k<n::nat. Fin (f k)) = Fin (\<Sum>k<n. f k)"
  by (induction n) (simp_all add: zero_dbl_def)

lemma sum_Fin_cong:
  assumes "\<And>k. k < n \<Longrightarrow> g k = Fin (f k)"
  shows "(\<Sum>k<n::nat. g k) = Fin (\<Sum>k<n. f k)"
proof -
  have "(\<Sum>k<n. g k) = (\<Sum>k<n. Fin (f k))"
    using assms by (intro sum.cong) simp_all
  then show ?thesis by (simp add: sum_Fin)
qed

lemma mat_mul_fin:
  assumes "fin_mat A" and "fin_mat B" and "n_cols A = n_rows B"
    and "i < n_rows A" and "j < n_cols B"
  shows "ent (mat_mul A B) i j = Fin (\<Sum>k<n_cols A. rval (ent A i k) * rval (ent B k j))"
proof -
  have "ent A i k * ent B k j = Fin (rval (ent A i k) * rval (ent B k j))" if "k < n_cols A" for k
  proof -
    have "ent A i k = Fin (rval (ent A i k))" using assms(1,4) that by (rule fin_matD)
    moreover have "ent B k j = Fin (rval (ent B k j))"
      using assms(2,3,5) that by (intro fin_matD) simp_all
    ultimately show ?thesis by (metis times_dbl.simps(1))
  qed
  then have "(\<Sum>k<n_cols A. ent A i k * ent B k j)
             = Fin (\<Sum>k<n_cols A. rval (ent A i k) * rval (ent B k j))"
    by (rule sum_Fin_cong)
  then show ?thesis using assms(4,5) by (simp add: ent_simps2)
qed

lemma fin_mat_mul:
  assumes "fin_mat A" and "fin_mat B" and "n_cols A = n_rows B"
  shows "fin_mat (mat_mul A B)"
  unfolding fin_mat_def using mat_mul_fin [OF assms] by simp

lemma rval_mat_mul:
  assumes "fin_mat A" and "fin_mat B" and "n_cols A = n_rows B"
    and "i < n_rows A" and "j < n_cols B"
  shows "rval (ent (mat_mul A B) i j) = (\<Sum>k<n_cols A. rval (ent A i k) * rval (ent B k j))"
  using mat_mul_fin [OF assms] by simp

lemma mat_mul_assoc:
  assumes "fin_mat A" and "fin_mat B" and "fin_mat C"
    and "n_cols A = n_rows B" and "n_cols B = n_rows C"
  shows "mat_mul (mat_mul A B) C = mat_mul A (mat_mul B C)"
proof (rule wf_mat_eqI)
  fix i j
  assume "i < n_rows (mat_mul (mat_mul A B) C)" and "j < n_cols (mat_mul (mat_mul A B) C)"
  then have i: "i < n_rows A" and j: "j < n_cols C" by simp_all
  have fAB: "fin_mat (mat_mul A B)" using assms(1,2,4) by (rule fin_mat_mul)
  have fBC: "fin_mat (mat_mul B C)" using assms(2,3,5) by (rule fin_mat_mul)
  have "ent (mat_mul (mat_mul A B) C) i j
        = Fin (\<Sum>l<n_cols B. rval (ent (mat_mul A B) i l) * rval (ent C l j))"
    using mat_mul_fin [OF fAB assms(3) _ _ j, of i] assms(5) i by simp
  also have "(\<Sum>l<n_cols B. rval (ent (mat_mul A B) i l) * rval (ent C l j))
        = (\<Sum>l<n_cols B. (\<Sum>k<n_cols A. rval (ent A i k) * rval (ent B k l)) * rval (ent C l j))"
    by (intro sum.cong refl) (simp add: rval_mat_mul [OF assms(1,2,4) i])
  also have "\<dots> = (\<Sum>l<n_cols B. \<Sum>k<n_cols A.
                      rval (ent A i k) * rval (ent B k l) * rval (ent C l j))"
    by (simp add: sum_distrib_right)
  also have "\<dots> = (\<Sum>k<n_cols A. \<Sum>l<n_cols B.
                      rval (ent A i k) * rval (ent B k l) * rval (ent C l j))"
    by (rule sum.swap)
  also have "\<dots> = (\<Sum>k<n_cols A. rval (ent A i k)
                        * (\<Sum>l<n_cols B. rval (ent B k l) * rval (ent C l j)))"
    by (simp add: sum_distrib_left mult.assoc)
  also have "\<dots> = (\<Sum>k<n_cols A. rval (ent A i k) * rval (ent (mat_mul B C) k j))"
    using assms(4) by (intro sum.cong refl) (simp add: rval_mat_mul [OF assms(2,3,5) _ j])
  also have "Fin \<dots> = ent (mat_mul A (mat_mul B C)) i j"
    using mat_mul_fin [OF assms(1) fBC _ i, of j] assms(4) j by simp
  finally show "ent (mat_mul (mat_mul A B) C) i j = ent (mat_mul A (mat_mul B C)) i j" .
qed (simp_all add: mat_mul_def)

lemma eye_basic [simp]:
  "n_rows (eye R) = R" "n_cols (eye R) = R" "wf_mat (eye R)" "fin_mat (eye R)"
  "ent (eye R) i j = (if i < R \<and> j < R then (if i = j then Fin 1 else Fin 0) else 0)"
  by (simp_all add: eye_def fin_mat_def)

lemma mat_mul_eye:
  assumes "fin_mat A" and "wf_mat A" and "n_cols A = R"
  shows "mat_mul A (eye R) = A"
proof (rule wf_mat_eqI)
  fix i j
  assume "i < n_rows (mat_mul A (eye R))" and "j < n_cols (mat_mul A (eye R))"
  then have i: "i < n_rows A" and j: "j < R" by simp_all
  have "ent (mat_mul A (eye R)) i j
        = Fin (\<Sum>k<n_cols A. rval (ent A i k) * rval (ent (eye R) k j))"
    using assms i j by (intro mat_mul_fin) simp_all
  also have "(\<Sum>k<n_cols A. rval (ent A i k) * rval (ent (eye R) k j))
        = (\<Sum>k<R. if k = j then rval (ent A i j) else 0)"
    unfolding assms(3) using j by (intro sum.cong refl) simp
  also have "\<dots> = rval (ent A i j)"
    using j by simp
  also have "Fin \<dots> = ent A i j"
    using fin_matD [OF assms(1) i] j assms(3) by simp
  finally show "ent (mat_mul A (eye R)) i j = ent A i j" .
qed (use assms in \<open>simp_all add: mat_mul_def\<close>)

lemma eye_mat_mul:
  assumes "fin_mat A" and "wf_mat A" and "n_rows A = R"
  shows "mat_mul (eye R) A = A"
proof (rule wf_mat_eqI)
  fix i j
  assume "i < n_rows (mat_mul (eye R) A)" and "j < n_cols (mat_mul (eye R) A)"
  then have i: "i < R" and j: "j < n_cols A" by simp_all
  have "ent (mat_mul (eye R) A) i j
        = Fin (\<Sum>k<n_cols (eye R). rval (ent (eye R) i k) * rval (ent A k j))"
    using assms i j by (intro mat_mul_fin) simp_all
  also have "(\<Sum>k<n_cols (eye R). rval (ent (eye R) i k) * rval (ent A k j))
        = (\<Sum>k<R. if k = i then rval (ent A i j) else 0)"
    unfolding eye_basic(2) by (intro sum.cong refl) (use i in auto)
  also have "\<dots> = rval (ent A i j)"
    using i by simp
  also have "Fin \<dots> = ent A i j"
    using fin_matD [OF assms(1) _ j, of i] i assms(3) by simp
  finally show "ent (mat_mul (eye R) A) i j = ent A i j" .
qed (use assms in \<open>simp_all add: mat_mul_def\<close>)

lemma add_diag_eye:
  assumes "n_rows S = R" and "n_cols S = R" and "fin_mat S"
  shows "add_diag S (Fin 1) = mat_add S (eye R)"
proof (rule wf_mat_eqI)
  fix i j
  assume "i < n_rows (add_diag S (Fin 1))" and "j < n_cols (add_diag S (Fin 1))"
  then have i: "i < R" and j: "j < R" using assms by simp_all
  have "ent S i j = Fin (rval (ent S i j))"
    using assms i j by (intro fin_matD) simp_all
  then show "ent (add_diag S (Fin 1)) i j = ent (mat_add S (eye R)) i j"
    using i j assms by (auto simp: ent_simps2)
qed (use assms in \<open>simp_all add: add_diag_def mat_add_def\<close>)

lemma inverse_unique:
  assumes "is_inverse R S W" and "fin_mat S" and "n_rows S = R" and "n_cols S = R"
    and "wf_mat W'" and "fin_mat W'" and "n_rows W' = R" and "n_cols W' = R"
    and "mat_mul S W' = eye R"
  shows "W' = W"
proof -
  have W: "wf_mat W" "n_rows W = R" "n_cols W = R" "fin_mat W" "mat_mul W S = eye R"
    using assms(1) by (simp_all add: is_inverse_def)
  have "W = mat_mul W (eye R)" using W by (simp add: mat_mul_eye)
  also have "\<dots> = mat_mul W (mat_mul S W')" using assms(9) by simp
  also have "\<dots> = mat_mul (mat_mul W S) W'"
    using W assms by (intro mat_mul_assoc [symmetric]) simp_all
  also have "\<dots> = W'" using W assms by (simp add: eye_mat_mul)
  finally show ?thesis by simp
qed

lemma fin_mat_add:
  assumes "fin_mat A" and "fin_mat B" and "n_rows B = n_rows A" and "n_cols B = n_cols A"
  shows "fin_mat (mat_add A B)"
  unfolding fin_mat_def
proof (intro allI impI)
  fix i j
  assume "i < n_rows (mat_add A B)" and "j < n_cols (mat_add A B)"
  then have ij: "i < n_rows A" "j < n_cols A" by simp_all
  have "ent A i j = Fin (rval (ent A i j))" using assms(1) ij by (rule fin_matD)
  moreover have "ent B i j = Fin (rval (ent B i j))"
    using assms(2-4) ij by (intro fin_matD) simp_all
  ultimately have "ent A i j + ent B i j = Fin (rval (ent A i j) + rval (ent B i j))"
    by (metis plus_dbl.simps(1))
  then show "is_fin (ent (mat_add A B) i j)"
    using ij by (simp add: ent_simps2)
qed

lemma posterior_cov_eq:
  fixes lib :: arma
  assumes dims: "n_rows Vinv = R" "n_cols Vinv = R" "n_rows U = R" "n_cols U = R"
    and fin: "fin_mat Vinv" "fin_mat U"
  shows "get_posterior_cov lib Vinv U
         = map_option (mat_mul U) (inv_mat lib (mat_add (mat_mul Vinv U) (eye R)))"
proof -
  have "fin_mat (mat_mul Vinv U)" using fin dims by (intro fin_mat_mul) simp_all
  then have "add_diag (mat_mul Vinv U) (Fin 1) = mat_add (mat_mul Vinv U) (eye R)"
    using dims by (intro add_diag_eye) simp_all
  then show ?thesis
    by (simp add: get_posterior_cov_def Let_def split: option.splits)
qed

lemma posterior_cov_solves:
  assumes dims: "n_rows Vinv = R" "n_cols Vinv = R" "n_rows U = R" "n_cols U = R"
    and fin: "fin_mat Vinv" "fin_mat U" "wf_mat U"
    and W: "is_inverse R (mat_add (mat_mul Vinv U) (eye R)) W"
  shows "mat_mul (mat_mul U W) (mat_add (mat_mul Vinv U) (eye R)) = U"
    and "fin_mat (mat_add (mat_mul Vinv U) (eye R))"
proof -
  let ?S = "mat_add (mat_mul Vinv U) (eye R)"
  have fS: "fin_mat ?S"
    using fin dims by (intro fin_mat_add fin_mat_mul) simp_all
  have Wf: "wf_mat W" "n_rows W = R" "n_cols W = R" "fin_mat W" "mat_mul W ?S = eye R"
    using W by (simp_all add: is_inverse_def)
  have "mat_mul (mat_mul U W) ?S = mat_mul U (mat_mul W ?S)"
    using fin Wf fS dims by (intro mat_mul_assoc) simp_all
  also have "\<dots> = U" using Wf fin dims by (simp add: mat_mul_eye)
  finally show "mat_mul (mat_mul U W) ?S = U" .
  show "fin_mat ?S" by (rule fS)
qed

lemma posterior_cov_scalar:
  assumes dims: "n_rows Vinv = 1" "n_cols Vinv = 1" "n_rows U = 1" "n_cols U = 1"
    and fin: "fin_mat Vinv" "fin_mat U"
    and W: "is_inverse 1 (mat_add (mat_mul Vinv U) (eye 1)) W"
  shows "ent (mat_mul U W) 0 0 = ent U 0 0 / (ent Vinv 0 0 * ent U 0 0 + Fin 1)"
proof -
  define S where "S = mat_add (mat_mul Vinv U) (eye 1)"
  obtain u where u: "ent U 0 0 = Fin u"
    using fin_matD [OF fin(2), of 0 0] dims by auto
  obtain a where a: "ent Vinv 0 0 = Fin a"
    using fin_matD [OF fin(1), of 0 0] dims by auto
  have Wd: "n_rows W = 1" "n_cols W = 1" and Wf: "fin_mat W"
    and WS: "mat_mul W S = eye 1"
    using W by (simp_all add: is_inverse_def S_def)
  obtain x where x: "ent W 0 0 = Fin x"
    using fin_matD [OF Wf, of 0 0] Wd by auto
  have S: "ent S 0 0 = Fin (a * u + 1)" "n_rows S = 1" "n_cols S = 1"
    using dims u a by (simp_all add: ent_simps2 S_def)
  have "ent (mat_mul W S) 0 0 = Fin (x * (a * u + 1))"
    using Wd x S by (simp add: ent_simps2(6))
  moreover have "ent (mat_mul W S) 0 0 = Fin 1"
    unfolding WS by simp
  ultimately have xs: "x * (a * u + 1) = 1" by simp
  then have nz: "a * u + 1 \<noteq> 0" by auto
  then have "x = 1 / (a * u + 1)" using xs by (simp add: field_simps)
  then have "ent (mat_mul U W) 0 0 = Fin (u / (a * u + 1))"
    using dims Wd u x by (simp add: ent_simps2(6))
  then show ?thesis using u a nz by simp
qed

lemma posterior_cov_unique:
  assumes dims: "n_rows Vinv = R" "n_cols Vinv = R" "n_rows U = R" "n_cols U = R"
    and fin: "fin_mat Vinv" "fin_mat U" "wf_mat U"
    and W: "is_inverse R (mat_add (mat_mul Vinv U) (eye R)) W"
    and W': "wf_mat W'" "fin_mat W'" "n_rows W' = R" "n_cols W' = R"
      "mat_mul (mat_add (mat_mul Vinv U) (eye R)) W' = eye R"
  shows "mat_mul U W' = mat_mul U W"
proof -
  define S where "S = mat_add (mat_mul Vinv U) (eye R)"
  have fS: "fin_mat S" unfolding S_def using dims fin W by (rule posterior_cov_solves(2))
  have dS: "n_rows S = R" "n_cols S = R" using dims by (simp_all add: S_def)
  have "W' = W"
    using W [folded S_def] fS dS W'(1-4) W'(5) [folded S_def] by (rule inverse_unique)
  then show ?thesis by simp
qed

lemma posterior_cov_ash:
  assumes sc: "x = ent U 0 0 / (ent Vinv 0 0 * ent U 0 0 + Fin 1)"
    and sh: "ash_shapes obj" and j: "j < n_rows (b_vec obj)"
    and u: "ent (U_vec obj) p 0 = ent U 0 0"
    and a: "Fin 1 / (ent (s_vec obj) j 0 * ent (s_vec obj) j 0 * v obj) = ent Vinv 0 0"
  shows "ent (fst (ash_component lib' obj (ash_vinv_vec obj) mean J p loc)) j 0
         = x * (ent (s_alpha_vec obj) j 0 * ent (s_alpha_vec obj) j 0)"
proof -
  have "ent (fst (ash_component lib' obj (ash_vinv_vec obj) mean J p loc)) j 0
        = spec_ash_var obj j p"
    using sh j by (rule ash_component_U1)
  also have "\<dots> = ent (U_vec obj) p 0
              / (Fin 1 / (ent (s_vec obj) j 0 * ent (s_vec obj) j 0 * v obj) * ent (U_vec obj) p 0
                 + Fin 1)
              * (ent (s_alpha_vec obj) j 0 * ent (s_alpha_vec obj) j 0)"
    by (simp add: spec_ash_var_def spec_ash_U1_def spec_ash_vinv_def)
  also have "\<dots> = x * (ent (s_alpha_vec obj) j 0 * ent (s_alpha_vec obj) j 0)"
    unfolding u a sc ..
  finally show ?thesis .
qed

text \<open>
  C5.  For square matrices \<open>Vinv\<close> and \<open>U\<close> with \<open>R\<close> rows and finite entries, when the
  library inverts \<open>Vinv * U + I\<close>, \<^verbatim>\<open>get_posterior_cov\<close> returns \<open>U\<close> times that inverse: the
  solution \<open>X\<close> of \<open>X * (Vinv * U + I) = U\<close>, and the same matrix whichever inverse of
  \<open>Vinv * U + I\<close> is taken.  For one condition the entry is \<open>U / (vinv * U + 1)\<close>, and when
  the univariate engine is given that \<open>U\<close> as the variance of the component \<open>p\<close> and that
  \<open>vinv\<close> as the precision of the effect \<open>j\<close>, the variance it computes for them is this
  entry, rescaled by \<open>alpha_j^2\<close>.  When the library finds no inverse, the function throws.
\<close>

theorem posterior_cov_formula:
  fixes lib :: arma
  assumes "n_rows Vinv = R" and "n_cols Vinv = R" and "n_rows U = R" and "n_cols U = R"
    and "fin_mat Vinv" and "fin_mat U" and "wf_mat U"
    and "inv_mat lib (mat_add (mat_mul Vinv U) (eye R)) = Some W
         \<longrightarrow> is_inverse R (mat_add (mat_mul Vinv U) (eye R)) W"
  shows "(inv_mat lib (mat_add (mat_mul Vinv U) (eye R)) = None
            \<longrightarrow> get_posterior_cov lib Vinv U = None)
    \<and> (inv_mat lib (mat_add (mat_mul Vinv U) (eye R)) = Some W \<longrightarrow>
          get_posterior_cov lib Vinv U = Some (mat_mul U W)
          \<and> mat_mul (mat_mul U W) (mat_add (mat_mul Vinv U) (eye R)) = U
          \<and> (\<forall>W'. wf_mat W' \<and> fin_mat W' \<and> n_rows W' = R \<and> n_cols W' = R
                  \<and> mat_mul (mat_add (mat_mul Vinv U) (eye R)) W' = eye R
                \<longrightarrow> mat_mul U W' = mat_mul U W)
          \<and> (R = 1 \<longrightarrow>
                ent (mat_mul U W) 0 0 = ent U 0 0 / (ent Vinv 0 0 * ent U 0 0 + Fin 1)
                \<and> (ash_shapes obj \<and> j < n_rows (b_vec obj)
                     \<and> ent (U_vec obj) p 0 = ent U 0 0
                     \<and> Fin 1 / (ent (s_vec obj) j 0 * ent (s_vec obj) j 0 * v obj) = ent Vinv 0 0
                   \<longrightarrow> ent (fst (ash_component lib' obj (ash_vinv_vec obj) mean J p loc)) j 0
                       = ent (mat_mul U W) 0 0
                         * (ent (s_alpha_vec obj) j 0 * ent (s_alpha_vec obj) j 0))))"
proof -
  define S where "S = mat_add (mat_mul Vinv U) (eye R)"
  note eq = posterior_cov_eq [OF assms(1-6), of lib, folded S_def]
  have a: "inv_mat lib S = None \<longrightarrow> get_posterior_cov lib Vinv U = None"
    unfolding eq by simp
  have b: "get_posterior_cov lib Vinv U = Some (mat_mul U W)
          \<and> mat_mul (mat_mul U W) S = U
          \<and> (\<forall>W'. wf_mat W' \<and> fin_mat W' \<and> n_rows W' = R \<and> n_cols W' = R
                  \<and> mat_mul S W' = eye R
                \<longrightarrow> mat_mul U W' = mat_mul U W)
          \<and> (R = 1 \<longrightarrow>
                ent (mat_mul U W) 0 0 = ent U 0 0 / (ent Vinv 0 0 * ent U 0 0 + Fin 1)
                \<and> (ash_shapes obj \<and> j < n_rows (b_vec obj)
                     \<and> ent (U_vec obj) p 0 = ent U 0 0
                     \<and> Fin 1 / (ent (s_vec obj) j 0 * ent (s_vec obj) j 0 * v obj) = ent Vinv 0 0
                   \<longrightarrow> ent (fst (ash_component lib' obj (ash_vinv_vec obj) mean J p loc)) j 0
                       = ent (mat_mul U W) 0 0
                         * (ent (s_alpha_vec obj) j 0 * ent (s_alpha_vec obj) j 0)))"
    if inv: "inv_mat lib S = Some W"
  proof -
    have W: "is_inverse R (mat_add (mat_mul Vinv U) (eye R)) W"
      using assms(8) inv unfolding S_def by blast
    have c1: "get_posterior_cov lib Vinv U = Some (mat_mul U W)"
      unfolding eq inv by simp
    have c2: "mat_mul (mat_mul U W) S = U"
      unfolding S_def using assms(1-7) W by (rule posterior_cov_solves(1))
    have c3: "mat_mul U W' = mat_mul U W"
      if "wf_mat W' \<and> fin_mat W' \<and> n_rows W' = R \<and> n_cols W' = R \<and> mat_mul S W' = eye R"
      for W'
    proof -
      from that have w: "wf_mat W'" "fin_mat W'" "n_rows W' = R" "n_cols W' = R"
        "mat_mul (mat_add (mat_mul Vinv U) (eye R)) W' = eye R"
        unfolding S_def by blast+
      show ?thesis using assms(1-7) W w by (rule posterior_cov_unique)
    qed
    have c4: "ent (mat_mul U W) 0 0 = ent U 0 0 / (ent Vinv 0 0 * ent U 0 0 + Fin 1)"
      if R: "R = 1"
      using assms(1-6) W unfolding R by (rule posterior_cov_scalar)
    have c5: "ent (fst (ash_component lib' obj (ash_vinv_vec obj) mean J p loc)) j 0
               = ent (mat_mul U W) 0 0
                 * (ent (s_alpha_vec obj) j 0 * ent (s_alpha_vec obj) j 0)"
      if R: "R = 1" and h: "ash_shapes obj \<and> j < n_rows (b_vec obj)
                     \<and> ent (U_vec obj) p 0 = ent U 0 0
                     \<and> Fin 1 / (ent (s_vec obj) j 0 * ent (s_vec obj) j 0 * v obj) = ent Vinv 0 0"
    proof -
      from h have h': "ash_shapes obj" "j < n_rows (b_vec obj)" "ent (U_vec obj) p 0 = ent U 0 0"
        "Fin 1 / (ent (s_vec obj) j 0 * ent (s_vec obj) j 0 * v obj) = ent Vinv 0 0"
        by blast+
      show ?thesis using c4 [OF R] h' by (rule posterior_cov_ash)
    qed
    from c1 c2 c3 c4 c5 show ?thesis by blast
  qed
  from a b show ?thesis unfolding S_def by blast
qed

lemma d22_basic [simp]:
  "n_rows (d22 x y) = 2" "n_cols (d22 x y) = 2" "wf_mat (d22 x y)" "fin_mat (d22 x y)"
  "ent (d22 x y) 0 0 = Fin x" "ent (d22 x y) 0 (Suc 0) = Fin 0"
  "ent (d22 x y) (Suc 0) 0 = Fin 0" "ent (d22 x y) (Suc 0) (Suc 0) = Fin y"
  by (simp_all add: d22_def of_rows_def fin_mat_def)

lemma d22I:
  assumes "wf_mat M" and "n_rows M = 2" and "n_cols M = 2"
    and "ent M 0 0 = Fin x" and "ent M 0 (Suc 0) = Fin 0"
    and "ent M (Suc 0) 0 = Fin 0" and "ent M (Suc 0) (Suc 0) = Fin y"
  shows "M = d22 x y"
proof (rule wf_mat_eqI)
  fix i j
  assume "i < n_rows M" and "j < n_cols M"
  then have "(i = 0 \<or> i = Suc 0) \<and> (j = 0 \<or> j = Suc 0)"
    using assms(2,3) by auto
  then show "ent M i j = ent (d22 x y) i j"
    using assms(4-7) by auto
qed (use assms in simp_all)

lemma d22_ops [simp]:
  "mat_mul (d22 a b) (d22 c d) = d22 (a * c) (b * d)"
  "mat_add (d22 a b) (d22 c d) = d22 (a + c) (b + d)"
  "eye 2 = d22 1 1"
  by (rule d22I; simp add: ent_simps2 lessThan_2)+

lemma d22_inv [simp]:
  "inv_mat diag_lib (d22 a b) = (if a \<noteq> 0 \<and> b \<noteq> 0 then Some (d22 (1 / a) (1 / b)) else None)"
proof -
  have dw: "diag_with dnonzero (d22 a b) \<longleftrightarrow> a \<noteq> 0 \<and> b \<noteq> 0"
    by (auto simp: diag_with_def less_Suc_eq numeral_2_eq_2 d22_def of_rows_def)
  have "mk_mat 2 2 (\<lambda>i j. if i = j then Fin 1 / ent (d22 a b) i j else Fin 0)
        = d22 (1 / a) (1 / b)" if "a \<noteq> 0" "b \<noteq> 0"
    using that by (intro d22I) simp_all
  then show ?thesis
    by (simp add: diag_lib_def diag_inv_def dw)
qed

lemma m11_fin [simp]: "fin_mat (m11 x)" "eye 1 = m11 1" "eye (Suc 0) = m11 1"
  by (simp add: fin_mat_def m11_def of_rows_def, (rule m11I; simp)+)

theorem posterior_cov_formula_witness:
  "n_rows (d22 1 (1 / 4)) = 2 \<and> n_cols (d22 1 (1 / 4)) = 2
   \<and> n_rows (d22 1 2) = 2 \<and> n_cols (d22 1 2) = 2
   \<and> fin_mat (d22 1 (1 / 4)) \<and> fin_mat (d22 1 2) \<and> wf_mat (d22 1 2)
   \<and> inv_mat diag_lib (mat_add (mat_mul (d22 1 (1 / 4)) (d22 1 2)) (eye 2))
       = Some (d22 (1 / 2) (2 / 3))
   \<and> is_inverse 2 (mat_add (mat_mul (d22 1 (1 / 4)) (d22 1 2)) (eye 2)) (d22 (1 / 2) (2 / 3))
   \<and> get_posterior_cov diag_lib (d22 1 (1 / 4)) (d22 1 2) = Some (d22 (1 / 2) (4 / 3))
   \<and> mat_mul (d22 (1 / 2) (4 / 3)) (mat_add (mat_mul (d22 1 (1 / 4)) (d22 1 2)) (eye 2))
       = d22 1 2
   \<and> is_inverse 1 (mat_add (mat_mul (m11 (1 / 4)) (m11 2)) (eye 1)) (m11 (2 / 3))
   \<and> get_posterior_cov diag_lib (m11 (1 / 4)) (m11 2) = Some (m11 (4 / 3))
   \<and> ent (m11 (4 / 3)) 0 0 = Fin 2 / (Fin (1 / 4) * Fin 2 + Fin 1)
   \<and> ash_shapes ash_ex \<and> 1 < n_rows (b_vec ash_ex)
   \<and> ent (U_vec ash_ex) 1 0 = Fin 2
   \<and> Fin 1 / (ent (s_vec ash_ex) 1 0 * ent (s_vec ash_ex) 1 0 * v ash_ex) = Fin (1 / 4)
   \<and> ent (fst (ash_component diag_lib ash_ex (ash_vinv_vec ash_ex) (zeros 2 1) 2 1
                  \<lparr>mu1_mat = zeros 2 2, diag_mu2_mat = zeros 2 2,
                   zero_mat = zeros 2 2, neg_mat = zeros 2 2\<rparr>)) 1 0 = Fin 12"
proof -
  define S2 where "S2 = mat_add (mat_mul (d22 1 (1 / 4)) (d22 1 2)) (eye 2)"
  define S1 where "S1 = mat_add (mat_mul (m11 (1 / 4)) (m11 2)) (eye 1)"
  have S2: "S2 = d22 2 (3 / 2)" by (simp add: S2_def)
  have S1: "S1 = m11 (3 / 2)" by (simp add: S1_def)
  have i2: "inv_mat diag_lib S2 = Some (d22 (1 / 2) (2 / 3))"
    unfolding S2 by simp
  have v2: "is_inverse 2 S2 (d22 (1 / 2) (2 / 3))"
    unfolding S2 by (simp add: is_inverse_def)
  have i1: "inv_mat diag_lib S1 = Some (m11 (2 / 3))"
    unfolding S1 by simp
  have v1: "is_inverse 1 S1 (m11 (2 / 3))"
    unfolding S1 by (simp add: is_inverse_def)
  have d2: "n_rows (d22 1 (1 / 4)) = 2" "n_cols (d22 1 (1 / 4)) = 2"
    "n_rows (d22 1 2) = 2" "n_cols (d22 1 2) = 2"
    "fin_mat (d22 1 (1 / 4))" "fin_mat (d22 1 2)" "wf_mat (d22 1 2)"
    by simp_all
  have d1: "n_rows (m11 (1 / 4)) = 1" "n_cols (m11 (1 / 4)) = 1"
    "n_rows (m11 2) = 1" "n_cols (m11 2) = 1"
    "fin_mat (m11 (1 / 4))" "fin_mat (m11 2)" "wf_mat (m11 2)"
    by simp_all
  have c2: "inv_mat diag_lib (mat_add (mat_mul (d22 1 (1 / 4)) (d22 1 2)) (eye 2))
              = Some (d22 (1 / 2) (2 / 3))
            \<longrightarrow> is_inverse 2 (mat_add (mat_mul (d22 1 (1 / 4)) (d22 1 2)) (eye 2))
                  (d22 (1 / 2) (2 / 3))"
    using v2 unfolding S2_def by blast
  have c1: "inv_mat diag_lib (mat_add (mat_mul (m11 (1 / 4)) (m11 2)) (eye 1))
              = Some (m11 (2 / 3))
            \<longrightarrow> is_inverse 1 (mat_add (mat_mul (m11 (1 / 4)) (m11 2)) (eye 1)) (m11 (2 / 3))"
    using v1 unfolding S1_def by blast
  note t2 = posterior_cov_formula [OF d2 c2, folded S2_def]
  have r2: "get_posterior_cov diag_lib (d22 1 (1 / 4)) (d22 1 2)
              = Some (mat_mul (d22 1 2) (d22 (1 / 2) (2 / 3)))"
    "mat_mul (mat_mul (d22 1 2) (d22 (1 / 2) (2 / 3))) S2 = d22 1 2"
    using t2 i2 by blast+
  have p2: "mat_mul (d22 1 2) (d22 (1 / 2) (2 / 3)) = d22 (1 / 2) (4 / 3)"
    by simp
  have sh: "ash_shapes ash_ex"
    by (simp add: ash_shapes_def ash_ex_fields of_rows_def)
  have h: "1 < n_rows (b_vec ash_ex)" "ent (U_vec ash_ex) 1 0 = Fin 2"
    "Fin 1 / (ent (s_vec ash_ex) 1 0 * ent (s_vec ash_ex) 1 0 * v ash_ex) = Fin (1 / 4)"
    by (simp_all add: ash_ex_fields of_rows_def)
  have al: "ent (s_alpha_vec ash_ex) 1 0 = Fin 3"
    by (simp add: ash_ex_fields of_rows_def)
  have e: "ent (m11 2) 0 0 = Fin 2" "ent (m11 (1 / 4)) 0 0 = Fin (1 / 4)"
    by simp_all
  note t1 = posterior_cov_formula [OF d1 c1, folded S1_def, where obj = ash_ex and j = 1
      and p = 1 and lib' = diag_lib and mean = "zeros 2 1" and J = 2
      and loc = "\<lparr>mu1_mat = zeros 2 2, diag_mu2_mat = zeros 2 2,
                   zero_mat = zeros 2 2, neg_mat = zeros 2 2\<rparr>"]
  have p1: "mat_mul (m11 2) (m11 (2 / 3)) = m11 (4 / 3)"
    by simp
  have r1: "get_posterior_cov diag_lib (m11 (1 / 4)) (m11 2)
              = Some (mat_mul (m11 2) (m11 (2 / 3)))"
    "ent (mat_mul (m11 2) (m11 (2 / 3))) 0 0
       = ent (m11 2) 0 0 / (ent (m11 (1 / 4)) 0 0 * ent (m11 2) 0 0 + Fin 1)"
    "ent (fst (ash_component diag_lib ash_ex (ash_vinv_vec ash_ex) (zeros 2 1) 2 1
                  \<lparr>mu1_mat = zeros 2 2, diag_mu2_mat = zeros 2 2,
                   zero_mat = zeros 2 2, neg_mat = zeros 2 2\<rparr>)) 1 0
       = ent (mat_mul (m11 2) (m11 (2 / 3))) 0 0
         * (ent (s_alpha_vec ash_ex) 1 0 * ent (s_alpha_vec ash_ex) 1 0)"
    using t1 i1 sh h unfolding e by blast+
  have r1': "ent (fst (ash_component diag_lib ash_ex (ash_vinv_vec ash_ex) (zeros 2 1) 2 1
                  \<lparr>mu1_mat = zeros 2 2, diag_mu2_mat = zeros 2 2,
                   zero_mat = zeros 2 2, neg_mat = zeros 2 2\<rparr>)) 1 0 = Fin 12"
    unfolding r1(3) p1 al by simp
  show ?thesis
    using d2 i2 v2 r2 v1 r1(1,2) r1' sh h
    unfolding p2 p1 e S2_def S1_def by blast
qed

section \<open>The outputs of the engine for a common covariance\<close>

lemma comcov_locals_entries:
  fixes lib :: arma and mu1 U1 sg :: "dbl mat"
  assumes d: "n_rows mu1 = R" "n_cols mu1 = J" and sd: "n_rows sg = R" "n_cols sg = J"
    and sg: "\<forall>i<R. \<forall>k<J. ent sg i k = ent (map_ent dsqrt (diagvec U1)) i 0"
    and r: "r < R" and j: "j < J"
  defines "loc \<equiv> comcov_locals lib (zeros R J) (ones 1 J) (zeros 1 J) mu1 U1 sg R J"
  shows "ent (zero_mat loc) r j = comp_zero U1 r"
    and "ent (neg_mat loc) r j = comp_neg lib (col mu1 j) U1 r"
    and "ent (mu1_mat loc) r j = ent mu1 r j"
    and "ent (diag_mu2_mat loc) r j = ent mu1 r j * ent mu1 r j + ent (diagvec U1) r 0"
    and "n_rows (zero_mat loc) = R" and "n_cols (zero_mat loc) = J"
    and "n_rows (neg_mat loc) = R" and "n_cols (neg_mat loc) = J"
    and "n_rows (mu1_mat loc) = R" and "n_cols (mu1_mat loc) = J"
    and "n_rows (diag_mu2_mat loc) = R" and "n_cols (diag_mu2_mat loc) = J"
proof -
  define Svec where "Svec = map_ent dsqrt (diagvec U1)"
  define neg where "neg = pnorm lib mu1 (zeros R J) sg False True"
  define l0 where "l0 = \<lparr>mu1_mat = mu1, diag_mu2_mat = each_col_add (pow2 mu1) (diagvec U1),
        zero_mat = zeros R J, neg_mat = neg\<rparr>"
  have loc: "loc = mark_degenerate_rows Svec (ones 1 J) (zeros 1 J) l0"
    by (simp add: loc_def comcov_locals_def Svec_def neg_def l0_def)
  have l0: "mu1_mat l0 = mu1" "diag_mu2_mat l0 = each_col_add (pow2 mu1) (diagvec U1)"
    "zero_mat l0 = zeros R J" "neg_mat l0 = neg"
    by (simp_all add: l0_def)
  have nd: "n_rows neg = R" "n_cols neg = J"
    using d by (simp_all add: neg_def pnorm_def Let_def)
  have ne: "n_elem Svec = min (n_rows U1) (n_cols U1)"
    by (simp add: Svec_def n_elem_def)
  have sv: "ent Svec r 0 = 0 \<longleftrightarrow> ent U1 r r = 0" if "r < min (n_rows U1) (n_cols U1)"
    using that by (simp add: Svec_def ent_simps ent_simps2)
  have deg: "(r < n_elem Svec \<and> ent Svec r 0 = 0)
             \<longleftrightarrow> (r < min (n_rows U1) (n_cols U1) \<and> ent U1 r r = 0)"
    unfolding ne using sv by blast
  have ng: "ent neg r j
            = Fin (1 / 2) * derfc (erfc lib)
                (ent mu1 r j / ent (map_ent dsqrt (diagvec U1)) r 0 * M_SQRT1_2)"
    using d sd sg r j by (simp add: neg_def pnorm_def Let_def ent_simps ent_simps2)
  show "ent (zero_mat loc) r j = comp_zero U1 r"
    unfolding loc using r j deg
    by (simp add: mark_degenerate_rows_zero l0 comp_zero_def ent_simps one_dbl_def zero_dbl_def)
  show "ent (neg_mat loc) r j = comp_neg lib (col mu1 j) U1 r"
    unfolding loc using r j deg nd ng d
    by (simp add: mark_degenerate_rows_neg l0 comp_neg_def ent_simps zero_dbl_def)
  show "ent (mu1_mat loc) r j = ent mu1 r j"
    unfolding loc by (simp add: mark_degenerate_rows_fields l0)
  show "ent (diag_mu2_mat loc) r j = ent mu1 r j * ent mu1 r j + ent (diagvec U1) r 0"
    unfolding loc using r j d by (simp add: mark_degenerate_rows_fields l0 ent_simps2)
  show "n_rows (zero_mat loc) = R" "n_cols (zero_mat loc) = J"
    "n_rows (neg_mat loc) = R" "n_cols (neg_mat loc) = J"
    "n_rows (mu1_mat loc) = R" "n_cols (mu1_mat loc) = J"
    "n_rows (diag_mu2_mat loc) = R" "n_cols (diag_mu2_mat loc) = J"
    unfolding loc using nd d by (simp_all add: mark_degenerate_rows_fields l0)
qed

lemma sum_lessThan_Suc_dbl: "(\<Sum>p<Suc n. f p) = (\<Sum>p<n. f p) + (f n :: dbl)"
  by simp

lemma comcov_loop_outputs:
  fixes lib :: arma
  assumes L: "comcov_loop lib w rt Vinv (zeros R J) (ones 1 J) (zeros 1 J) n (sigma, obj)
              = Some (sigma', obj')"
    and od: "out_dims R J obj" and ns: "n_slices (post_cov obj) = J"
    and sd: "n_rows sigma = R" "n_cols sigma = J" and wc: "n_cols w = J"
    and md: "comcov_shapes lib obj Vinv R J n"
  shows "\<forall>r<R. \<forall>j<J.
           ent (post_mean obj') r j
             = ent (post_mean obj) r j + (\<Sum>p<n. comcov_mean lib obj Vinv j p r * ent w p j)
         \<and> ent (post_var obj') r j
             = ent (post_var obj) r j + (\<Sum>p<n. comcov_mu2 lib obj Vinv j p r * ent w p j)
         \<and> ent (neg_prob obj') r j
             = ent (neg_prob obj) r j + (\<Sum>p<n. comcov_neg lib obj Vinv j p r * ent w p j)
         \<and> ent (zero_prob obj') r j
             = ent (zero_prob obj) r j + (\<Sum>p<n. comcov_zero lib obj Vinv p r * ent w p j)"
  using L md
proof (induction n arbitrary: sigma' obj')
  case 0
  then show ?case by (simp add: comcov_loop_def zero_dbl_def)
next
  case (Suc n)
  from Suc.prems(1) obtain st where
    st: "comcov_loop lib w rt Vinv (zeros R J) (ones 1 J) (zeros 1 J) n (sigma, obj) = Some st"
    and step: "map_option snd
                 (mash_comcov_component lib w rt Vinv (zeros R J) (ones 1 J) (zeros 1 J) n st)
               = Some (sigma', obj')"
    unfolding comcov_loop_def by (rule fold_opt_Suc_SomeD)
  obtain s1 o1 where st1: "st = (s1, o1)" by (cases st)
  from step obtain loc where
    c: "mash_comcov_component lib w rt Vinv (zeros R J) (ones 1 J) (zeros 1 J) n (s1, o1)
        = Some (loc, sigma', obj')"
    unfolding st1
    by (cases "mash_comcov_component lib w rt Vinv (zeros R J) (ones 1 J) (zeros 1 J) n (s1, o1)")
       auto
  have md': "comcov_shapes lib obj Vinv R J n"
    using Suc.prems(2) by (simp add: comcov_shapes_def)
  note IH = Suc.IH [OF st [unfolded st1] md']
  have nz: "n_cols sigma = n_slices (post_cov obj)" using sd ns by simp
  note LR = comcov_loop_result [OF st [unfolded st1] nz, where R = R and J = J]
  have in1: "mash_inputs o1 = mash_inputs obj" using LR by blast
  note cg = comcov_inputs_cong [OF in1]
  have od1: "out_dims R J o1" using LR od by blast
  have s1d: "n_rows s1 = R" "n_cols s1 = J" using LR sd by simp_all
  have n1: "n_cols s1 = n_slices (post_cov o1)" using LR nz by simp
  note C = comcov_component_result [OF c n1]
  have sg': "n_rows sigma' = R" "n_cols sigma' = J" using C(4,5) s1d by simp_all
  have se: "\<forall>i<R. \<forall>k<J.
              ent sigma' i k = ent (map_ent dsqrt (diagvec (comcov_U1_at lib obj Vinv n))) i 0"
    using C(17) s1d by (simp add: cg)
  have mu: "n_rows (comcov_mu1_at lib obj Vinv n) = R" "n_cols (comcov_mu1_at lib obj Vinv n) = J"
    using Suc.prems(2) by (simp_all add: comcov_shapes_def)
  have RJ: "n_rows (post_mean o1) = R" "n_cols (post_mean o1) = J"
    "n_rows (post_var o1) = R" "n_cols (post_var o1) = J"
    "n_rows (neg_prob o1) = R" "n_cols (neg_prob o1) = J"
    "n_rows (zero_prob o1) = R" "n_cols (zero_prob o1) = J"
    using od1 by (simp_all add: out_dims_def)
  have loc: "loc = comcov_locals lib (zeros R J) (ones 1 J) (zeros 1 J)
                     (comcov_mu1_at lib obj Vinv n) (comcov_U1_at lib obj Vinv n) sigma' R J"
    using C(12) by (simp add: cg RJ)
  note LE = comcov_locals_entries [OF mu sg' se, of _ _ lib, folded loc]
  show ?case
  proof (intro allI impI)
    fix r j assume r: "r < R" and j: "j < J"
    note le = LE [OF r j]
    have wj: "ent (row w n) 0 j = ent w n j" using j wc by (simp add: ent_simps)
    have a: "ent (post_mean obj') r j
             = ent (post_mean o1) r j + comcov_mean lib obj Vinv j n r * ent w n j"
      unfolding C(13) using r j RJ le wj by (simp add: ent_simps2 comcov_mean_def)
    have b: "ent (post_var obj') r j
             = ent (post_var o1) r j + comcov_mu2 lib obj Vinv j n r * ent w n j"
      unfolding C(14) using r j RJ le wj
      by (simp add: ent_simps2 comcov_mu2_def comcov_mean_def)
    have c': "ent (neg_prob obj') r j
             = ent (neg_prob o1) r j + comcov_neg lib obj Vinv j n r * ent w n j"
      unfolding C(15) using r j RJ le wj by (simp add: ent_simps2 comcov_neg_def)
    have d: "ent (zero_prob obj') r j
             = ent (zero_prob o1) r j + comcov_zero lib obj Vinv n r * ent w n j"
      unfolding C(16) using r j RJ le wj by (simp add: ent_simps2 comcov_zero_def)
    from IH r j have ih:
      "ent (post_mean o1) r j
         = ent (post_mean obj) r j + (\<Sum>p<n. comcov_mean lib obj Vinv j p r * ent w p j)"
      "ent (post_var o1) r j
         = ent (post_var obj) r j + (\<Sum>p<n. comcov_mu2 lib obj Vinv j p r * ent w p j)"
      "ent (neg_prob o1) r j
         = ent (neg_prob obj) r j + (\<Sum>p<n. comcov_neg lib obj Vinv j p r * ent w p j)"
      "ent (zero_prob o1) r j
         = ent (zero_prob obj) r j + (\<Sum>p<n. comcov_zero lib obj Vinv p r * ent w p j)"
      by blast+
    show "ent (post_mean obj') r j
             = ent (post_mean obj) r j
               + (\<Sum>p<Suc n. comcov_mean lib obj Vinv j p r * ent w p j)
         \<and> ent (post_var obj') r j
             = ent (post_var obj) r j + (\<Sum>p<Suc n. comcov_mu2 lib obj Vinv j p r * ent w p j)
         \<and> ent (neg_prob obj') r j
             = ent (neg_prob obj) r j + (\<Sum>p<Suc n. comcov_neg lib obj Vinv j p r * ent w p j)
         \<and> ent (zero_prob obj') r j
             = ent (zero_prob obj) r j + (\<Sum>p<Suc n. comcov_zero lib obj Vinv p r * ent w p j)"
      unfolding a b c' d ih sum_lessThan_Suc_dbl by (simp add: add.assoc)
  qed
qed

lemma compute_posterior_comcov_outputs:
  fixes lib :: arma
  assumes cp: "compute_posterior_comcov lib obj w rt = Some obj'"
    and od: "out_dims R J obj" and ns: "n_slices (post_cov obj) = J" and wc: "n_cols w = J"
    and P: "P = n_slices (U_cube obj)" and V: "Vinv = or_empty (comcov_Vinv lib obj)"
    and md: "comcov_shapes lib obj Vinv R J P"
    and r: "r < R" and j: "j < J"
  shows "ent (post_mean obj') r j
           = ent (post_mean obj) r j + (\<Sum>p<P. comcov_mean lib obj Vinv j p r * ent w p j)"
    and "ent (post_var obj') r j
           = ent (post_var obj) r j + (\<Sum>p<P. comcov_mu2 lib obj Vinv j p r * ent w p j)
             - ent (post_mean obj') r j * ent (post_mean obj') r j"
    and "ent (neg_prob obj') r j
           = ent (neg_prob obj) r j + (\<Sum>p<P. comcov_neg lib obj Vinv j p r * ent w p j)"
    and "ent (zero_prob obj') r j
           = ent (zero_prob obj) r j + (\<Sum>p<P. comcov_zero lib obj Vinv p r * ent w p j)"
proof -
  have RJ: "n_rows (post_mean obj) = R" "n_cols (post_mean obj) = J"
    using od by (simp_all add: out_dims_def)
  from cp obtain V' sigma o1 where V': "comcov_Vinv lib obj = Some V'"
    and L: "comcov_loop lib w rt V' (zeros R J) (ones 1 J) (zeros 1 J) P (zeros R J, obj)
            = Some (sigma, o1)"
    and res: "obj' = (if rt = 4
                     then comcov_center (n_cols sigma)
                            (o1\<lparr>post_var := mat_sub (post_var o1) (pow2 (post_mean o1))\<rparr>)
                     else o1\<lparr>post_var := mat_sub (post_var o1) (pow2 (post_mean o1))\<rparr>)"
    unfolding compute_posterior_comcov_eq RJ P
    by (auto split: option.splits)
  have VV: "V' = Vinv" using V V' by simp
  define o2 where "o2 = o1\<lparr>post_var := mat_sub (post_var o1) (pow2 (post_mean o1))\<rparr>"
  have nz: "n_cols (zeros R J :: dbl mat) = n_slices (post_cov obj)" using ns by simp
  note LR = comcov_loop_result [OF L nz, where R = R and J = J]
  note LO = comcov_loop_outputs [OF L [unfolded VV] od ns _ _ wc md, simplified]
  have od1: "out_dims R J o1" using LR od by blast
  have sg: "n_cols sigma \<le> n_slices (post_cov o2)"
    using LR ns by (simp add: o2_def)
  note CR = comcov_center_result [OF sg]
  define o3 where "o3 = comcov_center (n_cols sigma) o2"
  have o3: "o3 = o2\<lparr>post_cov := post_cov o3\<rparr>" using CR unfolding o3_def by blast
  have f3: "post_mean o3 = post_mean o2" "post_var o3 = post_var o2"
    "neg_prob o3 = neg_prob o2" "zero_prob o3 = zero_prob o2"
    by (subst o3, simp)+
  have f2: "post_mean o2 = post_mean o1" "neg_prob o2 = neg_prob o1"
    "zero_prob o2 = zero_prob o1"
    "post_var o2 = mat_sub (post_var o1) (pow2 (post_mean o1))"
    by (simp_all add: o2_def)
  have f: "post_mean obj' = post_mean o1" "neg_prob obj' = neg_prob o1"
    "zero_prob obj' = zero_prob o1"
    "post_var obj' = mat_sub (post_var o1) (pow2 (post_mean o1))"
    unfolding res o2_def [symmetric] o3_def [symmetric] by (simp_all add: f3 f2)
  have d1: "n_rows (post_var o1) = R" "n_cols (post_var o1) = J"
    "n_rows (post_mean o1) = R" "n_cols (post_mean o1) = J"
    using od1 by (simp_all add: out_dims_def)
  from LO r j have lo:
    "ent (post_mean o1) r j
       = ent (post_mean obj) r j + (\<Sum>p<P. comcov_mean lib obj Vinv j p r * ent w p j)"
    "ent (post_var o1) r j
       = ent (post_var obj) r j + (\<Sum>p<P. comcov_mu2 lib obj Vinv j p r * ent w p j)"
    "ent (neg_prob o1) r j
       = ent (neg_prob obj) r j + (\<Sum>p<P. comcov_neg lib obj Vinv j p r * ent w p j)"
    "ent (zero_prob o1) r j
       = ent (zero_prob obj) r j + (\<Sum>p<P. comcov_zero lib obj Vinv p r * ent w p j)"
    by blast+
  show "ent (post_mean obj') r j
           = ent (post_mean obj) r j + (\<Sum>p<P. comcov_mean lib obj Vinv j p r * ent w p j)"
    unfolding f lo ..
  show "ent (neg_prob obj') r j
           = ent (neg_prob obj) r j + (\<Sum>p<P. comcov_neg lib obj Vinv j p r * ent w p j)"
    unfolding f lo ..
  show "ent (zero_prob obj') r j
           = ent (zero_prob obj) r j + (\<Sum>p<P. comcov_zero lib obj Vinv p r * ent w p j)"
    unfolding f lo ..
  show "ent (post_var obj') r j
           = ent (post_var obj) r j + (\<Sum>p<P. comcov_mu2 lib obj Vinv j p r * ent w p j)
             - ent (post_mean obj') r j * ent (post_mean obj') r j"
    unfolding f using r j d1 lo(2) by (simp add: ent_simps2)
qed

section \<open>The single-effect engine read as a multivariate engine\<close>

lemma to_mash_fields [simp]:
  "b_mat (to_mash obj) = MVSERMix.b_mat obj" "s_obj (to_mash obj) = MVSERMix.s_obj obj"
  "v_mat (to_mash obj) = MVSERMix.v_mat obj" "l_mat (to_mash obj) = empty_mat"
  "a_mat (to_mash obj) = empty_mat" "U_cube (to_mash obj) = MVSERMix.U_cube obj"
  "Vinv_cube (to_mash obj) = MVSERMix.Vinv_cube obj"
  "U0_cube (to_mash obj) = MVSERMix.U0_cube obj"
  "post_mean (to_mash obj) = MVSERMix.post_mean obj"
  "post_var (to_mash obj) = MVSERMix.post_var obj"
  "neg_prob (to_mash obj) = MVSERMix.neg_prob obj"
  "zero_prob (to_mash obj) = MVSERMix.zero_prob obj"
  "post_cov (to_mash obj) = MVSERMix.post_cov obj"
  by (simp_all add: to_mash_def)

lemma to_mash_updates [simp]:
  "to_mash (obj\<lparr>MVSERMix.post_cov := C\<rparr>) = (to_mash obj)\<lparr>post_cov := C\<rparr>"
  "to_mash (obj\<lparr>MVSERMix.post_mean := M\<rparr>) = (to_mash obj)\<lparr>post_mean := M\<rparr>"
  "to_mash (obj\<lparr>MVSERMix.post_var := M\<rparr>) = (to_mash obj)\<lparr>post_var := M\<rparr>"
  "to_mash (obj\<lparr>MVSERMix.neg_prob := M\<rparr>) = (to_mash obj)\<lparr>neg_prob := M\<rparr>"
  "to_mash (obj\<lparr>MVSERMix.zero_prob := M\<rparr>) = (to_mash obj)\<lparr>zero_prob := M\<rparr>"
  "to_mash (obj\<lparr>prior_scalar := M\<rparr>) = to_mash obj"
  by (simp_all add: to_mash_def)

lemma is_empty_empty_mat [simp]: "is_empty (empty_mat :: dbl mat)"
  by (simp add: is_empty_def n_elem_def empty_mat_def)

lemma fold_opt_sim:
  assumes "\<And>x st. map_option pr (f x st) = g x (pr st)"
  shows "map_option pr (fold_opt f xs st) = fold_opt g xs (pr st)"
proof (induction xs arbitrary: st)
  case Nil
  show ?case by simp
next
  case (Cons x xs)
  show ?case
  proof (cases "f x st")
    case None
    with assms [of x st] show ?thesis by simp
  next
    case (Some s1)
    with assms [of x st] have "g x (pr st) = Some (pr s1)" by simp
    with Some Cons.IH [of s1] show ?thesis by simp
  qed
qed

lemma fold_sim:
  assumes "\<And>x st. pr (f x st) = g x (pr st)"
  shows "pr (fold f xs st) = fold g xs (pr st)"
  by (induction xs arbitrary: st) (simp_all add: assms)

lemma mvser_component_sim:
  "map_option (\<lambda>(loc, mu2, o1). (loc, to_mash o1))
     (mvser_component lib w vw j Vinv_j mean p (loc, mu2, obj))
   = mash_component lib w 4 j Vinv_j mean p (loc, to_mash obj)"
  by (simp add: mvser_component_def mash_component_def Let_def split: option.splits)

lemma get_cov_empty [simp]: "get_cov sv V empty_mat = get_cov2 sv V"
  by (simp add: get_cov_def get_cov2_def)

lemma mvser_components_sim:
  "map_option (\<lambda>(loc, mu2, o1). (loc, to_mash o1))
     (fold_opt (mvser_component lib w vw j Vinv_j mean) xs (loc, mu2, obj))
   = fold_opt (mash_component lib w 4 j Vinv_j mean) xs (loc, to_mash obj)"
proof -
  have "map_option (\<lambda>(loc, mu2, o1). (loc, to_mash o1))
          (fold_opt (mvser_component lib w vw j Vinv_j mean) xs st)
        = fold_opt (mash_component lib w 4 j Vinv_j mean) xs
            ((\<lambda>(loc, mu2, o1). (loc, to_mash o1)) st)" for st
    by (rule fold_opt_sim) (auto simp: mvser_component_sim)
  from this [of "(loc, mu2, obj)"] show ?thesis by simp
qed

lemma mvser_effect_sim:
  "map_option (\<lambda>(mu2, o1). to_mash o1) (mvser_effect lib w vw mean j (mu2, obj))
   = mash_effect lib w 4 mean j (to_mash obj)"
proof -
  define Vo where "Vo = (if cube_is_empty (MVSERMix.Vinv_cube obj)
               then inv_sympd lib
                      (get_cov2 (col (SE_get_original (MVSERMix.s_obj obj)) j) (MVSERMix.v_mat obj))
               else Some (slice (MVSERMix.Vinv_cube obj) j))"
  show ?thesis
  proof (cases Vo)
    case None
    then show ?thesis
      unfolding Vo_def by (simp add: mvser_effect_def mash_effect_def split: if_splits)
  next
    case (Some Vinv_j)
    define l0 where "l0 = \<lparr>mu1_mat = zeros (n_rows (MVSERMix.post_mean obj))
                                     (n_slices (MVSERMix.U_cube obj)),
                           diag_mu2_mat = zeros (n_rows (MVSERMix.post_mean obj))
                                     (n_slices (MVSERMix.U_cube obj)),
                           zero_mat = zeros (n_rows (MVSERMix.post_mean obj))
                                     (n_slices (MVSERMix.U_cube obj)),
                           neg_mat = zeros (n_rows (MVSERMix.post_mean obj))
                                     (n_slices (MVSERMix.U_cube obj)) :: dbl mat\<rparr>"
    note sim = mvser_components_sim [of lib w vw j Vinv_j mean
        "[0..<n_slices (MVSERMix.U_cube obj)]" l0 mu2 obj]
    show ?thesis
    proof (cases "fold_opt (mvser_component lib w vw j Vinv_j mean)
                    [0..<n_slices (MVSERMix.U_cube obj)] (l0, mu2, obj)")
      case None
      with sim have "fold_opt (mash_component lib w 4 j Vinv_j mean)
                       [0..<n_slices (MVSERMix.U_cube obj)] (l0, to_mash obj) = None"
        by simp
      with None Some show ?thesis
        unfolding Vo_def l0_def
        by (simp add: mvser_effect_def mash_effect_def Let_def split: if_splits)
    next
      case (Some st)
      obtain l1 m1 o1 where st: "st = (l1, m1, o1)" by (cases st)
      from sim Some st have "fold_opt (mash_component lib w 4 j Vinv_j mean)
                       [0..<n_slices (MVSERMix.U_cube obj)] (l0, to_mash obj)
                             = Some (l1, to_mash o1)"
        by simp
      with Some st \<open>Vo = Some Vinv_j\<close> show ?thesis
        unfolding Vo_def l0_def
        by (simp add: mvser_effect_def mash_effect_def Let_def split: if_splits)
    qed
  qed
qed

lemma to_mash_update_prior_scalar [simp]:
  "to_mash (update_prior_scalar mu2 obj) = to_mash obj"
proof -
  have "to_mash (fold (\<lambda>p obj.
             obj\<lparr>prior_scalar :=
                   set_at (prior_scalar obj) p 0
                     (trace (mat_mul (slice (Uinv_cube obj) p) (slice mu2 p))
                        / dbl_of_nat (n_rows (MVSERMix.post_mean obj)))\<rparr>) xs obj) = to_mash obj"
    for xs
    by (induction xs arbitrary: obj) simp_all
  then show ?thesis by (simp add: update_prior_scalar_def)
qed

lemma mvser_compute_posterior_sim:
  "map_option to_mash (mvser_compute_posterior lib obj w vw)
   = compute_posterior lib (to_mash obj) w 4"
proof -
  define mean where "mean = (zeros (n_rows (MVSERMix.post_mean obj)) 1 :: dbl mat)"
  define m0 where "m0 = (cube_zeros (n_rows (MVSERMix.post_mean obj))
                           (n_rows (MVSERMix.post_mean obj))
                           (n_slices (MVSERMix.U_cube obj)) :: dbl cube)"
  have sim: "map_option (\<lambda>(mu2, o1). to_mash o1)
               (fold_opt (mvser_effect lib w vw mean) xs (m0, obj))
             = fold_opt (mash_effect lib w 4 mean) xs (to_mash obj)" for xs
  proof -
    have "map_option (\<lambda>(mu2, o1). to_mash o1) (fold_opt (mvser_effect lib w vw mean) xs st)
          = fold_opt (mash_effect lib w 4 mean) xs ((\<lambda>(mu2, o1). to_mash o1) st)" for st
      by (rule fold_opt_sim) (auto simp: mvser_effect_sim)
    from this [of "(m0, obj)"] show ?thesis by simp
  qed
  show ?thesis
  proof (cases "fold_opt (mvser_effect lib w vw mean) [0..<n_cols (MVSERMix.post_mean obj)]
                  (m0, obj)")
    case None
    with sim [of "[0..<n_cols (MVSERMix.post_mean obj)]"]
    have "fold_opt (mash_effect lib w 4 mean) [0..<n_cols (MVSERMix.post_mean obj)]
            (to_mash obj) = None"
      by simp
    with None show ?thesis
      unfolding mean_def m0_def
      by (simp add: mvser_compute_posterior_def compute_posterior_def Let_def)
  next
    case (Some st)
    obtain m1 o1 where st: "st = (m1, o1)" by (cases st)
    with Some sim [of "[0..<n_cols (MVSERMix.post_mean obj)]"]
    have "fold_opt (mash_effect lib w 4 mean) [0..<n_cols (MVSERMix.post_mean obj)]
            (to_mash obj) = Some (to_mash o1)"
      by simp
    with Some st show ?thesis
      unfolding mean_def m0_def
      by (simp add: mvser_compute_posterior_def compute_posterior_def Let_def)
  qed
qed

lemma mvser_comcov_component_eq:
  "mvser_comcov_component lib w vw Vinv mean a b p (sigma, mu2, obj) =
     (case comcov_U0 lib (to_mash obj) Vinv p of
        None \<Rightarrow> None
      | Some U0 \<Rightarrow>
          if n_cols (SE_get (MVSERMix.s_obj obj)) = 0 then None
          else
            (let mu1 = comcov_mu1 (to_mash obj) Vinv U0;
                 U1 = comcov_U1 (to_mash obj) U0;
                 st = mvser_comcov_effects w vw p mu1 U1 (map_ent dsqrt (diagvec U1))
                        (n_cols sigma) (sigma, mu2, obj);
                 o1 = snd (snd st);
                 loc = comcov_locals lib mean a b mu1 U1 (fst st)
                         (n_rows (MVSERMix.post_mean o1)) (n_cols (MVSERMix.post_mean o1))
             in Some (loc, fst st, fst (snd st),
                      o1\<lparr>MVSERMix.post_mean :=
                            mat_add (MVSERMix.post_mean o1)
                              (each_row_schur (mu1_mat loc) (row w p)),
                          MVSERMix.post_var :=
                            mat_add (MVSERMix.post_var o1)
                              (each_row_schur (diag_mu2_mat loc) (row w p)),
                          MVSERMix.neg_prob :=
                            mat_add (MVSERMix.neg_prob o1)
                              (each_row_schur (neg_mat loc) (row w p)),
                          MVSERMix.zero_prob :=
                            mat_add (MVSERMix.zero_prob o1)
                              (each_row_schur (zero_mat loc) (row w p))\<rparr>)))"
  by (simp add: mvser_comcov_component_def comcov_U0_def comcov_mu1_def comcov_U1_def
      mvser_comcov_effects_def comcov_locals_def col0_def Let_def case_prod_beta
      split: option.splits)

lemma mvser_comcov_effects_sim:
  "(\<lambda>(s, m, o1). (s, to_mash o1)) (mvser_comcov_effects w vw p mu1 U1 Svec n st)
   = comcov_effects w 4 p mu1 U1 Svec n ((\<lambda>(s, m, o1). (s, to_mash o1)) st)"
  unfolding mvser_comcov_effects_def comcov_effects_def
  by (rule fold_sim) (auto simp: Let_def)

lemma mvser_comcov_effects_sim':
  "fst (mvser_comcov_effects w vw p mu1 U1 Svec n (sigma, mu2, obj))
   = fst (comcov_effects w 4 p mu1 U1 Svec n (sigma, to_mash obj))"
  "to_mash (snd (snd (mvser_comcov_effects w vw p mu1 U1 Svec n (sigma, mu2, obj))))
   = snd (comcov_effects w 4 p mu1 U1 Svec n (sigma, to_mash obj))"
proof -
  have e: "comcov_effects w 4 p mu1 U1 Svec n (sigma, to_mash obj)
           = (fst (mvser_comcov_effects w vw p mu1 U1 Svec n (sigma, mu2, obj)),
              to_mash (snd (snd (mvser_comcov_effects w vw p mu1 U1 Svec n (sigma, mu2, obj)))))"
    using mvser_comcov_effects_sim [of w vw p mu1 U1 Svec n "(sigma, mu2, obj)"]
    by (simp add: case_prod_beta)
  show "fst (mvser_comcov_effects w vw p mu1 U1 Svec n (sigma, mu2, obj))
   = fst (comcov_effects w 4 p mu1 U1 Svec n (sigma, to_mash obj))"
    "to_mash (snd (snd (mvser_comcov_effects w vw p mu1 U1 Svec n (sigma, mu2, obj))))
   = snd (comcov_effects w 4 p mu1 U1 Svec n (sigma, to_mash obj))"
    unfolding e by simp_all
qed

lemma mvser_comcov_component_sim:
  "map_option (\<lambda>(loc, s, m, o1). (loc, s, to_mash o1))
     (mvser_comcov_component lib w vw Vinv mean a b p (sigma, mu2, obj))
   = mash_comcov_component lib w 4 Vinv mean a b p (sigma, to_mash obj)"
proof (cases "comcov_U0 lib (to_mash obj) Vinv p")
  case None
  then show ?thesis
    by (simp add: mvser_comcov_component_eq mash_comcov_component_eq)
next
  case (Some U0)
  define mu1 where "mu1 = comcov_mu1 (to_mash obj) Vinv U0"
  define U1 where "U1 = comcov_U1 (to_mash obj) U0"
  define Svec where "Svec = map_ent dsqrt (diagvec U1)"
  define stF where "stF = mvser_comcov_effects w vw p mu1 U1 Svec (n_cols sigma) (sigma, mu2, obj)"
  define stG where "stG = comcov_effects w 4 p mu1 U1 Svec (n_cols sigma) (sigma, to_mash obj)"
  have s: "fst stF = fst stG" "to_mash (snd (snd stF)) = snd stG"
    unfolding stF_def stG_def by (rule mvser_comcov_effects_sim')+
  have pm: "MVSERMix.post_mean (snd (snd stF)) = post_mean (snd stG)"
    "MVSERMix.post_var (snd (snd stF)) = post_var (snd stG)"
    "MVSERMix.neg_prob (snd (snd stF)) = neg_prob (snd stG)"
    "MVSERMix.zero_prob (snd (snd stF)) = zero_prob (snd stG)"
    unfolding s(2) [symmetric] by simp_all
  show ?thesis
    unfolding mvser_comcov_component_eq mash_comcov_component_eq Some option.case Let_def
      mu1_def [symmetric] U1_def [symmetric] Svec_def [symmetric]
      stF_def [symmetric] stG_def [symmetric]
    by (simp add: s pm)
qed

lemma mvser_comcov_loop_sim:
  "map_option (\<lambda>(s, m, o1). (s, to_mash o1))
     (fold_opt (\<lambda>p st. map_option snd
                  (mvser_comcov_component lib w vw Vinv mean a b p st)) xs (sigma, mu2, obj))
   = fold_opt (\<lambda>p st. map_option snd
                  (mash_comcov_component lib w 4 Vinv mean a b p st)) xs (sigma, to_mash obj)"
proof -
  have step: "map_option (\<lambda>(s, m, o1). (s, to_mash o1))
                (map_option snd (mvser_comcov_component lib w vw Vinv mean a b p st))
              = map_option snd (mash_comcov_component lib w 4 Vinv mean a b p
                  ((\<lambda>(s, m, o1). (s, to_mash o1)) st))" for p st
  proof -
    obtain s m o1 where st: "st = (s, m, o1)" by (cases st)
    show ?thesis
      unfolding st
      using mvser_comcov_component_sim [of lib w vw Vinv mean a b p s m o1, symmetric]
      by (cases "mvser_comcov_component lib w vw Vinv mean a b p (s, m, o1)") auto
  qed
  have "map_option (\<lambda>(s, m, o1). (s, to_mash o1))
     (fold_opt (\<lambda>p st. map_option snd
                  (mvser_comcov_component lib w vw Vinv mean a b p st)) xs st)
   = fold_opt (\<lambda>p st. map_option snd
                  (mash_comcov_component lib w 4 Vinv mean a b p st)) xs
       ((\<lambda>(s, m, o1). (s, to_mash o1)) st)" for st
    by (rule fold_opt_sim) (rule step)
  from this [of "(sigma, mu2, obj)"] show ?thesis by simp
qed

lemma mvser_center_sim:
  "to_mash (fold (\<lambda>j obj.
              obj\<lparr>MVSERMix.post_cov :=
                    set_slice (MVSERMix.post_cov obj) j
                      (mat_sub (slice (MVSERMix.post_cov obj) j)
                         (mat_mul (col (MVSERMix.post_mean obj) j)
                            (t_mat (col (MVSERMix.post_mean obj) j))))\<rparr>) xs obj)
   = fold (\<lambda>j obj.
              obj\<lparr>post_cov :=
                    set_slice (post_cov obj) j
                      (mat_sub (slice (post_cov obj) j)
                         (mat_mul (col (post_mean obj) j) (t_mat (col (post_mean obj) j))))\<rparr>)
       xs (to_mash obj)"
  by (rule fold_sim) simp

lemma mvser_compute_posterior_comcov_sim:
  "map_option to_mash (mvser_compute_posterior_comcov lib obj w vw)
   = compute_posterior_comcov lib (to_mash obj) w 4"
proof -
  define R where "R = n_rows (MVSERMix.post_mean obj)"
  define J where "J = n_cols (MVSERMix.post_mean obj)"
  define Vo where "Vo = (if cube_is_empty (MVSERMix.Vinv_cube obj)
               then (case col0 (SE_get_original (MVSERMix.s_obj obj)) of
                       None \<Rightarrow> None
                     | Some s0 \<Rightarrow> inv_sympd lib (get_cov2 s0 (MVSERMix.v_mat obj)))
               else Some (slice (MVSERMix.Vinv_cube obj) 0))"
  define m0 where "m0 = (cube_zeros R R (n_slices (MVSERMix.U_cube obj)) :: dbl cube)"
  have Vm: "(if cube_is_empty (Vinv_cube (to_mash obj))
               then (case col0 (SE_get_original (s_obj (to_mash obj))) of
                       None \<Rightarrow> None
                     | Some s0 \<Rightarrow> inv_sympd lib (get_cov s0 (v_mat (to_mash obj))
                                     (l_mat (to_mash obj))))
               else Some (slice (Vinv_cube (to_mash obj)) 0)) = Vo"
    by (simp add: Vo_def split: option.splits)
  show ?thesis
  proof (cases Vo)
    case None
    then show ?thesis
      unfolding mvser_compute_posterior_comcov_def compute_posterior_comcov_def Let_def Vm
        Vo_def [symmetric]
      by simp
  next
    case (Some Vinv)
    let ?F = "fold_opt (\<lambda>p st. map_option snd
                  (mvser_comcov_component lib w vw Vinv (zeros R J) (ones 1 J) (zeros 1 J) p st))
                [0..<n_slices (MVSERMix.U_cube obj)] (zeros R J, m0, obj)"
    let ?G = "fold_opt (\<lambda>p st. map_option snd
                  (mash_comcov_component lib w 4 Vinv (zeros R J) (ones 1 J) (zeros 1 J) p st))
                [0..<n_slices (MVSERMix.U_cube obj)] (zeros R J, to_mash obj)"
    have sim: "map_option (\<lambda>(s, m, o1). (s, to_mash o1)) ?F = ?G"
      by (rule mvser_comcov_loop_sim)
    show ?thesis
    proof (cases ?F)
      case None
      with sim have "?G = None" by simp
      with None Some show ?thesis
        unfolding mvser_compute_posterior_comcov_def compute_posterior_comcov_def Let_def Vm
          Vo_def [symmetric] R_def [symmetric] J_def [symmetric] m0_def [symmetric]
        by (simp add: R_def J_def)
    next
      case (Some st)
      obtain s1 m1 o1 where st: "st = (s1, m1, o1)" by (cases st)
      with sim Some have G: "?G = Some (s1, to_mash o1)" by simp
      with Some st \<open>Vo = Some Vinv\<close> show ?thesis
        unfolding mvser_compute_posterior_comcov_def compute_posterior_comcov_def Let_def Vm
          Vo_def [symmetric] R_def [symmetric] J_def [symmetric] m0_def [symmetric]
        by (simp add: R_def J_def mvser_center_sim)
    qed
  qed
qed

section \<open>The second moments of the single-effect engine\<close>

lemma mvser_component_state:
  assumes step: "mvser_component lib w vw j Vinv_j mean p (loc, mu2, obj) = Some (loc', mu2', obj')"
    and p: "p < n_cols (mu1_mat loc)"
  shows "mvser_extra obj' = mvser_extra obj"
    and "mu2' = (if \<not> cube_is_empty (Uinv_cube obj)
                 then set_slice mu2 p
                        (mat_add (slice mu2 p)
                           (second_moment_term (n_rows (mu1_mat loc)) (ent vw p j)
                              (mash_mu1_at lib (to_mash obj) Vinv_j j p)
                              (mash_U1_at lib (to_mash obj) Vinv_j j p)))
                 else mu2)"
  using step p
  by (auto simp: mvser_component_def mvser_extra_def mash_mu1_at_def mash_U1_at_def mash_U0_def
      mash_mu1_def mash_U1_def second_moment_term_def Let_def col_set_col_same
      split: option.splits if_splits)

lemma mvser_components_mu2:
  assumes f: "fold_opt (mvser_component lib w vw j Vinv_j (zeros R 1)) [0..<n] (loc, mu2, obj)
              = Some (loc', mu2', obj')"
    and ld: "locals_dims R P loc" and nP: "n \<le> P" and js: "j < n_slices (MVSERMix.post_cov obj)"
    and R: "R = n_rows (MVSERMix.post_mean obj)" and Pm: "P = n_slices mu2"
  shows "mvser_extra obj' = mvser_extra obj
    \<and> c_rows mu2' = c_rows mu2 \<and> c_cols mu2' = c_cols mu2 \<and> n_slices mu2' = n_slices mu2
    \<and> (\<forall>k<P. slice mu2' k
          = (if k < n \<and> \<not> cube_is_empty (Uinv_cube obj)
             then mat_add (slice mu2 k)
                    (second_moment_term R (ent vw k j)
                       (mash_mu1_at lib (to_mash obj) Vinv_j j k)
                       (mash_U1_at lib (to_mash obj) Vinv_j j k))
             else slice mu2 k))"
  using f nP
proof (induction n arbitrary: loc' mu2' obj')
  case 0
  then show ?case by simp
next
  case (Suc n)
  from Suc.prems(1) obtain st where
    st: "fold_opt (mvser_component lib w vw j Vinv_j (zeros R 1)) [0..<n] (loc, mu2, obj) = Some st"
    and step: "mvser_component lib w vw j Vinv_j (zeros R 1) n st = Some (loc', mu2', obj')"
    by (rule fold_opt_Suc_SomeD)
  obtain l1 m1 o1 where st1: "st = (l1, m1, o1)" by (cases st)
  have n: "n \<le> P" "n < P" using Suc.prems(2) by simp_all
  note IH = Suc.IH [OF st [unfolded st1] n(1)]
  have "fold_opt (mash_component lib w 4 j Vinv_j (zeros R 1)) [0..<n] (loc, to_mash obj)
        = Some (l1, to_mash o1)"
    using mvser_components_sim [of lib w vw j Vinv_j "zeros R 1" "[0..<n]" loc mu2 obj]
      st [unfolded st1] by simp
  note MR = mash_components_result [OF this ld n(1), simplified, OF js R]
  have ld1: "locals_dims R P l1" using MR by (simp add: R)
  have in1: "mash_inputs (to_mash o1) = mash_inputs (to_mash obj)" using MR by blast
  have pc: "n < n_cols (mu1_mat l1)" "n_rows (mu1_mat l1) = R"
    using ld1 n by (simp_all add: locals_dims_def)
  note S = mvser_component_state [OF step [unfolded st1] pc(1), unfolded pc(2)]
  note cg = mash_inputs_at_cong [OF in1]
  have ex: "mvser_extra o1 = mvser_extra obj" using IH by blast
  then have ui: "Uinv_cube o1 = Uinv_cube obj" by (simp add: mvser_extra_def)
  have nm: "n < n_slices m1" using IH n Pm by simp
  have md: "c_rows m1 = c_rows mu2" "c_cols m1 = c_cols mu2" "n_slices m1 = n_slices mu2"
    using IH by simp_all
  have sl: "\<forall>k<P. slice m1 k
          = (if k < n \<and> \<not> cube_is_empty (Uinv_cube obj)
             then mat_add (slice mu2 k)
                    (second_moment_term R (ent vw k j)
                       (mash_mu1_at lib (to_mash obj) Vinv_j j k)
                       (mash_U1_at lib (to_mash obj) Vinv_j j k))
             else slice mu2 k)"
    using IH by blast
  show ?case
  proof (cases "cube_is_empty (Uinv_cube obj)")
    case True
    then have "mu2' = m1" using S(2) ui by simp
    then show ?thesis
      using S(1) ex md sl True by simp
  next
    case False
    then have m': "mu2' = set_slice m1 n
                        (mat_add (slice m1 n)
                           (second_moment_term R (ent vw n j)
                              (mash_mu1_at lib (to_mash obj) Vinv_j j n)
                              (mash_U1_at lib (to_mash obj) Vinv_j j n)))"
      using S(2) ui by (simp add: cg)
    have sn: "slice m1 n = slice mu2 n" using sl n by simp
    have "\<forall>k<P. slice mu2' k
          = (if k < Suc n \<and> \<not> cube_is_empty (Uinv_cube obj)
             then mat_add (slice mu2 k)
                    (second_moment_term R (ent vw k j)
                       (mash_mu1_at lib (to_mash obj) Vinv_j j k)
                       (mash_U1_at lib (to_mash obj) Vinv_j j k))
             else slice mu2 k)"
    proof (intro allI impI)
      fix k assume k: "k < P"
      show "slice mu2' k
          = (if k < Suc n \<and> \<not> cube_is_empty (Uinv_cube obj)
             then mat_add (slice mu2 k)
                    (second_moment_term R (ent vw k j)
                       (mash_mu1_at lib (to_mash obj) Vinv_j j k)
                       (mash_U1_at lib (to_mash obj) Vinv_j j k))
             else slice mu2 k)"
      proof (cases "k = n")
        case True
        show ?thesis
          unfolding m' True using nm False sn md
          by (simp add: slice_set_slice)
      next
        case kn: False
        have "k < n_slices m1" using k md Pm by simp
        then have "slice mu2' k = slice m1 k"
          unfolding m' using kn by (simp add: slice_set_slice_other)
        then show ?thesis using sl k kn by (auto simp: less_Suc_eq)
      qed
    qed
    then show ?thesis
      using S(1) ex md unfolding m' by simp
  qed
qed

lemma mvser_extra_updates [simp]:
  "mvser_extra (obj\<lparr>MVSERMix.post_cov := C\<rparr>) = mvser_extra obj"
  "mvser_extra (obj\<lparr>MVSERMix.post_mean := M\<rparr>) = mvser_extra obj"
  "mvser_extra (obj\<lparr>MVSERMix.post_var := M\<rparr>) = mvser_extra obj"
  "mvser_extra (obj\<lparr>MVSERMix.neg_prob := M\<rparr>) = mvser_extra obj"
  "mvser_extra (obj\<lparr>MVSERMix.zero_prob := M\<rparr>) = mvser_extra obj"
  by (simp_all add: mvser_extra_def)

lemma mvser_effect_mu2:
  assumes eff: "mvser_effect lib w vw (zeros R 1) j (mu2, obj) = Some (mu2', obj')"
    and od: "out_dims R J (to_mash obj)" and js: "j < n_slices (MVSERMix.post_cov obj)"
    and P: "P = n_slices (MVSERMix.U_cube obj)" and Pm: "n_slices mu2 = P"
    and wr: "n_rows w = P"
  shows "mvser_extra obj' = mvser_extra obj
    \<and> c_rows mu2' = c_rows mu2 \<and> c_cols mu2' = c_cols mu2 \<and> n_slices mu2' = n_slices mu2
    \<and> mash_inputs (to_mash obj') = mash_inputs (to_mash obj)
    \<and> out_dims R J (to_mash obj')
    \<and> n_slices (MVSERMix.post_cov obj') = n_slices (MVSERMix.post_cov obj)
    \<and> (\<forall>k<P. slice mu2' k
          = (if \<not> cube_is_empty (Uinv_cube obj)
             then mat_add (slice mu2 k)
                    (second_moment_term R (ent vw k j)
                       (mash_mu1_jp lib (to_mash obj) j k)
                       (mash_U1_jp lib (to_mash obj) j k))
             else slice mu2 k))"
proof -
  have R: "R = n_rows (MVSERMix.post_mean obj)" using od by (simp add: out_dims_def)
  let ?l0 = "\<lparr>mu1_mat = zeros R P, diag_mu2_mat = zeros R P,
               zero_mat = zeros R P, neg_mat = zeros R P\<rparr>"
  have eq: "mvser_effect lib w vw (zeros R 1) j (mu2, obj)
    = (case mash_Vinv lib (to_mash obj) j of
         None \<Rightarrow> None
       | Some Vinv \<Rightarrow>
           (case fold_opt (mvser_component lib w vw j Vinv (zeros R 1)) [0..<P] (?l0, mu2, obj) of
              None \<Rightarrow> None
            | Some (loc, m1, o1) \<Rightarrow>
                Some (m1,
                  o1\<lparr>MVSERMix.post_mean :=
                        set_col (MVSERMix.post_mean o1) j (mat_mul (mu1_mat loc) (col w j)),
                      MVSERMix.post_var :=
                        set_col (MVSERMix.post_var o1) j (mat_mul (diag_mu2_mat loc) (col w j)),
                      MVSERMix.neg_prob :=
                        set_col (MVSERMix.neg_prob o1) j (mat_mul (neg_mat loc) (col w j)),
                      MVSERMix.zero_prob :=
                        set_col (MVSERMix.zero_prob o1) j (mat_mul (zero_mat loc) (col w j)),
                      MVSERMix.post_cov :=
                        set_slice (MVSERMix.post_cov o1) j
                          (mat_sub (slice (MVSERMix.post_cov o1) j)
                             (mat_mul
                                (col (set_col (MVSERMix.post_mean o1) j
                                        (mat_mul (mu1_mat loc) (col w j))) j)
                                (t_mat
                                   (col (set_col (MVSERMix.post_mean o1) j
                                           (mat_mul (mu1_mat loc) (col w j))) j))))\<rparr>)))"
    by (simp add: mvser_effect_def mash_Vinv_def Let_def R P split: option.splits)
  from eff [unfolded eq] obtain Vinv loc o1 where
    V: "mash_Vinv lib (to_mash obj) j = Some Vinv"
    and lp: "fold_opt (mvser_component lib w vw j Vinv (zeros R 1)) [0..<P] (?l0, mu2, obj)
             = Some (loc, mu2', o1)"
    and o': "mvser_extra obj' = mvser_extra o1"
    by (auto split: option.splits)
  have Va: "mash_Vinv_at lib (to_mash obj) j = Vinv" using V by (simp add: mash_Vinv_at_def)
  note M = mvser_components_mu2 [OF lp zeros_locals_dims order_refl js R Pm [symmetric]]
  have "mash_effect lib w 4 (zeros R 1) j (to_mash obj) = Some (to_mash obj')"
    using mvser_effect_sim [of lib w vw "zeros R 1" j mu2 obj] eff by simp
  note E = mash_effect_result [OF this od _ _ wr, simplified, OF js P]
  have "\<forall>k<P. slice mu2' k
          = (if \<not> cube_is_empty (Uinv_cube obj)
             then mat_add (slice mu2 k)
                    (second_moment_term R (ent vw k j)
                       (mash_mu1_jp lib (to_mash obj) j k)
                       (mash_U1_jp lib (to_mash obj) j k))
             else slice mu2 k)"
    using M by (simp add: mash_mu1_jp_def mash_U1_jp_def Va)
  then show ?thesis
    using M o' E by simp
qed

lemma mvser_mu2_acc_Suc:
  "mvser_mu2_acc lib obj vw p (Suc n) C
   = mat_add (mvser_mu2_acc lib obj vw p n C)
       (second_moment_term (n_rows (MVSERMix.post_mean obj)) (ent vw p n)
          (mash_mu1_jp lib (to_mash obj) n p) (mash_U1_jp lib (to_mash obj) n p))"
  by (simp add: mvser_mu2_acc_def)

lemma mvser_effects_mu2:
  assumes f: "fold_opt (mvser_effect lib w vw (zeros R 1)) [0..<n] (mu2, obj) = Some (mu2', obj')"
    and od: "out_dims R J (to_mash obj)" and nJ: "n \<le> J"
    and ns: "n_slices (MVSERMix.post_cov obj) = J"
    and P: "P = n_slices (MVSERMix.U_cube obj)" and Pm: "n_slices mu2 = P"
    and wr: "n_rows w = P"
  shows "mvser_extra obj' = mvser_extra obj
    \<and> c_rows mu2' = c_rows mu2 \<and> c_cols mu2' = c_cols mu2 \<and> n_slices mu2' = n_slices mu2
    \<and> mash_inputs (to_mash obj') = mash_inputs (to_mash obj)
    \<and> out_dims R J (to_mash obj')
    \<and> n_slices (MVSERMix.post_cov obj') = n_slices (MVSERMix.post_cov obj)
    \<and> (\<forall>k<P. slice mu2' k
          = (if \<not> cube_is_empty (Uinv_cube obj)
             then mvser_mu2_acc lib obj vw k n (slice mu2 k)
             else slice mu2 k))"
  using f nJ
proof (induction n arbitrary: mu2' obj')
  case 0
  then show ?case using od by (simp add: mvser_mu2_acc_def)
next
  case (Suc n)
  from Suc.prems(1) obtain st where
    st: "fold_opt (mvser_effect lib w vw (zeros R 1)) [0..<n] (mu2, obj) = Some st"
    and step: "mvser_effect lib w vw (zeros R 1) n st = Some (mu2', obj')"
    by (rule fold_opt_Suc_SomeD)
  obtain m1 o1 where st1: "st = (m1, o1)" by (cases st)
  have n: "n \<le> J" "n < J" using Suc.prems(2) by simp_all
  note IH = Suc.IH [OF st [unfolded st1] n(1)]
  have in1: "mash_inputs (to_mash o1) = mash_inputs (to_mash obj)" using IH by blast
  have od1: "out_dims R J (to_mash o1)" using IH by blast
  have js: "n < n_slices (MVSERMix.post_cov o1)" using IH ns n by simp
  have P1: "P = n_slices (MVSERMix.U_cube o1)"
    using mash_inputs_cong(5) [OF in1] P by simp
  have Pm1: "n_slices m1 = P" using IH Pm by simp
  note E = mvser_effect_mu2 [OF step [unfolded st1] od1 js P1 Pm1 wr]
  note cg = mash_jp_cong [OF in1]
  have ex: "mvser_extra o1 = mvser_extra obj" using IH by blast
  then have ui: "Uinv_cube o1 = Uinv_cube obj" by (simp add: mvser_extra_def)
  have Rr: "n_rows (MVSERMix.post_mean obj) = R" using od by (simp add: out_dims_def)
  have "\<forall>k<P. slice mu2' k
          = (if \<not> cube_is_empty (Uinv_cube obj)
             then mvser_mu2_acc lib obj vw k (Suc n) (slice mu2 k)
             else slice mu2 k)"
  proof (intro allI impI)
    fix k assume k: "k < P"
    have a: "slice m1 k = (if \<not> cube_is_empty (Uinv_cube obj)
             then mvser_mu2_acc lib obj vw k n (slice mu2 k)
             else slice mu2 k)"
      using IH k by blast
    have b: "slice mu2' k
          = (if \<not> cube_is_empty (Uinv_cube obj)
             then mat_add (slice m1 k)
                    (second_moment_term R (ent vw k n)
                       (mash_mu1_jp lib (to_mash obj) n k)
                       (mash_U1_jp lib (to_mash obj) n k))
             else slice m1 k)"
      using E k by (simp add: ui cg)
    show "slice mu2' k
          = (if \<not> cube_is_empty (Uinv_cube obj)
             then mvser_mu2_acc lib obj vw k (Suc n) (slice mu2 k)
             else slice mu2 k)"
      unfolding b a mvser_mu2_acc_Suc Rr by simp
  qed
  then show ?case
    using E IH by simp
qed

lemma prior_scalar_loop_result:
  "prior_scalar_loop mu2 n obj = obj\<lparr>prior_scalar := prior_scalar (prior_scalar_loop mu2 n obj)\<rparr>
   \<and> n_rows (prior_scalar (prior_scalar_loop mu2 n obj)) = n_rows (prior_scalar obj)
   \<and> n_cols (prior_scalar (prior_scalar_loop mu2 n obj)) = n_cols (prior_scalar obj)
   \<and> (\<forall>p. p < n_rows (prior_scalar obj) \<and> 0 < n_cols (prior_scalar obj) \<longrightarrow>
         ent (prior_scalar (prior_scalar_loop mu2 n obj)) p 0
           = (if p < n
              then trace (mat_mul (slice (Uinv_cube obj) p) (slice mu2 p))
                   / dbl_of_nat (n_rows (MVSERMix.post_mean obj))
              else ent (prior_scalar obj) p 0))"
proof (induction n)
  case 0
  show ?case by (simp add: prior_scalar_loop_def)
next
  case (Suc n)
  define o1 where "o1 = prior_scalar_loop mu2 n obj"
  have step: "prior_scalar_loop mu2 (Suc n) obj
    = o1\<lparr>prior_scalar :=
           set_at (prior_scalar o1) n 0
             (trace (mat_mul (slice (Uinv_cube o1) n) (slice mu2 n))
                / dbl_of_nat (n_rows (MVSERMix.post_mean o1)))\<rparr>"
    by (simp add: prior_scalar_loop_def o1_def)
  note IH = Suc.IH [folded o1_def]
  have o1: "o1 = obj\<lparr>prior_scalar := prior_scalar o1\<rparr>" using IH by blast
  have f: "Uinv_cube o1 = Uinv_cube obj" "MVSERMix.post_mean o1 = MVSERMix.post_mean obj"
    by (subst o1, simp)+
  have o1': "o1\<lparr>prior_scalar := M\<rparr> = obj\<lparr>prior_scalar := M\<rparr>" for M
    by (subst o1) simp
  show ?case
    unfolding step using IH by (simp add: f o1' ent_simps less_Suc_eq)
qed

lemma update_prior_scalar_eq:
  "update_prior_scalar mu2 obj = prior_scalar_loop mu2 (n_slices (MVSERMix.U_cube obj)) obj"
  by (simp add: update_prior_scalar_def prior_scalar_loop_def)

lemma mvser_compute_posterior_prior_scalar:
  assumes cp: "mvser_compute_posterior lib obj w vw = Some obj'"
    and od: "out_dims R J (to_mash obj)" and ns: "n_slices (MVSERMix.post_cov obj) = J"
    and P: "P = n_slices (MVSERMix.U_cube obj)" and wr: "n_rows w = P"
  shows "Uinv_cube obj' = Uinv_cube obj"
    and "cube_is_empty (Uinv_cube obj) \<Longrightarrow> prior_scalar obj' = prior_scalar obj"
    and "\<not> cube_is_empty (Uinv_cube obj) \<Longrightarrow> p < P \<Longrightarrow> p < n_rows (prior_scalar obj)
         \<Longrightarrow> 0 < n_cols (prior_scalar obj)
         \<Longrightarrow> ent (prior_scalar obj') p 0
             = trace (mat_mul (slice (Uinv_cube obj) p)
                        (mvser_mu2_acc lib obj vw p J (zeros R R)))
               / dbl_of_nat R"
proof -
  have RJ: "n_rows (MVSERMix.post_mean obj) = R" "n_cols (MVSERMix.post_mean obj) = J"
    using od by (simp_all add: out_dims_def)
  define m0 where "m0 = (cube_zeros R R P :: dbl cube)"
  from cp obtain m1 o1 where
    f: "fold_opt (mvser_effect lib w vw (zeros R 1)) [0..<J] (m0, obj) = Some (m1, o1)"
    and res: "obj' = (let o2 = o1\<lparr>MVSERMix.post_var :=
                                   mat_sub (MVSERMix.post_var o1) (pow2 (MVSERMix.post_mean o1))\<rparr>
                      in if \<not> cube_is_empty (Uinv_cube o2) then update_prior_scalar m1 o2 else o2)"
    unfolding mvser_compute_posterior_def Let_def RJ P [symmetric] m0_def
    by (auto split: option.splits)
  have Pm: "n_slices m0 = P" by (simp add: m0_def)
  note E = mvser_effects_mu2 [OF f od order_refl ns P Pm wr]
  define o2 where "o2 = o1\<lparr>MVSERMix.post_var :=
                            mat_sub (MVSERMix.post_var o1) (pow2 (MVSERMix.post_mean o1))\<rparr>"
  have ex: "mvser_extra o2 = mvser_extra obj" using E by (simp add: o2_def)
  then have ui: "Uinv_cube o2 = Uinv_cube obj" and ps: "prior_scalar o2 = prior_scalar obj"
    by (simp_all add: mvser_extra_def)
  have od2: "out_dims R J (to_mash o2)"
    using E by (simp add: o2_def out_dims_def)
  have R2: "n_rows (MVSERMix.post_mean o2) = R" using od2 by (simp add: out_dims_def)
  have P2: "n_slices (MVSERMix.U_cube o2) = P"
  proof -
    have "mash_inputs (to_mash o2) = mash_inputs (to_mash obj)" using E by (simp add: o2_def)
    from mash_inputs_cong(5) [OF this] show ?thesis using P by simp
  qed
  have res': "obj' = (if \<not> cube_is_empty (Uinv_cube obj)
                      then prior_scalar_loop m1 P o2 else o2)"
    unfolding res o2_def [symmetric] Let_def by (simp add: ui update_prior_scalar_eq P2)
  note L = prior_scalar_loop_result [of m1 P o2]
  have l: "prior_scalar_loop m1 P o2
           = o2\<lparr>prior_scalar := prior_scalar (prior_scalar_loop m1 P o2)\<rparr>"
    using L by blast
  have lu: "Uinv_cube (prior_scalar_loop m1 P o2) = Uinv_cube o2"
    by (subst l) simp
  show "Uinv_cube obj' = Uinv_cube obj"
    unfolding res' by (simp add: lu ui)
  show "prior_scalar obj' = prior_scalar obj" if "cube_is_empty (Uinv_cube obj)"
    unfolding res' using that by (simp add: ps)
  show "ent (prior_scalar obj') p 0
             = trace (mat_mul (slice (Uinv_cube obj) p)
                        (mvser_mu2_acc lib obj vw p J (zeros R R)))
               / dbl_of_nat R"
    if ne: "\<not> cube_is_empty (Uinv_cube obj)" and p: "p < P" "p < n_rows (prior_scalar obj)"
      "0 < n_cols (prior_scalar obj)"
  proof -
    have "slice m1 p = mvser_mu2_acc lib obj vw p J (slice m0 p)"
      using E p ne by simp
    then have sl: "slice m1 p = mvser_mu2_acc lib obj vw p J (zeros R R)"
      by (simp add: m0_def)
    have "ent (prior_scalar (prior_scalar_loop m1 P o2)) p 0
          = trace (mat_mul (slice (Uinv_cube o2) p) (slice m1 p))
            / dbl_of_nat (n_rows (MVSERMix.post_mean o2))"
      using L p by (simp add: ps)
    then show ?thesis
      unfolding res' using ne by (simp add: ui R2 sl)
  qed
qed

lemma mvser_comcov_effects_mu2:
  fixes w vw :: "dbl mat" and sigma :: "dbl mat" and mu2 :: "dbl cube" and obj :: MVSERMix
  defines "r \<equiv> (\<lambda>p mu1 U1 Svec n. mvser_comcov_effects w vw p mu1 U1 Svec n (sigma, mu2, obj))"
  assumes p: "p < n_slices mu2"
  shows "mvser_extra (snd (snd (r p mu1 U1 Svec n))) = mvser_extra obj
    \<and> c_rows (fst (snd (r p mu1 U1 Svec n))) = c_rows mu2
    \<and> c_cols (fst (snd (r p mu1 U1 Svec n))) = c_cols mu2
    \<and> n_slices (fst (snd (r p mu1 U1 Svec n))) = n_slices mu2
    \<and> (\<forall>k<n_slices mu2. k \<noteq> p \<longrightarrow> slice (fst (snd (r p mu1 U1 Svec n))) k = slice mu2 k)
    \<and> slice (fst (snd (r p mu1 U1 Svec n))) p
        = (if \<not> cube_is_empty (Uinv_cube obj)
           then fold (\<lambda>j C. mat_add C
                               (scal (ent vw p j)
                                  (mat_add U1 (mat_mul (col mu1 j) (t_mat (col mu1 j))))))
                  [0..<n] (slice mu2 p)
           else slice mu2 p)"
proof (induction n)
  case 0
  show ?case by (simp add: r_def mvser_comcov_effects_def)
next
  case (Suc n)
  obtain s1 m1 o1 where st: "r p mu1 U1 Svec n = (s1, m1, o1)"
    by (cases "r p mu1 U1 Svec n")
  note IH = Suc.IH [unfolded st fst_conv snd_conv]
  have ui: "Uinv_cube o1 = Uinv_cube obj" using IH by (simp add: mvser_extra_def)
  have step: "r p mu1 U1 Svec (Suc n)
    = (set_col s1 n Svec,
       (if \<not> cube_is_empty (Uinv_cube obj)
        then set_slice m1 p
               (mat_add (slice m1 p)
                  (scal (ent vw p n) (mat_add U1 (mat_mul (col mu1 n) (t_mat (col mu1 n))))))
        else m1),
       o1\<lparr>MVSERMix.post_cov :=
             set_slice (MVSERMix.post_cov o1) n
               (mat_add (slice (MVSERMix.post_cov o1) n)
                  (scal (ent w p n) (mat_add U1 (mat_mul (col mu1 n) (t_mat (col mu1 n))))))\<rparr>)"
    using st by (simp add: r_def mvser_comcov_effects_def Let_def ui)
  have p1: "p < n_slices m1" using IH p by simp
  define T where "T = scal (ent vw p n) (mat_add U1 (mat_mul (col mu1 n) (t_mat (col mu1 n))))"
  define m2 where "m2 = (if \<not> cube_is_empty (Uinv_cube obj)
        then set_slice m1 p (mat_add (slice m1 p) T) else m1)"
  have sp: "slice m2 p = (if \<not> cube_is_empty (Uinv_cube obj)
                          then mat_add (slice m1 p) T else slice m1 p)"
    using p1 by (simp add: m2_def slice_set_slice)
  have so: "slice m2 k = slice m1 k" if "k < n_slices mu2" "k \<noteq> p" for k
    using that IH by (simp add: m2_def slice_set_slice_other)
  have dm: "c_rows m2 = c_rows m1" "c_cols m2 = c_cols m1" "n_slices m2 = n_slices m1"
    by (simp_all add: m2_def)
  have f2: "fst (snd (r p mu1 U1 Svec (Suc n))) = m2"
    "mvser_extra (snd (snd (r p mu1 U1 Svec (Suc n)))) = mvser_extra o1"
    unfolding step by (simp_all add: m2_def T_def)
  have "slice m2 p
        = (if \<not> cube_is_empty (Uinv_cube obj)
           then fold (\<lambda>j C. mat_add C
                               (scal (ent vw p j)
                                  (mat_add U1 (mat_mul (col mu1 j) (t_mat (col mu1 j))))))
                  [0..<Suc n] (slice mu2 p)
           else slice mu2 p)"
    unfolding sp using IH by (simp add: T_def)
  then show ?case
    unfolding f2 using IH so dm by simp
qed

lemma mvser_comcov_component_mu2:
  assumes step: "mvser_comcov_component lib w vw Vinv mean a b p (sigma, mu2, obj)
                 = Some (loc, sigma', mu2', obj')"
    and p: "p < n_slices mu2"
  shows "mvser_extra obj' = mvser_extra obj"
    and "c_rows mu2' = c_rows mu2" and "c_cols mu2' = c_cols mu2"
    and "n_slices mu2' = n_slices mu2"
    and "\<forall>k<n_slices mu2. k \<noteq> p \<longrightarrow> slice mu2' k = slice mu2 k"
    and "slice mu2' p
         = (if \<not> cube_is_empty (Uinv_cube obj)
            then mvser_comcov_mu2_acc lib obj vw Vinv p (n_cols sigma) (slice mu2 p)
            else slice mu2 p)"
proof -
  from step obtain U0 where U0: "comcov_U0 lib (to_mash obj) Vinv p = Some U0"
    and s0: "n_cols (SE_get (MVSERMix.s_obj obj)) \<noteq> 0"
    by (auto simp: mvser_comcov_component_eq split: option.splits if_splits)
  define mu1 where "mu1 = comcov_mu1 (to_mash obj) Vinv U0"
  define U1 where "U1 = comcov_U1 (to_mash obj) U0"
  define Svec where "Svec = map_ent dsqrt (diagvec U1)"
  define st where "st = mvser_comcov_effects w vw p mu1 U1 Svec (n_cols sigma) (sigma, mu2, obj)"
  have at: "comcov_mu1_at lib (to_mash obj) Vinv p = mu1"
    "comcov_U1_at lib (to_mash obj) Vinv p = U1"
    by (simp_all add: comcov_mu1_at_def comcov_U1_at_def U0 mu1_def U1_def)
  have res: "mu2' = fst (snd st)" "mvser_extra obj' = mvser_extra (snd (snd st))"
    using step s0
    unfolding mvser_comcov_component_eq U0 option.case Let_def
      mu1_def [symmetric] U1_def [symmetric] Svec_def [symmetric] st_def [symmetric]
    by auto
  note E = mvser_comcov_effects_mu2 [OF p, of w vw mu1 U1 Svec "n_cols sigma" sigma obj,
      folded st_def]
  show "mvser_extra obj' = mvser_extra obj"
    "c_rows mu2' = c_rows mu2" "c_cols mu2' = c_cols mu2" "n_slices mu2' = n_slices mu2"
    "\<forall>k<n_slices mu2. k \<noteq> p \<longrightarrow> slice mu2' k = slice mu2 k"
    unfolding res using E by simp_all
  show "slice mu2' p
         = (if \<not> cube_is_empty (Uinv_cube obj)
            then mvser_comcov_mu2_acc lib obj vw Vinv p (n_cols sigma) (slice mu2 p)
            else slice mu2 p)"
    unfolding res mvser_comcov_mu2_acc_def at using E by simp
qed

lemma mvser_comcov_mu2_acc_cong:
  assumes "mash_inputs (to_mash a) = mash_inputs (to_mash b)"
  shows "mvser_comcov_mu2_acc lib a = mvser_comcov_mu2_acc lib b"
  using comcov_inputs_cong [OF assms]
  by (intro ext) (simp add: mvser_comcov_mu2_acc_def)

lemma mvser_comcov_loop_sim':
  assumes "mvser_comcov_loop lib w vw Vinv mean a b n (sigma, mu2, obj) = Some (s1, m1, o1)"
  shows "comcov_loop lib w 4 Vinv mean a b n (sigma, to_mash obj) = Some (s1, to_mash o1)"
  using mvser_comcov_loop_sim [of lib w vw Vinv mean a b "[0..<n]" sigma mu2 obj] assms
  by (simp add: mvser_comcov_loop_def comcov_loop_def)

lemma mvser_comcov_loop_mu2:
  assumes f: "mvser_comcov_loop lib w vw Vinv mean a b n (sigma, mu2, obj) = Some (sigma', mu2', obj')"
    and nc: "n_cols sigma = n_slices (MVSERMix.post_cov obj)"
    and nP: "n \<le> n_slices mu2"
  shows "mvser_extra obj' = mvser_extra obj
    \<and> c_rows mu2' = c_rows mu2 \<and> c_cols mu2' = c_cols mu2 \<and> n_slices mu2' = n_slices mu2
    \<and> (\<forall>k<n_slices mu2. slice mu2' k
          = (if k < n \<and> \<not> cube_is_empty (Uinv_cube obj)
             then mvser_comcov_mu2_acc lib obj vw Vinv k (n_cols sigma) (slice mu2 k)
             else slice mu2 k))"
  using f nP
proof (induction n arbitrary: sigma' mu2' obj')
  case 0
  then show ?case by (simp add: mvser_comcov_loop_def)
next
  case (Suc n)
  from Suc.prems(1) obtain st where
    st: "mvser_comcov_loop lib w vw Vinv mean a b n (sigma, mu2, obj) = Some st"
    and step: "map_option snd (mvser_comcov_component lib w vw Vinv mean a b n st)
               = Some (sigma', mu2', obj')"
    unfolding mvser_comcov_loop_def by (rule fold_opt_Suc_SomeD)
  obtain s1 m1 o1 where st1: "st = (s1, m1, o1)" by (cases st)
  from step obtain loc where
    c: "mvser_comcov_component lib w vw Vinv mean a b n (s1, m1, o1)
        = Some (loc, sigma', mu2', obj')"
    unfolding st1
    by (cases "mvser_comcov_component lib w vw Vinv mean a b n (s1, m1, o1)") auto
  have n: "n \<le> n_slices mu2" "n < n_slices mu2" using Suc.prems(2) by simp_all
  note IH = Suc.IH [OF st [unfolded st1] n(1)]
  note LR = comcov_loop_result [OF mvser_comcov_loop_sim' [OF st [unfolded st1]],
      simplified, OF nc]
  have in1: "mash_inputs (to_mash o1) = mash_inputs (to_mash obj)" using LR by blast
  have sc: "n_cols s1 = n_cols sigma" using LR nc by simp
  have n1: "n < n_slices m1" using IH n by simp
  note C = mvser_comcov_component_mu2 [OF c n1]
  have ex: "mvser_extra o1 = mvser_extra obj" using IH by blast
  then have ui: "Uinv_cube o1 = Uinv_cube obj" by (simp add: mvser_extra_def)
  note cg = mvser_comcov_mu2_acc_cong [OF in1]
  have md: "n_slices m1 = n_slices mu2" using IH by blast
  have "\<forall>k<n_slices mu2. slice mu2' k
          = (if k < Suc n \<and> \<not> cube_is_empty (Uinv_cube obj)
             then mvser_comcov_mu2_acc lib obj vw Vinv k (n_cols sigma) (slice mu2 k)
             else slice mu2 k)"
  proof (intro allI impI)
    fix k assume k: "k < n_slices mu2"
    have a: "slice m1 k
          = (if k < n \<and> \<not> cube_is_empty (Uinv_cube obj)
             then mvser_comcov_mu2_acc lib obj vw Vinv k (n_cols sigma) (slice mu2 k)
             else slice mu2 k)"
      using IH k by blast
    show "slice mu2' k
          = (if k < Suc n \<and> \<not> cube_is_empty (Uinv_cube obj)
             then mvser_comcov_mu2_acc lib obj vw Vinv k (n_cols sigma) (slice mu2 k)
             else slice mu2 k)"
    proof (cases "k = n")
      case True
      have "slice m1 n = slice mu2 n" using a True by simp
      then show ?thesis
        unfolding True using C(6) by (simp add: ui cg sc)
    next
      case False
      then have "slice mu2' k = slice m1 k" using C(5) k md by simp
      then show ?thesis using a False by (auto simp: less_Suc_eq)
    qed
  qed
  then show ?case
    using C(1-4) IH by simp
qed

lemma mvser_center_fields:
  fixes xs :: "nat list"
  defines "c \<equiv> (\<lambda>xs obj. fold (\<lambda>j obj.
              obj\<lparr>MVSERMix.post_cov :=
                    set_slice (MVSERMix.post_cov obj) j
                      (mat_sub (slice (MVSERMix.post_cov obj) j)
                         (mat_mul (col (MVSERMix.post_mean obj) j)
                            (t_mat (col (MVSERMix.post_mean obj) j))))\<rparr>) xs obj)"
  shows "mvser_extra (c xs obj) = mvser_extra obj
    \<and> MVSERMix.U_cube (c xs obj) = MVSERMix.U_cube obj
    \<and> MVSERMix.post_mean (c xs obj) = MVSERMix.post_mean obj"
  unfolding c_def by (induction xs arbitrary: obj) simp_all

lemma mvser_compute_posterior_comcov_eq:
  "mvser_compute_posterior_comcov lib obj w vw =
     (case comcov_Vinv lib (to_mash obj) of
        None \<Rightarrow> None
      | Some Vinv \<Rightarrow>
          (case mvser_comcov_loop lib w vw Vinv
                  (zeros (n_rows (MVSERMix.post_mean obj)) (n_cols (MVSERMix.post_mean obj)))
                  (ones 1 (n_cols (MVSERMix.post_mean obj)))
                  (zeros 1 (n_cols (MVSERMix.post_mean obj)))
                  (n_slices (MVSERMix.U_cube obj))
                  (zeros (n_rows (MVSERMix.post_mean obj)) (n_cols (MVSERMix.post_mean obj)),
                   cube_zeros (n_rows (MVSERMix.post_mean obj)) (n_rows (MVSERMix.post_mean obj))
                     (n_slices (MVSERMix.U_cube obj)),
                   obj) of
             None \<Rightarrow> None
           | Some (sigma, mu2, o1) \<Rightarrow>
               (let o2 = o1\<lparr>MVSERMix.post_var :=
                              mat_sub (MVSERMix.post_var o1) (pow2 (MVSERMix.post_mean o1))\<rparr>;
                    o3 = fold (\<lambda>j obj.
                                 obj\<lparr>MVSERMix.post_cov :=
                                       set_slice (MVSERMix.post_cov obj) j
                                         (mat_sub (slice (MVSERMix.post_cov obj) j)
                                            (mat_mul (col (MVSERMix.post_mean obj) j)
                                               (t_mat (col (MVSERMix.post_mean obj) j))))\<rparr>)
                           [0..<n_cols sigma] o2
                in Some (if \<not> cube_is_empty (Uinv_cube o3)
                         then update_prior_scalar mu2 o3 else o3))))"
  by (simp add: mvser_compute_posterior_comcov_def comcov_Vinv_def mvser_comcov_loop_def
      Let_def split: option.splits)

lemma mvser_compute_posterior_comcov_prior_scalar:
  assumes cp: "mvser_compute_posterior_comcov lib obj w vw = Some obj'"
    and od: "out_dims R J (to_mash obj)" and ns: "n_slices (MVSERMix.post_cov obj) = J"
    and P: "P = n_slices (MVSERMix.U_cube obj)"
    and V: "Vinv = or_empty (comcov_Vinv lib (to_mash obj))"
  shows "Uinv_cube obj' = Uinv_cube obj"
    and "cube_is_empty (Uinv_cube obj) \<Longrightarrow> prior_scalar obj' = prior_scalar obj"
    and "\<not> cube_is_empty (Uinv_cube obj) \<Longrightarrow> p < P \<Longrightarrow> p < n_rows (prior_scalar obj)
         \<Longrightarrow> 0 < n_cols (prior_scalar obj)
         \<Longrightarrow> ent (prior_scalar obj') p 0
             = trace (mat_mul (slice (Uinv_cube obj) p)
                        (mvser_comcov_mu2_acc lib obj vw Vinv p J (zeros R R)))
               / dbl_of_nat R"
proof -
  have RJ: "n_rows (MVSERMix.post_mean obj) = R" "n_cols (MVSERMix.post_mean obj) = J"
    using od by (simp_all add: out_dims_def)
  define m0 where "m0 = (cube_zeros R R P :: dbl cube)"
  define Z where "Z = (zeros R J :: dbl mat)"
  from cp obtain V' sigma m1 o1 where V': "comcov_Vinv lib (to_mash obj) = Some V'"
    and L: "mvser_comcov_loop lib w vw V' Z (ones 1 J) (zeros 1 J) P (Z, m0, obj)
            = Some (sigma, m1, o1)"
    and res0: "(let o2 = o1\<lparr>MVSERMix.post_var :=
                              mat_sub (MVSERMix.post_var o1) (pow2 (MVSERMix.post_mean o1))\<rparr>;
                    o3 = fold (\<lambda>j obj.
                                 obj\<lparr>MVSERMix.post_cov :=
                                       set_slice (MVSERMix.post_cov obj) j
                                         (mat_sub (slice (MVSERMix.post_cov obj) j)
                                            (mat_mul (col (MVSERMix.post_mean obj) j)
                                               (t_mat (col (MVSERMix.post_mean obj) j))))\<rparr>)
                           [0..<n_cols sigma] o2
                in if \<not> cube_is_empty (Uinv_cube o3)
                         then update_prior_scalar m1 o3 else o3) = obj'"
    unfolding mvser_compute_posterior_comcov_eq RJ P [symmetric] m0_def Z_def
    by (auto simp: Let_def split: option.splits)
  note res = res0 [symmetric]
  have VV: "V' = Vinv" using V V' by simp
  define o2 where "o2 = o1\<lparr>MVSERMix.post_var :=
                              mat_sub (MVSERMix.post_var o1) (pow2 (MVSERMix.post_mean o1))\<rparr>"
  define o3 where "o3 = fold (\<lambda>j obj.
                                 obj\<lparr>MVSERMix.post_cov :=
                                       set_slice (MVSERMix.post_cov obj) j
                                         (mat_sub (slice (MVSERMix.post_cov obj) j)
                                            (mat_mul (col (MVSERMix.post_mean obj) j)
                                               (t_mat (col (MVSERMix.post_mean obj) j))))\<rparr>)
                           [0..<n_cols sigma] o2"
  have nz: "n_cols Z = n_slices (MVSERMix.post_cov obj)" using ns by (simp add: Z_def)
  have nP: "P \<le> n_slices m0" by (simp add: m0_def)
  note M = mvser_comcov_loop_mu2 [OF L [unfolded VV] nz nP]
  note LR = comcov_loop_result [OF mvser_comcov_loop_sim' [OF L], where R = R and J = J]
  have in1: "mash_inputs (to_mash o1) = mash_inputs (to_mash obj)" using LR nz by simp
  have od1: "out_dims R J (to_mash o1)" using LR nz od by simp
  note CF = mvser_center_fields [of "[0..<n_cols sigma]" o2, folded o3_def]
  have ex3: "mvser_extra o3 = mvser_extra obj"
    using CF M by (simp add: o2_def)
  then have ui: "Uinv_cube o3 = Uinv_cube obj" and ps: "prior_scalar o3 = prior_scalar obj"
    by (simp_all add: mvser_extra_def)
  have R3: "n_rows (MVSERMix.post_mean o3) = R"
    using CF od1 by (simp add: o2_def out_dims_def)
  have P3: "n_slices (MVSERMix.U_cube o3) = P"
    using CF mash_inputs_cong(5) [OF in1] P by (simp add: o2_def)
  have res': "obj' = (if \<not> cube_is_empty (Uinv_cube obj)
                      then prior_scalar_loop m1 P o3 else o3)"
    unfolding res o2_def [symmetric] Let_def o3_def [symmetric]
    by (simp add: ui update_prior_scalar_eq P3)
  note Lp = prior_scalar_loop_result [of m1 P o3]
  have l: "prior_scalar_loop m1 P o3
           = o3\<lparr>prior_scalar := prior_scalar (prior_scalar_loop m1 P o3)\<rparr>"
    using Lp by blast
  have lu: "Uinv_cube (prior_scalar_loop m1 P o3) = Uinv_cube o3"
    by (subst l) simp
  show "Uinv_cube obj' = Uinv_cube obj"
    unfolding res' by (simp add: lu ui)
  show "prior_scalar obj' = prior_scalar obj" if "cube_is_empty (Uinv_cube obj)"
    unfolding res' using that by (simp add: ps)
  show "ent (prior_scalar obj') p 0
             = trace (mat_mul (slice (Uinv_cube obj) p)
                        (mvser_comcov_mu2_acc lib obj vw Vinv p J (zeros R R)))
               / dbl_of_nat R"
    if ne: "\<not> cube_is_empty (Uinv_cube obj)" and p: "p < P" "p < n_rows (prior_scalar obj)"
      "0 < n_cols (prior_scalar obj)"
  proof -
    have "slice m1 p = mvser_comcov_mu2_acc lib obj vw Vinv p (n_cols Z) (slice m0 p)"
      using M p ne by (simp add: m0_def)
    then have sl: "slice m1 p = mvser_comcov_mu2_acc lib obj vw Vinv p J (zeros R R)"
      by (simp add: m0_def Z_def)
    have "ent (prior_scalar (prior_scalar_loop m1 P o3)) p 0
          = trace (mat_mul (slice (Uinv_cube o3) p) (slice m1 p))
            / dbl_of_nat (n_rows (MVSERMix.post_mean o3))"
      using Lp p by (simp add: ps)
    then show ?thesis
      unfolding res' using ne by (simp add: ui R3 sl)
  qed
qed

section \<open>The update of the prior scalars\<close>

lemma MVSERMix_new_sized:
  "mvser_sized (n_rows bm) (n_cols bm) (n_slices Uc)
     (mvser_set_Uinv (mvser_set_U0 (mvser_set_Vinv
        (MVSERMix_new bm sm sal sor vm Uc garbage) Vc) U0c) Uic)"
  by (simp add: mvser_sized_def out_dims_def MVSERMix_new_def Let_def mvser_set_Uinv_def
      mvser_set_U0_def mvser_set_Vinv_def)

text \<open>
  C9.  When \<^verbatim>\<open>MVSERMix::compute_posterior\<close> or \<^verbatim>\<open>MVSERMix::compute_posterior_comcov\<close>
  returns: if no inverse prior covariance has been injected (\<^verbatim>\<open>Uinv_cube\<close> is empty), the
  vector \<^verbatim>\<open>prior_scalar\<close> is what it was before the call, which after the constructor is
  uninitialised memory; otherwise its entry \<open>p\<close> is the trace of \<open>Uinv_p\<close> times the slice \<open>p\<close>
  of \<^verbatim>\<open>mu2_cube\<close>, divided by the number of conditions, for every component \<open>p\<close>, where the
  slice is the sum over the effects \<open>j\<close> of \<^verbatim>\<open>posterior_variable_weights(p, j)\<close> times
  \<open>U1 + mu1 * mu1'\<close>.
\<close>

theorem prior_scalar_update:
  assumes "mvser_sized R J P obj" and "n_rows w = P"
  shows "(mvser_compute_posterior lib obj w vw = Some obj' \<longrightarrow>
            Uinv_cube obj' = Uinv_cube obj
            \<and> (if cube_is_empty (Uinv_cube obj) then PriorScalar obj' = PriorScalar obj
               else \<forall>p<P. ent (PriorScalar obj') p 0
                            = trace (mat_mul (slice (Uinv_cube obj) p)
                                       (mvser_mu2_acc lib obj vw p J (zeros R R)))
                              / dbl_of_nat R))
    \<and> (mvser_compute_posterior_comcov lib obj w vw = Some obj'' \<longrightarrow>
            Uinv_cube obj'' = Uinv_cube obj
            \<and> (if cube_is_empty (Uinv_cube obj) then PriorScalar obj'' = PriorScalar obj
               else \<forall>p<P. ent (PriorScalar obj'') p 0
                            = trace (mat_mul (slice (Uinv_cube obj) p)
                                       (mvser_comcov_mu2_acc lib obj vw
                                          (or_empty (comcov_Vinv lib (to_mash obj))) p J
                                          (zeros R R)))
                              / dbl_of_nat R))"
proof -
  have od: "out_dims R J (to_mash obj)" and ns: "n_slices (MVSERMix.post_cov obj) = J"
    and P: "P = n_slices (MVSERMix.U_cube obj)"
    and pr: "n_rows (prior_scalar obj) = P" "0 < n_cols (prior_scalar obj)"
    using assms(1) by (simp_all add: mvser_sized_def)
  have a: "Uinv_cube obj' = Uinv_cube obj
            \<and> (if cube_is_empty (Uinv_cube obj) then PriorScalar obj' = PriorScalar obj
               else \<forall>p<P. ent (PriorScalar obj') p 0
                            = trace (mat_mul (slice (Uinv_cube obj) p)
                                       (mvser_mu2_acc lib obj vw p J (zeros R R)))
                              / dbl_of_nat R)"
    if cp: "mvser_compute_posterior lib obj w vw = Some obj'"
    using mvser_compute_posterior_prior_scalar [OF cp od ns P assms(2)] pr
    by (simp add: PriorScalar_def)
  have b: "Uinv_cube obj'' = Uinv_cube obj
            \<and> (if cube_is_empty (Uinv_cube obj) then PriorScalar obj'' = PriorScalar obj
               else \<forall>p<P. ent (PriorScalar obj'') p 0
                            = trace (mat_mul (slice (Uinv_cube obj) p)
                                       (mvser_comcov_mu2_acc lib obj vw
                                          (or_empty (comcov_Vinv lib (to_mash obj))) p J
                                          (zeros R R)))
                              / dbl_of_nat R)"
    if cp: "mvser_compute_posterior_comcov lib obj w vw = Some obj''"
    using mvser_compute_posterior_comcov_prior_scalar [OF cp od ns P refl] pr
    by (simp add: PriorScalar_def)
  from a b show ?thesis by blast
qed

lemma mvser_ex_to_mash [simp]: "to_mash mvser_ex = mash_ex" "to_mash mvser_ex0 = mash_ex"
  by (simp_all add: mvser_ex_def mvser_ex0_def mvser_set_Uinv_def to_mash_def MVSERMix_new_def
      mash_ex_def PosteriorMASH_new_def Let_def)

lemma mvser_ex_fields:
  "Uinv_cube mvser_ex = c112 1 2" "Uinv_cube mvser_ex0 = empty_cube"
  "MVSERMix.post_mean mvser_ex = m11 0" "MVSERMix.post_mean mvser_ex0 = m11 0"
  "prior_scalar mvser_ex0 = mk_mat 2 1 (\<lambda>i k. NaN)"
  "mvser_sized 1 1 2 mvser_ex" "mvser_sized 1 1 2 mvser_ex0"
proof -
  show "Uinv_cube mvser_ex = c112 1 2" "Uinv_cube mvser_ex0 = empty_cube"
    "MVSERMix.post_mean mvser_ex = m11 0" "MVSERMix.post_mean mvser_ex0 = m11 0"
    "prior_scalar mvser_ex0 = mk_mat 2 1 (\<lambda>i k. NaN)"
    by (simp_all add: mvser_ex_def mvser_ex0_def mvser_set_Uinv_def MVSERMix_new_def Let_def)
  have "mvser_sized (n_rows (m11 1)) (n_cols (m11 1)) (n_slices (c112 1 0)) mvser_ex"
    using MVSERMix_new_sized [of "m11 1" "c112 1 0" "m11 1" empty_mat empty_mat "m11 1"
        "\<lambda>i. NaN" empty_cube empty_cube "c112 1 2"]
    by (simp add: mvser_ex_def mvser_ex0_def mvser_set_Uinv_def mvser_set_U0_def
        mvser_set_Vinv_def MVSERMix_new_def Let_def)
  then show "mvser_sized 1 1 2 mvser_ex" by simp
  have "mvser_sized (n_rows (m11 1)) (n_cols (m11 1)) (n_slices (c112 1 0)) mvser_ex0"
    using MVSERMix_new_sized [of "m11 1" "c112 1 0" "m11 1" empty_mat empty_mat "m11 1"
        "\<lambda>i. NaN" empty_cube empty_cube empty_cube]
    by (simp add: mvser_ex0_def mvser_set_Uinv_def mvser_set_U0_def
        mvser_set_Vinv_def MVSERMix_new_def Let_def)
  then show "mvser_sized 1 1 2 mvser_ex0" by simp
qed

lemma sim_success: "map_option f A = B \<Longrightarrow> (A \<noteq> None) = (B \<noteq> None)"
  by (cases A) auto

lemma mvser_ex_success:
  "mvser_compute_posterior diag_lib mvser_ex w vw \<noteq> None \<longleftrightarrow>
     compute_posterior diag_lib mash_ex w 4 \<noteq> None"
  "mvser_compute_posterior diag_lib mvser_ex0 w vw \<noteq> None \<longleftrightarrow>
     compute_posterior diag_lib mash_ex w 4 \<noteq> None"
  "mvser_compute_posterior_comcov diag_lib mvser_ex w vw \<noteq> None \<longleftrightarrow>
     compute_posterior_comcov diag_lib mash_ex w 4 \<noteq> None"
  "mvser_compute_posterior_comcov diag_lib mvser_ex0 w vw \<noteq> None \<longleftrightarrow>
     compute_posterior_comcov diag_lib mash_ex w 4 \<noteq> None"
  using sim_success [OF mvser_compute_posterior_sim [of diag_lib mvser_ex w vw]]
    sim_success [OF mvser_compute_posterior_sim [of diag_lib mvser_ex0 w vw]]
    sim_success [OF mvser_compute_posterior_comcov_sim [of diag_lib mvser_ex w vw]]
    sim_success [OF mvser_compute_posterior_comcov_sim [of diag_lib mvser_ex0 w vw]]
  by simp_all

lemma trace_m11 [simp]: "trace (m11 x) = Fin x"
  by (simp add: trace_def)

lemma mvser_ex_mu2:
  "mvser_mu2_acc diag_lib mvser_ex mash_ex_w 0 (Suc 0) (m11 0) = m11 (3 / 8)"
  "mvser_mu2_acc diag_lib mvser_ex mash_ex_w (Suc 0) (Suc 0) (m11 0) = m11 0"
  "mvser_comcov_mu2_acc diag_lib mvser_ex mash_ex_w (m11 1) 0 (Suc 0) (m11 0) = m11 (3 / 8)"
  "mvser_comcov_mu2_acc diag_lib mvser_ex mash_ex_w (m11 1) (Suc 0) (Suc 0) (m11 0) = m11 0"
  by (simp_all add: mvser_mu2_acc_def mvser_comcov_mu2_acc_def mash_ex_comp mvser_ex_fields
      mash_ex_dims mash_ex_comcov)

theorem prior_scalar_update_witness:
  "mvser_sized 1 1 2 mvser_ex \<and> mvser_sized 1 1 2 mvser_ex0 \<and> n_rows mash_ex_w = 2
   \<and> \<not> cube_is_empty (Uinv_cube mvser_ex) \<and> cube_is_empty (Uinv_cube mvser_ex0)
   \<and> (\<exists>obj'. mvser_compute_posterior diag_lib mvser_ex mash_ex_w mash_ex_w = Some obj'
         \<and> ent (PriorScalar obj') 0 0 = Fin (3 / 8) \<and> ent (PriorScalar obj') 1 0 = Fin 0)
   \<and> (\<exists>obj'. mvser_compute_posterior_comcov diag_lib mvser_ex mash_ex_w mash_ex_w = Some obj'
         \<and> ent (PriorScalar obj') 0 0 = Fin (3 / 8) \<and> ent (PriorScalar obj') 1 0 = Fin 0)
   \<and> (\<exists>obj'. mvser_compute_posterior diag_lib mvser_ex0 mash_ex_w mash_ex_w = Some obj'
         \<and> PriorScalar obj' = mk_mat 2 1 (\<lambda>i k. NaN))
   \<and> (\<exists>obj'. mvser_compute_posterior_comcov diag_lib mvser_ex0 mash_ex_w mash_ex_w = Some obj'
         \<and> PriorScalar obj' = mk_mat 2 1 (\<lambda>i k. NaN))"
proof -
  have w: "n_rows mash_ex_w = 2" by (simp add: mash_ex_dims)
  have ne: "\<not> cube_is_empty (Uinv_cube mvser_ex)" "cube_is_empty (Uinv_cube mvser_ex0)"
    by (simp_all add: mvser_ex_fields)
  obtain a where a: "mvser_compute_posterior diag_lib mvser_ex mash_ex_w mash_ex_w = Some a"
    using mvser_ex_success(1) [of mash_ex_w mash_ex_w] mash_ex_success [of 4] by auto
  obtain b where b: "mvser_compute_posterior_comcov diag_lib mvser_ex mash_ex_w mash_ex_w = Some b"
    using mvser_ex_success(3) [of mash_ex_w mash_ex_w] mash_ex_comcov_success [of 4] by auto
  obtain c where c: "mvser_compute_posterior diag_lib mvser_ex0 mash_ex_w mash_ex_w = Some c"
    using mvser_ex_success(2) [of mash_ex_w mash_ex_w] mash_ex_success [of 4] by auto
  obtain d where d: "mvser_compute_posterior_comcov diag_lib mvser_ex0 mash_ex_w mash_ex_w = Some d"
    using mvser_ex_success(4) [of mash_ex_w mash_ex_w] mash_ex_comcov_success [of 4] by auto
  note t = prior_scalar_update [OF mvser_ex_fields(6) w, of diag_lib mash_ex_w a b]
  note t0 = prior_scalar_update [OF mvser_ex_fields(7) w, of diag_lib mash_ex_w c d]
  have ta: "\<forall>p<2. ent (PriorScalar a) p 0
              = trace (mat_mul (slice (Uinv_cube mvser_ex) p)
                         (mvser_mu2_acc diag_lib mvser_ex mash_ex_w p 1 (zeros 1 1)))
                / dbl_of_nat 1"
    using t a ne by simp
  have tb: "\<forall>p<2. ent (PriorScalar b) p 0
              = trace (mat_mul (slice (Uinv_cube mvser_ex) p)
                         (mvser_comcov_mu2_acc diag_lib mvser_ex mash_ex_w
                            (or_empty (comcov_Vinv diag_lib (to_mash mvser_ex))) p 1 (zeros 1 1)))
                / dbl_of_nat 1"
    using t b ne by simp
  have ra: "ent (PriorScalar a) 0 0 = Fin (3 / 8)" "ent (PriorScalar a) 1 0 = Fin 0"
    using ta [rule_format, of 0] ta [rule_format, of 1]
    by (simp_all add: mvser_ex_fields mvser_ex_mu2 dbl_of_nat_def)
  have rb: "ent (PriorScalar b) 0 0 = Fin (3 / 8)" "ent (PriorScalar b) 1 0 = Fin 0"
    using tb [rule_format, of 0] tb [rule_format, of 1]
    by (simp_all add: mvser_ex_fields mvser_ex_mu2 dbl_of_nat_def mash_ex_comcov)
  have rc: "PriorScalar c = mk_mat 2 1 (\<lambda>i k. NaN)"
    using t0 c ne by (simp add: PriorScalar_def mvser_ex_fields)
  have rd: "PriorScalar d = mk_mat 2 1 (\<lambda>i k. NaN)"
    using t0 d ne by (simp add: PriorScalar_def mvser_ex_fields)
  show ?thesis
    using mvser_ex_fields(6,7) w ne a b c d ra rb rc rd by simp
qed

end
